(* ===== verification/Media_Prelude.thy ===== *)
theory Media_Prelude
  imports Main "HOL-Library.Word"
begin

text \<open>
  Prelude of the media-service development: the machine types of the model, the lemma
  collections, and the generic facts the components share. The facts are about tables, that
  is, lists of rows with a key column (\<open>lookup_by\<close>): reading a row, inserting at the end,
  deleting by a predicate, and updating rows in place without touching the key.
\<close>

section \<open>Types of the model\<close>

text \<open>
  A UUID is 16 bytes, compared bytewise from the first one: as an unsigned 128-bit word the
  order is the same. File content is a list of bytes, a Go \<open>string\<close> is a list of
  8-bit characters. Times and durations are in nanoseconds, as Go's \<open>time.Duration\<close>.
\<close>

type_synonym uuid = "128 word"
type_synonym byte = "8 word"
type_synonym bytes = "byte list"
type_synonym timestamp = int
type_synonym duration = int

abbreviation second :: duration where
  "second \<equiv> 1000000000"

abbreviation minute :: duration where
  "minute \<equiv> 60000000000"

text \<open>
  A Go \<open>int64\<close> is an \<open>int\<close> in the range \<open>-2^63 .. 2^63 - 1\<close>; where a sum may leave the
  range, \<open>int64\<close> writes out the wrap-around.
\<close>

definition int64 :: "int \<Rightarrow> int" where
  "int64 x = (x + 2 ^ 63) mod 2 ^ 64 - 2 ^ 63"

lemma int64_id [simp]: "- (2 ^ 63) \<le> x \<Longrightarrow> x < 2 ^ 63 \<Longrightarrow> int64 x = x"
  by (simp add: int64_def)

lemma int64_range: "- (2 ^ 63) \<le> int64 x \<and> int64 x < 2 ^ 63"
  unfolding int64_def using pos_mod_bound [of "2 ^ 64 :: int" "x + 2 ^ 63"]
  by (simp add: algebra_simps)

lemma int64_overflow: "2 ^ 63 \<le> x \<Longrightarrow> x < 2 ^ 64 + 2 ^ 63 \<Longrightarrow> int64 x = x - 2 ^ 64"
  by (simp add: int64_def mod_pos_geq)

section \<open>Lemma collections\<close>

text \<open>
  \<open>op_defs\<close> collects the definitions of operations that a client proof unfolds;
  \<open>iface_simps\<close> the equations that read a method out of an interface value.
\<close>

named_theorems op_defs
named_theorems iface_simps

section \<open>Results\<close>

text \<open>A fallible Go call returns \<open>error + 'a\<close>; the state it leaves is the second component.\<close>

lemma result_cases:
  obtains (Err) e s where "r = (Inl e, s)" | (Ok) a s where "r = (Inr a, s)"
  by (metis old.sum.exhaust surj_pair)

section \<open>Tables: rows with a key\<close>

definition lookup_by :: "('a \<Rightarrow> 'k) \<Rightarrow> 'a list \<Rightarrow> 'k \<Rightarrow> 'a option" where
  "lookup_by key xs k = find (\<lambda>x. key x = k) xs"

definition keyed :: "('a \<Rightarrow> 'k) \<Rightarrow> 'a list \<Rightarrow> bool" where
  "keyed key xs = distinct (map key xs)"

lemma lookup_by_Nil [simp]: "lookup_by key [] k = None"
  by (simp add: lookup_by_def)

lemma lookup_by_Cons [simp]:
  "lookup_by key (x # xs) k = (if key x = k then Some x else lookup_by key xs k)"
  by (simp add: lookup_by_def)

lemma keyed_Nil [simp]: "keyed key []"
  by (simp add: keyed_def)

lemma keyed_Cons [simp]: "keyed key (x # xs) \<longleftrightarrow> key x \<notin> key ` set xs \<and> keyed key xs"
  by (simp add: keyed_def)

lemma lookup_by_None_iff: "lookup_by key xs k = None \<longleftrightarrow> k \<notin> key ` set xs"
  by (induction xs) auto

lemma lookup_by_SomeD: "lookup_by key xs k = Some x \<Longrightarrow> x \<in> set xs \<and> key x = k"
  by (induction xs) (auto split: if_splits)

lemma lookup_by_Some_iff:
  "keyed key xs \<Longrightarrow> lookup_by key xs k = Some x \<longleftrightarrow> x \<in> set xs \<and> key x = k"
  by (induction xs) auto

lemma lookup_by_append:
  "lookup_by key (xs @ ys) k =
     (case lookup_by key xs k of None \<Rightarrow> lookup_by key ys k | Some x \<Rightarrow> Some x)"
  by (induction xs) auto

lemma lookup_by_filter:
  "keyed key xs \<Longrightarrow>
   lookup_by key (filter P xs) k =
     (case lookup_by key xs k of None \<Rightarrow> None | Some x \<Rightarrow> if P x then Some x else None)"
  by (induction xs)
    (auto simp: lookup_by_None_iff dest!: lookup_by_SomeD split: option.splits)

lemma lookup_by_map:
  "(\<And>x. key (f x) = key x) \<Longrightarrow> lookup_by key (map f xs) k = map_option f (lookup_by key xs k)"
  by (induction xs) auto

lemma keyed_filter [intro]: "keyed key xs \<Longrightarrow> keyed key (filter P xs)"
  unfolding keyed_def by (rule distinct_map_filter)

lemma keyed_map [intro]: "(\<And>x. key (f x) = key x) \<Longrightarrow> keyed key xs \<Longrightarrow> keyed key (map f xs)"
  by (simp add: keyed_def o_def)

lemma keyed_append1 [simp]: "keyed key (xs @ [x]) \<longleftrightarrow> keyed key xs \<and> lookup_by key xs (key x) = None"
  by (auto simp: keyed_def lookup_by_None_iff)

lemmas table_simps = lookup_by_None_iff lookup_by_append lookup_by_filter lookup_by_map

end
