(* ===== verification/Media_Domain.thy ===== *)
theory Media_Domain
  imports Media_Prelude
begin

text \<open>
  The domain package (\<^verbatim>\<open>internal/domain/media\<close>) and the error values of the service:
  the Media entity, its constructor, the sentinel errors, and the ports (Go interfaces)
  through which the layers call one another. A Go interface is a record of functions, one
  field per method; a method takes the context and the state it works on, and returns its
  result with the state it leaves.
\<close>

section \<open>Contexts\<close>

text \<open>
  \<open>RequestCtx\<close> is the context of a running request or worker, which may be cancelled at
  any moment; \<open>WithoutCancel\<close> is \<^verbatim>\<open>context.WithoutCancel\<close>, whose result never is.
\<close>

datatype ctx = RequestCtx | WithoutCancel ctx

fun cancellable :: "ctx \<Rightarrow> bool" where
  "cancellable RequestCtx = True"
| "cancellable (WithoutCancel _) = False"

section \<open>Errors\<close>

text \<open>
  An error of the S3 client: the smithy API error code and the HTTP status where the error
  chain carries them, whether it is (or wraps) \<^verbatim>\<open>types.NoSuchKey\<close>, and its message.
\<close>

record aws_error =
  api_code :: "string option"
  http_status :: "nat option"
  no_such_key :: bool
  aws_msg :: string

text \<open>
  The sentinel errors of the domain and application packages, the errors of the libraries
  they call, and \<open>Wrapped p e\<close> for \<^verbatim>\<open>fmt.Errorf("p: %w", e)\<close>.
\<close>

datatype error =
    ErrNotFound
  | ErrIDConflict
  | ErrBlobAlreadyExists
  | ErrBlobNotFound
  | ErrUnsupportedMIME
  | ErrFileTooLarge
  | ErrMediaIDConflict
  | ErrTooManyIDs
  | ErrNoRows
  | PgError string string
  | DbError string
  | AwsError aws_error
  | MaxBytesError
  | OtherError string
  | Wrapped string error

text \<open>\<^verbatim>\<open>errors.Is\<close>: the error itself or one it wraps equals the target.\<close>

fun errors_Is :: "error \<Rightarrow> error \<Rightarrow> bool" where
  "errors_Is (Wrapped p e) t \<longleftrightarrow> Wrapped p e = t \<or> errors_Is e t"
| "errors_Is e t \<longleftrightarrow> e = t"

text \<open>\<^verbatim>\<open>errors.As\<close> for the library error types: the first error of that type in the chain.\<close>

fun errors_As_PgError :: "error \<Rightarrow> string option" where
  "errors_As_PgError (PgError code _) = Some code"
| "errors_As_PgError (Wrapped _ e) = errors_As_PgError e"
| "errors_As_PgError _ = None"

fun errors_As_Aws :: "error \<Rightarrow> aws_error option" where
  "errors_As_Aws (AwsError a) = Some a"
| "errors_As_Aws (Wrapped _ e) = errors_As_Aws e"
| "errors_As_Aws _ = None"

fun errors_As_MaxBytes :: "error \<Rightarrow> bool" where
  "errors_As_MaxBytes MaxBytesError = True"
| "errors_As_MaxBytes (Wrapped _ e) = errors_As_MaxBytes e"
| "errors_As_MaxBytes _ = False"

text \<open>The text of an error, \<^verbatim>\<open>err.Error()\<close>.\<close>

fun Error :: "error \<Rightarrow> string" where
  "Error ErrNotFound = ''media not found''"
| "Error ErrIDConflict = ''media id already in use''"
| "Error ErrBlobAlreadyExists = ''blob already exists''"
| "Error ErrBlobNotFound = ''blob not found''"
| "Error ErrUnsupportedMIME = ''unsupported file type''"
| "Error ErrFileTooLarge = ''file exceeds the maximum allowed size''"
| "Error ErrMediaIDConflict = ''media id already used by another upload''"
| "Error ErrTooManyIDs = ''too many ids requested''"
| "Error ErrNoRows = ''no rows in result set''"
| "Error (PgError code msg) = ''ERROR: '' @ msg @ '' (SQLSTATE '' @ code @ '')''"
| "Error (DbError msg) = msg"
| "Error (AwsError a) = aws_msg a"
| "Error MaxBytesError = ''http: request body too large''"
| "Error (OtherError msg) = msg"
| "Error (Wrapped p e) = p @ '': '' @ Error e"

lemma errors_Is_refl [simp]: "errors_Is e e"
  by (cases e) auto

section \<open>The Media entity\<close>

record Media =
  ID :: uuid
  UserID :: uuid
  OriginalFilename :: string
  ContentType :: string
  SizeBytes :: int
  Status :: string
  CreatedAt :: timestamp
  UpdatedAt :: timestamp
  DeletedAt :: "timestamp option"

definition StatusAvailable :: string where
  "StatusAvailable = ''AVAILABLE''"

text \<open>The clock reading \<^verbatim>\<open>time.Now().UTC()\<close> is the argument \<open>now\<close>.\<close>

definition New :: "timestamp \<Rightarrow> uuid \<Rightarrow> uuid \<Rightarrow> string \<Rightarrow> string \<Rightarrow> int \<Rightarrow> Media" where
  "New now mid userID originalFilename contentType sizeBytes =
     \<lparr> ID = mid,
       UserID = userID,
       OriginalFilename = originalFilename,
       ContentType = contentType,
       SizeBytes = sizeBytes,
       Status = StatusAvailable,
       CreatedAt = now,
       UpdatedAt = now,
       DeletedAt = None \<rparr>"

lemma New_sel [simp]:
  "ID (New now i u f c n) = i" "UserID (New now i u f c n) = u"
  "OriginalFilename (New now i u f c n) = f" "ContentType (New now i u f c n) = c"
  "SizeBytes (New now i u f c n) = n" "Status (New now i u f c n) = StatusAvailable"
  "CreatedAt (New now i u f c n) = now" "UpdatedAt (New now i u f c n) = now"
  "DeletedAt (New now i u f c n) = None"
  by (simp_all add: New_def)

section \<open>Ports\<close>

record 's BlobStore =
  bs_Put :: "ctx \<Rightarrow> 's \<Rightarrow> uuid \<Rightarrow> bytes \<Rightarrow> string \<Rightarrow> (error + unit) \<times> 's"
  bs_Get :: "ctx \<Rightarrow> 's \<Rightarrow> uuid \<Rightarrow> (error + bytes) \<times> 's"
  bs_Delete :: "ctx \<Rightarrow> 's \<Rightarrow> uuid \<Rightarrow> (error + unit) \<times> 's"

record 'w MediaRepo =
  mr_Create :: "ctx \<Rightarrow> 'w \<Rightarrow> Media \<Rightarrow> bytes \<Rightarrow> (error + unit) \<times> 'w"
  mr_GetByID :: "ctx \<Rightarrow> 'w \<Rightarrow> uuid \<Rightarrow> uuid \<Rightarrow> (error + Media) \<times> 'w"
  mr_GetContent :: "ctx \<Rightarrow> 'w \<Rightarrow> uuid \<Rightarrow> uuid \<Rightarrow> (error + Media \<times> bytes) \<times> 'w"
  mr_ListByIDs :: "ctx \<Rightarrow> 'w \<Rightarrow> uuid \<Rightarrow> uuid list \<Rightarrow> (error + Media list) \<times> 'w"
  mr_Delete :: "ctx \<Rightarrow> 'w \<Rightarrow> uuid \<Rightarrow> uuid \<Rightarrow> (error + unit) \<times> 'w"
  mr_DeleteByIDs :: "ctx \<Rightarrow> 'w \<Rightarrow> uuid \<Rightarrow> uuid list \<Rightarrow> (error + int) \<times> 'w"
  mr_DeleteAllByUser :: "ctx \<Rightarrow> 'w \<Rightarrow> uuid \<Rightarrow> (error + int) \<times> 'w"

record BlobDeletionTask =
  MediaID :: uuid

record 'd BlobDeletionQueue =
  dq_Claim :: "ctx \<Rightarrow> 'd \<Rightarrow> (error + BlobDeletionTask) \<times> 'd"
  dq_Complete :: "ctx \<Rightarrow> 'd \<Rightarrow> uuid \<Rightarrow> (error + unit) \<times> 'd"
  dq_Retry :: "ctx \<Rightarrow> 'd \<Rightarrow> uuid \<Rightarrow> error \<Rightarrow> (error + unit) \<times> 'd"

definition BlobDeletionLease :: duration where
  "BlobDeletionLease = 2 * minute"

section \<open>The BlobStore contract\<close>

text \<open>
  What a client of the BlobStore port relies on. \<open>iface c\<close> is the port of a store with
  configuration \<open>c\<close>, \<open>ok c\<close> says that what lies behind the store behaves as documented,
  and \<open>content c s id\<close> is the content stored for \<open>id\<close> in state \<open>s\<close>. A failed call may
  or may not have taken effect (a lost reply), but never changes anything else. The errors of
  the store are its own two sentinels or errors of the library behind it.
\<close>

locale blob_store =
  fixes ok :: "'c \<Rightarrow> bool"
    and iface :: "'c \<Rightarrow> 's BlobStore"
    and content :: "'c \<Rightarrow> 's \<Rightarrow> uuid \<Rightarrow> bytes option"
  assumes put_ok:
      "ok c \<Longrightarrow> bs_Put (iface c) x s i b ct = (Inr u, s') \<Longrightarrow>
       content c s i = None \<and> content c s' = (content c s)(i \<mapsto> b)"
    and put_err:
      "ok c \<Longrightarrow> bs_Put (iface c) x s i b ct = (Inl e, s') \<Longrightarrow>
       content c s' = content c s \<or>
       content c s i = None \<and> content c s' = (content c s)(i \<mapsto> b)"
    and put_exists:
      "ok c \<Longrightarrow> bs_Put (iface c) x s i b ct = (Inl e, s') \<Longrightarrow>
       errors_Is e ErrBlobAlreadyExists \<Longrightarrow> content c s' i \<noteq> None"
    and put_err_kind:
      "bs_Put (iface c) x s i b ct = (Inl e, s') \<Longrightarrow> \<not> errors_Is e ErrIDConflict"
    and get_ok:
      "ok c \<Longrightarrow> bs_Get (iface c) x s i = (Inr b, s') \<Longrightarrow> content c s i = Some b"
    and get_missing:
      "ok c \<Longrightarrow> bs_Get (iface c) x s i = (Inl e, s') \<Longrightarrow>
       errors_Is e ErrBlobNotFound \<Longrightarrow> content c s i = None"
    and get_err_kind:
      "bs_Get (iface c) x s i = (Inl e, s') \<Longrightarrow> \<not> errors_Is e ErrNotFound"
    and get_frame:
      "ok c \<Longrightarrow> bs_Get (iface c) x s i = (r, s') \<Longrightarrow> content c s' = content c s"
    and delete_ok:
      "ok c \<Longrightarrow> bs_Delete (iface c) x s i = (Inr u, s') \<Longrightarrow>
       content c s' = (content c s)(i := None)"
    and delete_err:
      "ok c \<Longrightarrow> bs_Delete (iface c) x s i = (Inl e, s') \<Longrightarrow>
       content c s' = content c s \<or> content c s' = (content c s)(i := None)"
begin

text \<open>A stored object is never overwritten: \<open>Put\<close> keeps the content of every present id.\<close>

lemma put_keeps:
  assumes "ok c" and "bs_Put (iface c) x s i b ct = (r, s')" and "content c s j = Some d"
  shows "content c s' j = Some d"
  using assms put_ok [OF assms(1), of x s i b ct] put_err [OF assms(1), of x s i b ct]
  by (cases r) (fastforce split: if_splits)+

lemma delete_result:
  assumes "ok c" and "bs_Delete (iface c) x s i = (r, s')"
  shows "content c s' = content c s \<or> content c s' = (content c s)(i := None)"
  using assms delete_ok [OF assms(1), of x s i] delete_err [OF assms(1), of x s i]
  by (cases r) fastforce+

lemma delete_others:
  assumes "ok c" and "bs_Delete (iface c) x s i = (r, s')" and "j \<noteq> i"
  shows "content c s' j = content c s j"
  using delete_result [OF assms(1,2)] assms(3) by auto

lemma delete_no_create:
  assumes "ok c" and "bs_Delete (iface c) x s i = (r, s')" and "content c s j = None"
  shows "content c s' j = None"
  using delete_result [OF assms(1,2)] assms(3) by auto

lemma put_others:
  assumes "ok c" and "bs_Put (iface c) x s i b ct = (r, s')" and "j \<noteq> i"
  shows "content c s' j = content c s j"
  using assms put_ok [OF assms(1), of x s i b ct] put_err [OF assms(1), of x s i b ct]
  by (cases r) (metis fun_upd_other)+

end

end
