(* ===== verification/Metadata_Store.thy ===== *)
theory Metadata_Store
  imports Media_Domain
begin

text \<open>
  The metadata port of the composite repository (\<open>metadataStore\<close> and
  \<open>legacyContentReader\<close> of \<^verbatim>\<open>internal/repository/media/repository.go\<close>) and its contract:
  what the composite repository relies on, whatever stores the rows.
\<close>

section \<open>The port\<close>

record 'd metadataStore =
  ms_Create :: "ctx \<Rightarrow> 'd \<Rightarrow> Media \<Rightarrow> (error + unit) \<times> 'd"
  ms_GetByID :: "ctx \<Rightarrow> 'd \<Rightarrow> uuid \<Rightarrow> uuid \<Rightarrow> (error + Media) \<times> 'd"
  ms_ListByIDs :: "ctx \<Rightarrow> 'd \<Rightarrow> uuid \<Rightarrow> uuid list \<Rightarrow> (error + Media list) \<times> 'd"
  ms_Delete :: "ctx \<Rightarrow> 'd \<Rightarrow> uuid \<Rightarrow> uuid \<Rightarrow> (error + unit) \<times> 'd"
  ms_DeleteByIDs :: "ctx \<Rightarrow> 'd \<Rightarrow> uuid \<Rightarrow> uuid list \<Rightarrow> (error + uuid list) \<times> 'd"
  ms_DeleteAllByUser :: "ctx \<Rightarrow> 'd \<Rightarrow> uuid \<Rightarrow> (error + uuid list) \<times> 'd"

type_synonym 'd legacyContentReader = "ctx \<Rightarrow> 'd \<Rightarrow> uuid \<Rightarrow> (error + bytes) \<times> 'd"

section \<open>The vocabulary of the contract\<close>

text \<open>
  A stored row describes the same file as the entity it was made from; only the
  timestamps may come back changed (their precision is the column's).
\<close>

definition same_file :: "Media \<Rightarrow> Media \<Rightarrow> bool" where
  "same_file m m' \<longleftrightarrow>
     ID m' = ID m \<and> UserID m' = UserID m \<and> OriginalFilename m' = OriginalFilename m \<and>
     ContentType m' = ContentType m \<and> SizeBytes m' = SizeBytes m \<and> Status m' = Status m \<and>
     DeletedAt m' = None"

text \<open>\<open>visible\<close>: the row is \<open>u\<close>'s and not marked deleted; \<open>owned_ids\<close>: the ids of \<open>u\<close>'s rows.\<close>

definition visible :: "(uuid \<rightharpoonup> Media) \<Rightarrow> uuid \<Rightarrow> uuid \<Rightarrow> Media \<Rightarrow> bool" where
  "visible rows u i m \<longleftrightarrow> rows i = Some m \<and> UserID m = u \<and> DeletedAt m = None"

definition owned_ids :: "(uuid \<rightharpoonup> Media) \<Rightarrow> uuid \<Rightarrow> uuid set" where
  "owned_ids rows u = {i. \<exists>m. rows i = Some m \<and> UserID m = u}"

definition inserted :: "(uuid \<rightharpoonup> Media) \<Rightarrow> Media \<Rightarrow> (uuid \<rightharpoonup> Media) \<Rightarrow> bool" where
  "inserted rows m rows' \<longleftrightarrow>
     rows (ID m) = None \<and> (\<exists>m'. same_file m m' \<and> rows' = rows(ID m \<mapsto> m'))"

definition removed :: "(uuid \<rightharpoonup> Media) \<Rightarrow> uuid set \<Rightarrow> (uuid \<rightharpoonup> Media)" where
  "removed rows D = (\<lambda>i. if i \<in> D then None else rows i)"

lemma removed_empty [simp]: "removed rows {} = rows"
  by (simp add: removed_def)

lemma inserted_lookup: "inserted rows m rows' \<Longrightarrow> i \<noteq> ID m \<Longrightarrow> rows' i = rows i"
  by (auto simp: inserted_def)

lemma removed_Some: "removed rows D i = Some m \<longleftrightarrow> i \<notin> D \<and> rows i = Some m"
  by (simp add: removed_def)

section \<open>The contract\<close>

text \<open>
  \<open>rows d\<close> are the media rows, \<open>tasks d\<close> the ids with a blob deletion task and \<open>live d\<close>
  those whose task is not completed. A failed statement has either done nothing or all it
  was to do (a lost reply); a delete and the enqueueing of its deletion tasks are one
  statement, so they happen together or not at all.
\<close>

locale metadata_store =
  fixes inv :: "'d \<Rightarrow> bool"
    and rows :: "'d \<Rightarrow> uuid \<rightharpoonup> Media"
    and tasks :: "'d \<Rightarrow> uuid set"
    and live :: "'d \<Rightarrow> uuid set"
    and meta :: "'d metadataStore"
  assumes create_ok:
      "inv d \<Longrightarrow> ms_Create meta x d m = (Inr a, d') \<Longrightarrow> inserted (rows d) m (rows d')"
    and create_err:
      "inv d \<Longrightarrow> ms_Create meta x d m = (Inl e, d') \<Longrightarrow>
       rows d' = rows d \<or> inserted (rows d) m (rows d')"
    and create_conflict:
      "inv d \<Longrightarrow> ms_Create meta x d m = (Inl e, d') \<Longrightarrow> errors_Is e ErrIDConflict \<Longrightarrow>
       rows d (ID m) \<noteq> None \<and> rows d' = rows d"
    and create_frame:
      "inv d \<Longrightarrow> ms_Create meta x d m = (r, d') \<Longrightarrow>
       inv d' \<and> tasks d' = tasks d \<and> live d' = live d"
    and get_ok:
      "inv d \<Longrightarrow> ms_GetByID meta x d u i = (Inr m, d') \<Longrightarrow> visible (rows d) u i m"
    and get_missing:
      "inv d \<Longrightarrow> ms_GetByID meta x d u i = (Inl e, d') \<Longrightarrow> errors_Is e ErrNotFound \<Longrightarrow>
       \<not> visible (rows d) u i m"
    and get_frame:
      "inv d \<Longrightarrow> ms_GetByID meta x d u i = (rg, d') \<Longrightarrow>
       inv d' \<and> rows d' = rows d \<and> tasks d' = tasks d \<and> live d' = live d"
    and list_ok:
      "inv d \<Longrightarrow> ms_ListByIDs meta x d u is = (Inr ms, d') \<Longrightarrow>
       distinct (map ID ms) \<and>
       (\<forall>m. m \<in> set ms \<longleftrightarrow> ID m \<in> set is \<and> visible (rows d) u (ID m) m)"
    and list_frame:
      "inv d \<Longrightarrow> ms_ListByIDs meta x d u is = (rl, d') \<Longrightarrow>
       inv d' \<and> rows d' = rows d \<and> tasks d' = tasks d \<and> live d' = live d"
    and delete_ok:
      "inv d \<Longrightarrow> ms_Delete meta x d u i = (Inr a, d') \<Longrightarrow>
       i \<in> owned_ids (rows d) u \<and> rows d' = removed (rows d) {i} \<and>
       tasks d' = tasks d \<union> {i} \<and> live d' = live d \<union> {i}"
    and delete_missing:
      "inv d \<Longrightarrow> ms_Delete meta x d u i = (Inl e, d') \<Longrightarrow> errors_Is e ErrNotFound \<Longrightarrow>
       i \<notin> owned_ids (rows d) u \<and> rows d' = rows d \<and> tasks d' = tasks d \<and> live d' = live d"
    and delete_all_or_nothing:
      "inv d \<Longrightarrow> ms_Delete meta x d u i = (r, d') \<Longrightarrow>
       inv d' \<and> (\<exists>D \<subseteq> {i} \<inter> owned_ids (rows d) u. rows d' = removed (rows d) D \<and>
         tasks d' = tasks d \<union> D \<and> live d' = live d \<union> D)"
    and delete_ids_ok:
      "inv d \<Longrightarrow> ms_DeleteByIDs meta x d u is = (Inr del, d') \<Longrightarrow>
       distinct del \<and> set del = set is \<inter> owned_ids (rows d) u \<and>
       rows d' = removed (rows d) (set del) \<and>
       tasks d' = tasks d \<union> set del \<and> live d' = live d \<union> set del"
    and delete_ids_all_or_nothing:
      "inv d \<Longrightarrow> ms_DeleteByIDs meta x d u is = (rd, d') \<Longrightarrow>
       inv d' \<and> (\<exists>D \<in> {{}, set is \<inter> owned_ids (rows d) u}. rows d' = removed (rows d) D \<and>
         tasks d' = tasks d \<union> D \<and> live d' = live d \<union> D)"
    and delete_user_ok:
      "inv d \<Longrightarrow> ms_DeleteAllByUser meta x d u = (Inr del, d') \<Longrightarrow>
       distinct del \<and> set del = owned_ids (rows d) u \<and>
       rows d' = removed (rows d) (set del) \<and>
       tasks d' = tasks d \<union> set del \<and> live d' = live d \<union> set del"
    and delete_user_all_or_nothing:
      "inv d \<Longrightarrow> ms_DeleteAllByUser meta x d u = (rd, d') \<Longrightarrow>
       inv d' \<and> (\<exists>D \<in> {{}, owned_ids (rows d) u}. rows d' = removed (rows d) D \<and>
         tasks d' = tasks d \<union> D \<and> live d' = live d \<union> D)"

end
