(* ===== verification/Blob_Store.thy ===== *)
theory Blob_Store
  imports Media_Domain
begin

text \<open>
  The S3 blob store (\<^verbatim>\<open>internal/platform/blobstore/store.go\<close>). The AWS SDK client, the S3
  service behind it and the UUID library are not part of the repository: they are arguments
  (\<open>s3_client\<close>, \<open>uuid_lib\<close>), and what the store relies on is stated as the predicates
  \<open>s3_documented\<close> and \<open>uuid_documented\<close>. Under them the store meets the BlobStore contract.
\<close>

section \<open>The libraries the store calls\<close>

record uuid_lib =
  uuid_Parse :: "string \<Rightarrow> uuid option"
  uuid_String :: "uuid \<Rightarrow> string"

text \<open>The canonical text of a UUID parses back to it.\<close>

definition uuid_documented :: "uuid_lib \<Rightarrow> bool" where
  "uuid_documented L \<longleftrightarrow> (\<forall>u. uuid_Parse L (uuid_String L u) = Some u)"

record PutObjectInput =
  poi_Bucket :: string
  poi_Key :: string
  poi_Body :: bytes
  poi_ContentType :: string
  poi_IfNoneMatch :: "string option"

text \<open>
  The client: each call takes the bucket and the key and returns what the SDK returns.
  \<open>GetObject\<close> returns a body whose reading may fail in turn. \<open>Objects\<close> is no call of the
  SDK: it is what the bucket holds in a state, for the statements below.
\<close>

record 's s3_client =
  PutObject :: "ctx \<Rightarrow> 's \<Rightarrow> PutObjectInput \<Rightarrow> (aws_error + unit) \<times> 's"
  GetObject :: "ctx \<Rightarrow> 's \<Rightarrow> string \<Rightarrow> string \<Rightarrow> (aws_error + (string + bytes)) \<times> 's"
  DeleteObject :: "ctx \<Rightarrow> 's \<Rightarrow> string \<Rightarrow> string \<Rightarrow> (aws_error + unit) \<times> 's"
  HeadBucket :: "ctx \<Rightarrow> 's \<Rightarrow> string \<Rightarrow> (aws_error + unit) \<times> 's"
  Objects :: "'s \<Rightarrow> string \<Rightarrow> string \<Rightarrow> bytes option"

definition set_object ::
    "(string \<Rightarrow> string \<Rightarrow> bytes option) \<Rightarrow> string \<Rightarrow> string \<Rightarrow> bytes option \<Rightarrow>
     string \<Rightarrow> string \<Rightarrow> bytes option" where
  "set_object om b k v = om(b := (om b)(k := v))"

text \<open>
  S3's documented behaviour. A conditional \<open>PutObject\<close> (\<open>If-None-Match: *\<close>) that succeeds
  found no object and stored the body; the answer 412 \<open>PreconditionFailed\<close> means that an
  object is there (the SDK retries by itself, so it may be the one this very call wrote); any
  other failure may have stored the body or not. \<open>GetObject\<close> changes nothing, returns
  what is stored, and reports \<open>NoSuchKey\<close> only when nothing is. \<open>DeleteObject\<close> removes the
  object, whether it was there or not; a failed one may have removed it.
\<close>

definition precondition_failed :: "aws_error \<Rightarrow> bool" where
  "precondition_failed e \<longleftrightarrow> api_code e = Some ''PreconditionFailed'' \<or> http_status e = Some 412"

definition s3_put_documented :: "'s s3_client \<Rightarrow> bool" where
  "s3_put_documented C \<longleftrightarrow> (\<forall>x s p r s'.
     PutObject C x s p = (r, s') \<longrightarrow> poi_IfNoneMatch p = Some ''*'' \<longrightarrow>
     (case r of
        Inr _ \<Rightarrow> Objects C s (poi_Bucket p) (poi_Key p) = None \<and>
          Objects C s' = set_object (Objects C s) (poi_Bucket p) (poi_Key p) (Some (poi_Body p))
      | Inl e \<Rightarrow>
          (Objects C s' = Objects C s \<or>
           Objects C s (poi_Bucket p) (poi_Key p) = None \<and>
           Objects C s' = set_object (Objects C s) (poi_Bucket p) (poi_Key p) (Some (poi_Body p))) \<and>
          (precondition_failed e \<longrightarrow> Objects C s' (poi_Bucket p) (poi_Key p) \<noteq> None)))"

definition s3_get_documented :: "'s s3_client \<Rightarrow> bool" where
  "s3_get_documented C \<longleftrightarrow> (\<forall>x s b k r s'.
     GetObject C x s b k = (r, s') \<longrightarrow>
     Objects C s' = Objects C s \<and>
     (case r of
        Inr (Inr body) \<Rightarrow> Objects C s b k = Some body
      | Inr (Inl _) \<Rightarrow> True
      | Inl e \<Rightarrow> no_such_key e \<longrightarrow> Objects C s b k = None))"

definition s3_delete_documented :: "'s s3_client \<Rightarrow> bool" where
  "s3_delete_documented C \<longleftrightarrow> (\<forall>x s b k r s'.
     DeleteObject C x s b k = (r, s') \<longrightarrow>
     (case r of
        Inr _ \<Rightarrow> Objects C s' = set_object (Objects C s) b k None
      | Inl _ \<Rightarrow> Objects C s' = Objects C s \<or> Objects C s' = set_object (Objects C s) b k None))"

definition s3_documented :: "'s s3_client \<Rightarrow> bool" where
  "s3_documented C \<longleftrightarrow> s3_put_documented C \<and> s3_get_documented C \<and> s3_delete_documented C"

text \<open>
  A reliable S3: a call under a context that cannot be cancelled is answered, and so is
  every call when \<open>x\<close> is the context that is never cancelled during the run.
\<close>

definition s3_answers :: "'s s3_client \<Rightarrow> ctx \<Rightarrow> bool" where
  "s3_answers C x \<longleftrightarrow>
     (\<forall>s p. poi_IfNoneMatch p = Some ''*'' \<longrightarrow> Objects C s (poi_Bucket p) (poi_Key p) = None \<longrightarrow>
        isl (fst (PutObject C x s p)) = False) \<and>
     (\<forall>s b k body. Objects C s b k = Some body \<longrightarrow>
        fst (GetObject C x s b k) = Inr (Inr body)) \<and>
     (\<forall>s b k. isl (fst (DeleteObject C x s b k)) = False)"

section \<open>The store\<close>

definition keyPrefix :: string where
  "keyPrefix = ''media/''"

record Config =
  cfg_Bucket :: string
  cfg_Region :: string
  cfg_Endpoint :: string
  cfg_AccessKeyID :: string
  cfg_SecretAccessKey :: string
  cfg_ForcePathStyle :: bool

record 's Store =
  client :: "'s s3_client"
  bucket :: string

text \<open>What \<open>New\<close> hands to the SDK: the load options and the client options.\<close>

record s3_options =
  o_Region :: string
  o_Credentials :: "(string \<times> string) option"
  o_BaseEndpoint :: "string option"
  o_UsePathStyle :: bool

definition new_options :: "Config \<Rightarrow> s3_options" where
  "new_options cfg =
     \<lparr> o_Region = cfg_Region cfg,
       o_Credentials =
         (if cfg_AccessKeyID cfg \<noteq> [] \<and> cfg_SecretAccessKey cfg \<noteq> []
          then Some (cfg_AccessKeyID cfg, cfg_SecretAccessKey cfg) else None),
       o_BaseEndpoint = (if cfg_Endpoint cfg \<noteq> [] then Some (cfg_Endpoint cfg) else None),
       o_UsePathStyle = cfg_ForcePathStyle cfg \<rparr>"

text \<open>
  \<open>New\<close>: \<open>load\<close> stands for \<^verbatim>\<open>LoadDefaultConfig\<close> and \<^verbatim>\<open>NewFromConfig\<close>.
\<close>

definition Store_New ::
    "(s3_options \<Rightarrow> string + 's s3_client) \<Rightarrow> ctx \<Rightarrow> 's \<Rightarrow> Config \<Rightarrow> (error + 's Store) \<times> 's" where
  "Store_New load x s cfg =
     (case load (new_options cfg) of
        Inl e \<Rightarrow> (Inl (Wrapped ''blobstore: load client config'' (OtherError e)), s)
      | Inr C \<Rightarrow>
          let store = \<lparr> client = C, bucket = cfg_Bucket cfg \<rparr> in
          (case HeadBucket C x s (cfg_Bucket cfg) of
             (Inl e, s') \<Rightarrow>
               (Inl (Wrapped (''blobstore: head bucket '' @ cfg_Bucket cfg) (AwsError e)), s')
           | (Inr _, s') \<Rightarrow> (Inr store, s')))"

definition ObjectKey :: "uuid_lib \<Rightarrow> uuid \<Rightarrow> string" where
  "ObjectKey L mediaID = keyPrefix @ uuid_String L mediaID"

definition isPreconditionFailed :: "error \<Rightarrow> bool" where
  "isPreconditionFailed err =
     (case errors_As_Aws err of
        None \<Rightarrow> False
      | Some a \<Rightarrow>
          if api_code a = Some ''PreconditionFailed'' then True
          else if http_status a = Some 412 then True
          else False)"

definition Store_Put ::
    "uuid_lib \<Rightarrow> 's Store \<Rightarrow> ctx \<Rightarrow> 's \<Rightarrow> uuid \<Rightarrow> bytes \<Rightarrow> string \<Rightarrow> (error + unit) \<times> 's" where
  "Store_Put L S x s mediaID content contentType =
     (let key = ObjectKey L mediaID in
      case PutObject (client S) x s
             \<lparr> poi_Bucket = bucket S, poi_Key = key, poi_Body = content,
               poi_ContentType = contentType, poi_IfNoneMatch = Some ''*'' \<rparr> of
        (Inl e, s') \<Rightarrow>
          if isPreconditionFailed (AwsError e) then (Inl ErrBlobAlreadyExists, s')
          else (Inl (Wrapped (''blobstore: put object '' @ key) (AwsError e)), s')
      | (Inr _, s') \<Rightarrow> (Inr (), s'))"

definition Store_Get ::
    "uuid_lib \<Rightarrow> 's Store \<Rightarrow> ctx \<Rightarrow> 's \<Rightarrow> uuid \<Rightarrow> (error + bytes) \<times> 's" where
  "Store_Get L S x s mediaID =
     (let key = ObjectKey L mediaID in
      case GetObject (client S) x s (bucket S) key of
        (Inl e, s') \<Rightarrow>
          if no_such_key e then (Inl ErrBlobNotFound, s')
          else (Inl (Wrapped (''blobstore: get object '' @ key) (AwsError e)), s')
      | (Inr (Inl e), s') \<Rightarrow> (Inl (Wrapped (''blobstore: read object '' @ key) (OtherError e)), s')
      | (Inr (Inr content), s') \<Rightarrow> (Inr content, s'))"

definition Store_Delete ::
    "uuid_lib \<Rightarrow> 's Store \<Rightarrow> ctx \<Rightarrow> 's \<Rightarrow> uuid \<Rightarrow> (error + unit) \<times> 's" where
  "Store_Delete L S x s mediaID =
     (let key = ObjectKey L mediaID in
      case DeleteObject (client S) x s (bucket S) key of
        (Inl e, s') \<Rightarrow> (Inl (Wrapped (''blobstore: delete object '' @ key) (AwsError e)), s')
      | (Inr _, s') \<Rightarrow> (Inr (), s'))"

lemmas store_defs = Store_Put_def Store_Get_def Store_Delete_def

text \<open>The store as a value of the BlobStore port, and what it stores.\<close>

definition Store_iface :: "uuid_lib \<times> 's Store \<Rightarrow> 's BlobStore" where
  "Store_iface c =
     \<lparr> bs_Put = Store_Put (fst c) (snd c),
       bs_Get = Store_Get (fst c) (snd c),
       bs_Delete = Store_Delete (fst c) (snd c) \<rparr>"

definition store_content :: "uuid_lib \<times> 's Store \<Rightarrow> 's \<Rightarrow> uuid \<Rightarrow> bytes option" where
  "store_content c s i = Objects (client (snd c)) s (bucket (snd c)) (ObjectKey (fst c) i)"

definition store_ok :: "uuid_lib \<times> 's Store \<Rightarrow> bool" where
  "store_ok c \<longleftrightarrow> uuid_documented (fst c) \<and> s3_documented (client (snd c))"

lemma Store_iface_sel [iface_simps]:
  "bs_Put (Store_iface (L, S)) = Store_Put L S"
  "bs_Get (Store_iface (L, S)) = Store_Get L S"
  "bs_Delete (Store_iface (L, S)) = Store_Delete L S"
  by (simp_all add: Store_iface_def)

section \<open>Lemmas\<close>

lemma isPreconditionFailed_Aws [simp]:
  "isPreconditionFailed (AwsError e) \<longleftrightarrow> precondition_failed e"
  by (simp add: isPreconditionFailed_def precondition_failed_def)

text \<open>Distinct ids never share a key: the key scheme needs no column to remember it.\<close>

lemma ObjectKey_inject: "uuid_documented L \<Longrightarrow> ObjectKey L i = ObjectKey L j \<longleftrightarrow> i = j"
  unfolding ObjectKey_def uuid_documented_def by (metis option.inject same_append_eq)

lemma store_content_set:
  "uuid_documented L \<Longrightarrow>
   Objects (client S) s' = set_object (Objects (client S) s) (bucket S) (ObjectKey L i) v \<Longrightarrow>
   store_content (L, S) s' = (store_content (L, S) s)(i := v)"
  by (auto simp: store_content_def set_object_def ObjectKey_inject fun_eq_iff)

lemma store_content_same:
  "Objects (client S) s' = Objects (client S) s \<Longrightarrow> store_content (L, S) s' = store_content (L, S) s"
  by (auto simp: store_content_def fun_eq_iff)

lemma s3_putD:
  assumes "s3_documented C" and "PutObject C x s p = (r, s')" and "poi_IfNoneMatch p = Some ''*''"
  shows "r = Inr u \<Longrightarrow> Objects C s (poi_Bucket p) (poi_Key p) = None \<and>
       Objects C s' = set_object (Objects C s) (poi_Bucket p) (poi_Key p) (Some (poi_Body p))"
    and "r = Inl e \<Longrightarrow> Objects C s' = Objects C s \<or>
       Objects C s (poi_Bucket p) (poi_Key p) = None \<and>
       Objects C s' = set_object (Objects C s) (poi_Bucket p) (poi_Key p) (Some (poi_Body p))"
    and "r = Inl e \<Longrightarrow> precondition_failed e \<Longrightarrow>
       Objects C s' (poi_Bucket p) (poi_Key p) \<noteq> None"
  using assms unfolding s3_documented_def s3_put_documented_def
  by (fastforce split: sum.splits)+

lemma s3_getD:
  assumes "s3_documented C" and "GetObject C x s b k = (r, s')"
  shows "Objects C s' = Objects C s"
    and "r = Inr (Inr body) \<Longrightarrow> Objects C s b k = Some body"
    and "r = Inl e \<Longrightarrow> no_such_key e \<Longrightarrow> Objects C s b k = None"
  using assms unfolding s3_documented_def s3_get_documented_def
  by (fastforce split: sum.splits)+

lemma s3_deleteD:
  assumes "s3_documented C" and "DeleteObject C x s b k = (r, s')"
  shows "r = Inr u \<Longrightarrow> Objects C s' = set_object (Objects C s) b k None"
    and "r = Inl e \<Longrightarrow> Objects C s' = Objects C s \<or> Objects C s' = set_object (Objects C s) b k None"
  using assms unfolding s3_documented_def s3_delete_documented_def
  by (fastforce split: sum.splits)+

text \<open>Case rules: which SDK answer each outcome of a store operation comes from.\<close>

lemma Store_PutE:
  assumes "Store_Put L S x s i b ct = (r, s')"
  obtains (ok) u where "r = Inr ()"
      "PutObject (client S) x s \<lparr> poi_Bucket = bucket S, poi_Key = ObjectKey L i, poi_Body = b,
         poi_ContentType = ct, poi_IfNoneMatch = Some ''*'' \<rparr> = (Inr u, s')"
  | (err) e where
      "r = Inl (if precondition_failed e then ErrBlobAlreadyExists
                else Wrapped (''blobstore: put object '' @ ObjectKey L i) (AwsError e))"
      "PutObject (client S) x s \<lparr> poi_Bucket = bucket S, poi_Key = ObjectKey L i, poi_Body = b,
         poi_ContentType = ct, poi_IfNoneMatch = Some ''*'' \<rparr> = (Inl e, s')"
  using assms unfolding Store_Put_def Let_def
  by (auto split: prod.splits sum.splits if_splits)

lemma Store_GetE:
  assumes "Store_Get L S x s i = (r, s')"
  obtains (ok) b where "r = Inr b"
      "GetObject (client S) x s (bucket S) (ObjectKey L i) = (Inr (Inr b), s')"
  | (body) e where "r = Inl (Wrapped (''blobstore: read object '' @ ObjectKey L i) (OtherError e))"
      "GetObject (client S) x s (bucket S) (ObjectKey L i) = (Inr (Inl e), s')"
  | (err) e where
      "r = Inl (if no_such_key e then ErrBlobNotFound
                else Wrapped (''blobstore: get object '' @ ObjectKey L i) (AwsError e))"
      "GetObject (client S) x s (bucket S) (ObjectKey L i) = (Inl e, s')"
  using assms unfolding Store_Get_def Let_def
  by (auto split: prod.splits sum.splits if_splits)

lemma Store_DeleteE:
  assumes "Store_Delete L S x s i = (r, s')"
  obtains (ok) u where "r = Inr ()"
      "DeleteObject (client S) x s (bucket S) (ObjectKey L i) = (Inr u, s')"
  | (err) e where "r = Inl (Wrapped (''blobstore: delete object '' @ ObjectKey L i) (AwsError e))"
      "DeleteObject (client S) x s (bucket S) (ObjectKey L i) = (Inl e, s')"
  using assms unfolding Store_Delete_def Let_def
  by (auto split: prod.splits sum.splits)

text \<open>The store when S3 answers.\<close>

lemma Store_Delete_answered:
  assumes "s3_answers (client S) x"
  shows "\<exists>s'. Store_Delete L S x s i = (Inr (), s')"
proof -
  obtain r s' where r: "DeleteObject (client S) x s (bucket S) (ObjectKey L i) = (r, s')" by fastforce
  with assms have "\<not> isl r" unfolding s3_answers_def by (metis fst_conv)
  with r show ?thesis by (cases r) (simp_all add: Store_Delete_def Let_def)
qed

lemma Store_Get_answered:
  assumes "s3_answers (client S) x" and "store_content (L, S) s i = Some b"
  shows "fst (Store_Get L S x s i) = Inr b"
proof -
  from assms have "fst (GetObject (client S) x s (bucket S) (ObjectKey L i)) = Inr (Inr b)"
    by (auto simp: s3_answers_def store_content_def)
  then show ?thesis by (auto simp: Store_Get_def Let_def split: prod.splits)
qed

section \<open>The store meets the BlobStore contract\<close>

lemma Store_put_ok:
  assumes "store_ok (L, S)" and "Store_Put L S x s i b ct = (Inr u, s')"
  shows "store_content (L, S) s i = None \<and>
         store_content (L, S) s' = (store_content (L, S) s)(i \<mapsto> b)"
  using assms(2)
proof (cases rule: Store_PutE)
  case (ok u)
  with assms(1) s3_putD(1) [OF _ ok(2)] show ?thesis
    by (auto simp: store_ok_def intro!: store_content_set) (simp add: store_content_def)
qed simp

lemma Store_put_err:
  assumes "store_ok (L, S)" and "Store_Put L S x s i b ct = (Inl e, s')"
  shows "store_content (L, S) s' = store_content (L, S) s \<or>
         store_content (L, S) s i = None \<and>
         store_content (L, S) s' = (store_content (L, S) s)(i \<mapsto> b)"
  using assms(2)
proof (cases rule: Store_PutE)
  case (err a)
  from assms(1) s3_putD(2) [OF _ err(2)]
  consider "Objects (client S) s' = Objects (client S) s"
    | "Objects (client S) s (bucket S) (ObjectKey L i) = None"
      "Objects (client S) s' = set_object (Objects (client S) s) (bucket S) (ObjectKey L i) (Some b)"
    by (auto simp: store_ok_def)
  then show ?thesis
    using assms(1) store_content_set [of L S s' s i "Some b"] store_content_same [of S s' s L]
    by cases (auto simp: store_ok_def store_content_def [of _ s i])
qed simp

lemma Store_put_exists:
  assumes "store_ok (L, S)" and "Store_Put L S x s i b ct = (Inl e, s')"
    and "errors_Is e ErrBlobAlreadyExists"
  shows "store_content (L, S) s' i \<noteq> None"
  using assms(2)
proof (cases rule: Store_PutE)
  case (err a)
  with assms(1,3) s3_putD(3) [OF _ err(2)] show ?thesis
    by (auto simp: store_ok_def store_content_def split: if_splits)
qed simp

interpretation s3_store: blob_store store_ok Store_iface store_content
proof (unfold_locales, goal_cases)
  case (1 c x s i b ct u s')
  then show ?case by (cases c) (simp add: iface_simps Store_put_ok)
next
  case (2 c x s i b ct e s')
  then show ?case by (cases c) (simp only: iface_simps Store_put_err)
next
  case (3 c x s i b ct e s')
  then show ?case by (cases c) (auto simp: iface_simps dest: Store_put_exists)
next
  case (4 c x s i b ct e s')
  then show ?case by (cases c) (auto simp: iface_simps elim!: Store_PutE split: if_splits)
next
  case (5 c x s i b s')
  then show ?case
    by (cases c) (auto simp: iface_simps store_ok_def store_content_def
        elim!: Store_GetE dest: s3_getD(2) split: if_splits)
next
  case (6 c x s i e s')
  then show ?case
    by (cases c) (auto simp: iface_simps store_ok_def store_content_def
        elim!: Store_GetE dest: s3_getD(3) split: if_splits)
next
  case (7 c x s i e s')
  then show ?case by (cases c) (auto simp: iface_simps elim!: Store_GetE split: if_splits)
next
  case (8 c x s i r s')
  then show ?case
    by (cases c) (auto simp: iface_simps store_ok_def intro!: store_content_same
        elim!: Store_GetE dest: s3_getD(1))
next
  case (9 c x s i u s')
  then show ?case
    by (cases c) (auto simp: iface_simps store_ok_def intro!: store_content_set
        elim!: Store_DeleteE dest: s3_deleteD(1))
next
  case (10 c x s i e s')
  then show ?case
    by (cases c) (auto simp: iface_simps store_ok_def
        elim!: Store_DeleteE dest!: s3_deleteD(2) intro: store_content_set store_content_same)
qed

end
