(* ===== verification/Pg_Database.thy ===== *)
theory Pg_Database
  imports Media_Domain
begin

text \<open>
  The database as the repositories see it: the two tables of the schema
  (\<^verbatim>\<open>migrations/\<close>), and one statement run through the \<open>Querier\<close> of
  \<^verbatim>\<open>internal/repository/postgres/querier.go\<close>. A statement is a function on the tables that
  either fails, leaving them as they are, or succeeds with a result. What PostgreSQL, the
  network and other sessions add is an argument, held in the state: the clock \<open>db_now\<close>, the
  rows other sessions have locked, how a timestamp comes back from a \<open>timestamptz\<close> column
  (\<open>ts_codec\<close>), which strings a \<open>text\<close> column accepts (\<open>text_ok\<close>: PostgreSQL refuses bytes that
  are not valid in the database encoding), and for each statement still to be run whether it is lost before or after it
  takes effect (\<open>db_faults\<close>; an exhausted list means no fault).
\<close>

section \<open>Tables\<close>

datatype task_status = Pending | Processing | Completed

text \<open>A row of \<open>media_blob_deletion_tasks\<close>; \<open>attempt_count\<close> is an INTEGER, at most \<open>2^31 - 1\<close>.\<close>

record task_row =
  media_id :: uuid
  task_user_id :: uuid
  status :: task_status
  attempt_count :: nat
  next_attempt_at :: timestamp
  lease_until :: "timestamp option"
  last_error :: "string option"
  task_created_at :: timestamp
  task_updated_at :: timestamp

datatype db_fault = NoFault | LostBefore string | LostAfter string

record db =
  media_tbl :: "Media list"
  task_tbl :: "task_row list"
  db_now :: timestamp
  db_locked :: "uuid list"
  db_faults :: "db_fault list"
  ts_codec :: "timestamp \<Rightarrow> timestamp"
  text_ok :: "string \<Rightarrow> bool"

section \<open>Running a statement\<close>

definition settle :: "db \<Rightarrow> error + 'a \<times> db \<Rightarrow> (error + 'a) \<times> db" where
  "settle d r = (case r of Inl e \<Rightarrow> (Inl e, d) | Inr (a, d') \<Rightarrow> (Inr a, d'))"

definition run_stmt :: "db \<Rightarrow> (db \<Rightarrow> error + 'a \<times> db) \<Rightarrow> (error + 'a) \<times> db" where
  "run_stmt d stmt =
     (case db_faults d of
        [] \<Rightarrow> settle d (stmt d)
      | f # fs \<Rightarrow>
          (let d1 = d\<lparr>db_faults := fs\<rparr> in
           case f of
             NoFault \<Rightarrow> settle d1 (stmt d1)
           | LostBefore msg \<Rightarrow> (Inl (DbError msg), d1)
           | LostAfter msg \<Rightarrow> (Inl (DbError msg), snd (settle d1 (stmt d1)))))"

text \<open>\<open>collect\<close>: the loop \<^verbatim>\<open>for rows.Next() { rows.Scan(...); items = append(items, ...) }\<close>.\<close>

fun collect :: "'a list \<Rightarrow> 'a list \<Rightarrow> 'a list" where
  "collect items [] = items"
| "collect items (r # rs) = collect (items @ [r]) rs"

lemma collect_eq [simp]: "collect items rs = items @ rs"
  by (induction rs arbitrary: items) auto

section \<open>Enqueueing a blob deletion\<close>

text \<open>
  The second half of the three delete statements: insert a task with the column defaults,
  and on a conflict set \<open>status\<close>, \<open>next_attempt_at\<close> and \<open>updated_at\<close> of the one that is there.
\<close>

definition new_task :: "db \<Rightarrow> uuid \<Rightarrow> uuid \<Rightarrow> task_row" where
  "new_task d userID i =
     \<lparr> media_id = i, task_user_id = userID, status = Pending, attempt_count = 0,
       next_attempt_at = db_now d, lease_until = None, last_error = None,
       task_created_at = db_now d, task_updated_at = db_now d \<rparr>"

definition requeue :: "db \<Rightarrow> task_row \<Rightarrow> task_row" where
  "requeue d t = t\<lparr>status := Pending, next_attempt_at := db_now d, task_updated_at := db_now d\<rparr>"

definition update_task :: "uuid \<Rightarrow> (task_row \<Rightarrow> task_row) \<Rightarrow> task_row list \<Rightarrow> task_row list" where
  "update_task i f ts = map (\<lambda>t. if media_id t = i then f t else t) ts"

definition enqueue :: "uuid \<Rightarrow> uuid \<Rightarrow> db \<Rightarrow> db" where
  "enqueue userID i d =
     (if lookup_by media_id (task_tbl d) i = None
      then d\<lparr>task_tbl := task_tbl d @ [new_task d userID i]\<rparr>
      else d\<lparr>task_tbl := update_task i (requeue d) (task_tbl d)\<rparr>)"

text \<open>
  \<^verbatim>\<open>WITH deleted AS (DELETE FROM media WHERE ... RETURNING id) INSERT INTO
  media_blob_deletion_tasks ... SELECT id,$2 FROM deleted ON CONFLICT ... RETURNING media_id\<close>.
\<close>

definition delete_and_enqueue :: "uuid \<Rightarrow> (Media \<Rightarrow> bool) \<Rightarrow> db \<Rightarrow> error + uuid list \<times> db" where
  "delete_and_enqueue userID P d =
     (let deleted = map ID (filter P (media_tbl d));
          d1 = d\<lparr>media_tbl := filter (\<lambda>m. \<not> P m) (media_tbl d)\<rparr>
      in Inr (deleted, fold (enqueue userID) deleted d1))"

section \<open>Well-formed tables and what they hold\<close>

definition db_inv :: "db \<Rightarrow> bool" where
  "db_inv d \<longleftrightarrow>
     keyed ID (media_tbl d) \<and> keyed media_id (task_tbl d) \<and>
     (\<forall>t \<in> set (task_tbl d). attempt_count t < 2 ^ 31 \<and>
        (status t = Processing \<longrightarrow> lease_until t \<noteq> None))"

definition media_rows :: "db \<Rightarrow> uuid \<rightharpoonup> Media" where
  "media_rows d = lookup_by ID (media_tbl d)"

definition task_ids :: "db \<Rightarrow> uuid set" where
  "task_ids d = media_id ` set (task_tbl d)"

definition live_ids :: "db \<Rightarrow> uuid set" where
  "live_ids d = media_id ` {t \<in> set (task_tbl d). status t \<noteq> Completed}"

section \<open>Lemmas\<close>

lemma run_stmt_cases:
  assumes "run_stmt d stmt = (r, d')"
  obtains (ok) fs a where "stmt (d\<lparr>db_faults := fs\<rparr>) = Inr (a, d')" "r = Inr a"
  | (err) fs e where "stmt (d\<lparr>db_faults := fs\<rparr>) = Inl e" "r = Inl e" "d' = d\<lparr>db_faults := fs\<rparr>"
  | (before) fs msg where "r = Inl (DbError msg)" "d' = d\<lparr>db_faults := fs\<rparr>"
  | (after) fs a msg where "stmt (d\<lparr>db_faults := fs\<rparr>) = Inr (a, d')" "r = Inl (DbError msg)"
proof (cases "db_faults d")
  case Nil
  then have d: "d\<lparr>db_faults := []\<rparr> = d" by (cases d) simp
  from assms Nil have "settle d (stmt d) = (r, d')" by (simp add: run_stmt_def)
  then show ?thesis
    using ok [of "[]"] err [of "[]"] d
    by (auto simp: settle_def split: sum.splits)
next
  case (Cons f fs)
  let ?d = "d\<lparr>db_faults := fs\<rparr>"
  show ?thesis
  proof (cases f)
    case NoFault
    with assms Cons have "settle ?d (stmt ?d) = (r, d')" by (simp add: run_stmt_def Let_def)
    then show ?thesis using ok [of fs] err [of fs]
      by (auto simp: settle_def split: sum.splits)
  next
    case (LostBefore msg)
    with assms Cons show ?thesis using before [of msg fs] by (simp add: run_stmt_def Let_def)
  next
    case (LostAfter msg)
    with assms Cons show ?thesis using before [of msg fs] after [of fs]
      by (auto simp: run_stmt_def Let_def settle_def split: sum.splits)
  qed
qed

lemma run_stmt_no_fault: "db_faults d = [] \<Longrightarrow> run_stmt d stmt = settle d (stmt d)"
  by (simp add: run_stmt_def)

text \<open>Unless the reply to the next statement is lost after it ran, a reported failure changed nothing.\<close>

definition no_lost_reply :: "db \<Rightarrow> bool" where
  "no_lost_reply d \<longleftrightarrow> (\<forall>msg fs. db_faults d \<noteq> LostAfter msg # fs)"

lemma run_stmt_failed:
  assumes "no_lost_reply d" and "run_stmt d stmt = (Inl e, d')"
  obtains fs where "d' = d\<lparr>db_faults := fs\<rparr>"
proof (cases "db_faults d")
  case Nil
  with assms(2) have "d' = d\<lparr>db_faults := []\<rparr>"
    by (cases d) (auto simp: run_stmt_def settle_def split: sum.splits)
  then show thesis by (rule that)
next
  case (Cons f fs)
  with assms show thesis
    by (intro that [of fs])
      (auto simp: run_stmt_def settle_def Let_def no_lost_reply_def split: sum.splits db_fault.splits)
qed

lemma faults_frame [simp]:
  "db_inv (d\<lparr>db_faults := fs\<rparr>) = db_inv d"
  "media_rows (d\<lparr>db_faults := fs\<rparr>) = media_rows d"
  "task_ids (d\<lparr>db_faults := fs\<rparr>) = task_ids d"
  "live_ids (d\<lparr>db_faults := fs\<rparr>) = live_ids d"
  by (simp_all add: db_inv_def media_rows_def task_ids_def live_ids_def)

lemma new_task_sel [simp]:
  "media_id (new_task d u i) = i" "status (new_task d u i) = Pending"
  "attempt_count (new_task d u i) = 0"
  by (simp_all add: new_task_def)

lemma requeue_sel [simp]:
  "media_id (requeue d t) = media_id t" "status (requeue d t) = Pending"
  "attempt_count (requeue d t) = attempt_count t"
  by (simp_all add: requeue_def)

lemma media_id_update_task:
  "(\<And>t. media_id (f t) = media_id t) \<Longrightarrow> map media_id (update_task i f ts) = map media_id ts"
  by (induction ts) (auto simp: update_task_def)

lemma keyed_update_task:
  "(\<And>t. media_id (f t) = media_id t) \<Longrightarrow> keyed media_id (update_task i f ts) = keyed media_id ts"
  by (simp add: keyed_def media_id_update_task)

lemma ids_update_task:
  assumes "\<And>t. media_id (f t) = media_id t"
  shows "media_id ` set (update_task i f ts) = media_id ` set ts"
  using arg_cong [OF media_id_update_task [of f i ts, OF assms], of set] by simp

lemma set_update_task:
  "set (update_task i f ts) = (\<lambda>t. if media_id t = i then f t else t) ` set ts"
  by (simp add: update_task_def)

lemma enqueue_frame [simp]:
  "media_tbl (enqueue u i d) = media_tbl d" "db_now (enqueue u i d) = db_now d"
  "db_locked (enqueue u i d) = db_locked d" "db_faults (enqueue u i d) = db_faults d"
  "ts_codec (enqueue u i d) = ts_codec d" "text_ok (enqueue u i d) = text_ok d"
  by (simp_all add: enqueue_def)

lemma enqueue_tasks [simp]: "task_ids (enqueue u i d) = insert i (task_ids d)"
proof (cases "lookup_by media_id (task_tbl d) i = None")
  case False
  then have "i \<in> task_ids d" by (simp add: task_ids_def lookup_by_None_iff)
  with False show ?thesis
    by (simp add: enqueue_def task_ids_def ids_update_task insert_absorb)
qed (simp add: enqueue_def task_ids_def)

lemma live_idsI: "t \<in> set (task_tbl d) \<Longrightarrow> status t \<noteq> Completed \<Longrightarrow> media_id t \<in> live_ids d"
  by (simp add: live_ids_def)

lemma enqueue_live [simp]: "live_ids (enqueue u i d) = insert i (live_ids d)"
proof (cases "lookup_by media_id (task_tbl d) i = None")
  case True
  then show ?thesis
    by (simp add: enqueue_def live_ids_def conj_disj_distribR Collect_disj_eq Collect_conv_if)
next
  case False
  then obtain t where t: "t \<in> set (task_tbl d)" "media_id t = i"
    by (auto simp: lookup_by_None_iff)
  show ?thesis
  proof (intro equalityI subsetI)
    fix j assume "j \<in> live_ids (enqueue u i d)"
    with False show "j \<in> insert i (live_ids d)"
      by (auto simp: enqueue_def live_ids_def set_update_task split: if_splits)
  next
    fix j assume "j \<in> insert i (live_ids d)"
    then consider "j = i" | s where "s \<in> set (task_tbl d)" "status s \<noteq> Completed" "media_id s = j" "j \<noteq> i"
      by (auto simp: live_ids_def)
    then show "j \<in> live_ids (enqueue u i d)"
    proof cases
      case 1
      with False t have "requeue d t \<in> set (task_tbl (enqueue u i d))"
        by (auto simp: enqueue_def set_update_task image_iff intro!: bexI [of _ t])
      then show ?thesis using 1 t live_idsI [of "requeue d t"] by simp
    next
      case 2
      with False have "s \<in> set (task_tbl (enqueue u i d))"
        by (auto simp: enqueue_def set_update_task image_iff intro!: bexI [of _ s])
      then show ?thesis using 2 live_idsI [of s] by simp
    qed
  qed
qed

lemma enqueue_inv [simp]: "db_inv d \<Longrightarrow> db_inv (enqueue u i d)"
  by (auto simp: enqueue_def db_inv_def keyed_update_task set_update_task)

lemma fold_enqueue_frame [simp]:
  "media_tbl (fold (enqueue u) ids d) = media_tbl d"
  "db_now (fold (enqueue u) ids d) = db_now d"
  "db_locked (fold (enqueue u) ids d) = db_locked d"
  "db_faults (fold (enqueue u) ids d) = db_faults d"
  by (induction ids arbitrary: d) auto

lemma fold_enqueue_tasks [simp]:
  "task_ids (fold (enqueue u) ids d) = task_ids d \<union> set ids"
  "live_ids (fold (enqueue u) ids d) = live_ids d \<union> set ids"
  by (induction ids arbitrary: d) auto

lemma fold_enqueue_inv [simp]: "db_inv d \<Longrightarrow> db_inv (fold (enqueue u) ids d)"
  by (induction ids arbitrary: d) auto

end
