(* ===== verification/Media_Table.thy ===== *)
theory Media_Table
  imports Metadata_Store Pg_Database
begin

text \<open>
  The metadata repository (\<^verbatim>\<open>internal/repository/postgres/media_repository.go\<close>): its six
  statements as functions on the tables, its six methods with their error mapping, and the
  proof that they meet the contract of the metadata port for every clock, every row order
  and every pattern of lost statements.
\<close>

section \<open>Statements\<close>

definition pgUniqueViolation :: string where
  "pgUniqueViolation = ''23505''"

text \<open>
  The \<open>INSERT\<close>: the encoding of the text values, the CHECK constraints of the table, then its primary key. The columns get
  the entity's values, timestamps in the column's precision, \<open>deleted_at\<close> stays NULL.
\<close>

definition stored_row :: "db \<Rightarrow> Media \<Rightarrow> Media" where
  "stored_row d m =
     m\<lparr>CreatedAt := ts_codec d (CreatedAt m), UpdatedAt := ts_codec d (UpdatedAt m),
       DeletedAt := None\<rparr>"

definition insert_media :: "Media \<Rightarrow> db \<Rightarrow> error + unit \<times> db" where
  "insert_media m d =
     (if \<not> text_ok d (OriginalFilename m) \<or> \<not> text_ok d (ContentType m)
      then Inl (PgError ''22021'' ''invalid byte sequence for encoding UTF8'')
      else if SizeBytes m < 0 \<or> Status m \<noteq> StatusAvailable
      then Inl (PgError ''23514'' ''new row for relation media violates check constraint'')
      else if lookup_by ID (media_tbl d) (ID m) \<noteq> None
      then Inl (PgError pgUniqueViolation ''duplicate key value violates unique constraint'')
      else Inr ((), d\<lparr>media_tbl := media_tbl d @ [stored_row d m]\<rparr>))"

text \<open>\<open>QueryRow(...).Scan\<close> takes the first row, and fails with \<open>ErrNoRows\<close> if there is none.\<close>

definition select_media :: "(Media \<Rightarrow> bool) \<Rightarrow> db \<Rightarrow> error + Media list \<times> db" where
  "select_media P d = Inr (filter P (media_tbl d), d)"

definition select_media_row :: "(Media \<Rightarrow> bool) \<Rightarrow> db \<Rightarrow> error + Media \<times> db" where
  "select_media_row P d =
     (case filter P (media_tbl d) of [] \<Rightarrow> Inl ErrNoRows | m # _ \<Rightarrow> Inr (m, d))"

section \<open>The repository\<close>

text \<open>
  The columns have the types of the fields they are scanned into, so \<open>Scan\<close> does not fail on
  a row that was sent; a connection lost while the rows are read is reported by
  \<^verbatim>\<open>rows.Err()\<close>, which the source wraps exactly as a failed \<open>Query\<close>.
\<close>

definition MediaRepository_Create :: "ctx \<Rightarrow> db \<Rightarrow> Media \<Rightarrow> (error + unit) \<times> db" where
  "MediaRepository_Create x d m =
     (case run_stmt d (insert_media m) of
        (Inl err, d') \<Rightarrow>
          if errors_As_PgError err = Some pgUniqueViolation then (Inl ErrIDConflict, d')
          else (Inl (Wrapped ''postgres: create media'' err), d')
      | (Inr _, d') \<Rightarrow> (Inr (), d'))"

definition MediaRepository_GetByID :: "ctx \<Rightarrow> db \<Rightarrow> uuid \<Rightarrow> uuid \<Rightarrow> (error + Media) \<times> db" where
  "MediaRepository_GetByID x d userID mediaID =
     (case run_stmt d (select_media_row
             (\<lambda>m. ID m = mediaID \<and> UserID m = userID \<and> DeletedAt m = None)) of
        (Inl err, d') \<Rightarrow>
          if errors_Is err ErrNoRows then (Inl ErrNotFound, d')
          else (Inl (Wrapped ''postgres: get media'' err), d')
      | (Inr m, d') \<Rightarrow> (Inr m, d'))"

definition MediaRepository_ListByIDs ::
    "ctx \<Rightarrow> db \<Rightarrow> uuid \<Rightarrow> uuid list \<Rightarrow> (error + Media list) \<times> db" where
  "MediaRepository_ListByIDs x d userID ids =
     (if length ids = 0 then (Inr [], d)
      else case run_stmt d (select_media
             (\<lambda>m. UserID m = userID \<and> ID m \<in> set ids \<and> DeletedAt m = None)) of
        (Inl err, d') \<Rightarrow> (Inl (Wrapped ''postgres: list media by ids'' err), d')
      | (Inr rows, d') \<Rightarrow> (Inr (collect [] rows), d'))"

definition MediaRepository_Delete :: "ctx \<Rightarrow> db \<Rightarrow> uuid \<Rightarrow> uuid \<Rightarrow> (error + unit) \<times> db" where
  "MediaRepository_Delete x d userID mediaID =
     (case run_stmt d (delete_and_enqueue userID (\<lambda>m. ID m = mediaID \<and> UserID m = userID)) of
        (Inl err, d') \<Rightarrow> (Inl (Wrapped ''postgres: delete media'' err), d')
      | (Inr tag, d') \<Rightarrow> if length tag = 0 then (Inl ErrNotFound, d') else (Inr (), d'))"

definition MediaRepository_DeleteByIDs ::
    "ctx \<Rightarrow> db \<Rightarrow> uuid \<Rightarrow> uuid list \<Rightarrow> (error + uuid list) \<times> db" where
  "MediaRepository_DeleteByIDs x d userID ids =
     (if length ids = 0 then (Inr [], d)
      else case run_stmt d (delete_and_enqueue userID (\<lambda>m. ID m \<in> set ids \<and> UserID m = userID)) of
        (Inl err, d') \<Rightarrow> (Inl (Wrapped ''postgres: delete media by ids'' err), d')
      | (Inr rows, d') \<Rightarrow> (Inr (collect [] rows), d'))"

definition MediaRepository_DeleteAllByUser ::
    "ctx \<Rightarrow> db \<Rightarrow> uuid \<Rightarrow> (error + uuid list) \<times> db" where
  "MediaRepository_DeleteAllByUser x d userID =
     (case run_stmt d (delete_and_enqueue userID (\<lambda>m. UserID m = userID)) of
        (Inl err, d') \<Rightarrow> (Inl (Wrapped ''postgres: delete all media by user'' err), d')
      | (Inr rows, d') \<Rightarrow> (Inr (collect [] rows), d'))"

lemmas media_table_defs =
  MediaRepository_Create_def MediaRepository_GetByID_def MediaRepository_ListByIDs_def
  MediaRepository_Delete_def MediaRepository_DeleteByIDs_def MediaRepository_DeleteAllByUser_def

definition MediaRepository_iface :: "db metadataStore" where
  "MediaRepository_iface =
     \<lparr> ms_Create = MediaRepository_Create,
       ms_GetByID = MediaRepository_GetByID,
       ms_ListByIDs = MediaRepository_ListByIDs,
       ms_Delete = MediaRepository_Delete,
       ms_DeleteByIDs = MediaRepository_DeleteByIDs,
       ms_DeleteAllByUser = MediaRepository_DeleteAllByUser \<rparr>"

lemma MediaRepository_iface_sel [iface_simps]:
  "ms_Create MediaRepository_iface = MediaRepository_Create"
  "ms_GetByID MediaRepository_iface = MediaRepository_GetByID"
  "ms_ListByIDs MediaRepository_iface = MediaRepository_ListByIDs"
  "ms_Delete MediaRepository_iface = MediaRepository_Delete"
  "ms_DeleteByIDs MediaRepository_iface = MediaRepository_DeleteByIDs"
  "ms_DeleteAllByUser MediaRepository_iface = MediaRepository_DeleteAllByUser"
  by (simp_all add: MediaRepository_iface_def)

section \<open>Lemmas on the statements\<close>

lemma insert_media_ok:
  assumes "db_inv d" and "insert_media m d = Inr (a, d')"
  shows "inserted (media_rows d) m (media_rows d') \<and> db_inv d' \<and>
         task_ids d' = task_ids d \<and> live_ids d' = live_ids d"
  using assms
  by (auto simp: insert_media_def inserted_def same_file_def stored_row_def media_rows_def db_inv_def
      task_ids_def live_ids_def lookup_by_append fun_eq_iff
      intro!: exI [of _ "stored_row d m"] split: if_splits option.splits)

lemma insert_media_err:
  assumes "insert_media m d = Inl e"
  shows "(\<exists>code msg. e = PgError code msg) \<and>
         (errors_As_PgError e = Some pgUniqueViolation \<longrightarrow> media_rows d (ID m) \<noteq> None)"
  using assms
  by (auto simp: insert_media_def media_rows_def pgUniqueViolation_def split: if_splits)

lemma select_media_row_ok:
  assumes "select_media_row P d = Inr (m, d')"
  shows "d' = d \<and> m \<in> set (media_tbl d) \<and> P m"
proof -
  from assms have "d' = d" and "\<exists>ms. filter P (media_tbl d) = m # ms"
    by (auto simp: select_media_row_def split: list.splits)
  then show ?thesis by (auto dest!: filter_eq_ConsD)
qed

lemma select_media_row_err:
  assumes "select_media_row P d = Inl e"
  shows "e = ErrNoRows \<and> (\<forall>m \<in> set (media_tbl d). \<not> P m)"
  using assms by (auto simp: select_media_row_def filter_empty_conv split: list.splits)

lemma media_rows_Some: "db_inv d \<Longrightarrow> media_rows d i = Some m \<longleftrightarrow> m \<in> set (media_tbl d) \<and> ID m = i"
  by (simp add: media_rows_def db_inv_def lookup_by_Some_iff)

lemma delete_and_enqueue_ok:
  assumes "db_inv d" and "delete_and_enqueue u P d = Inr (del, d')"
  shows "distinct del \<and> set del = {i. \<exists>m. media_rows d i = Some m \<and> P m} \<and>
         media_rows d' = removed (media_rows d) (set del) \<and>
         task_ids d' = task_ids d \<union> set del \<and> live_ids d' = live_ids d \<union> set del \<and> db_inv d'"
proof -
  let ?d1 = "d\<lparr>media_tbl := filter (\<lambda>m. \<not> P m) (media_tbl d)\<rparr>"
  from assms(2) have del: "del = map ID (filter P (media_tbl d))"
    and d': "d' = fold (enqueue u) del ?d1"
    by (auto simp: delete_and_enqueue_def Let_def)
  from assms(1) have k: "keyed ID (media_tbl d)" by (simp add: db_inv_def)
  have dist: "distinct del" unfolding del using k by (simp add: keyed_def distinct_map_filter)
  have set_del: "set del = {i. \<exists>m. media_rows d i = Some m \<and> P m}"
    unfolding del using assms(1) by (auto simp: media_rows_Some)
  have rows: "media_rows d' = removed (media_rows d) (set del)"
    unfolding set_del using k d'
    by (auto simp: media_rows_def removed_def lookup_by_filter fun_eq_iff split: option.splits)
  have "db_inv ?d1" using assms(1) by (auto simp: db_inv_def)
  then show ?thesis using dist set_del rows d'
    by (simp add: task_ids_def live_ids_def fold_enqueue_tasks [unfolded task_ids_def live_ids_def])
qed

lemma delete_and_enqueue_total: "\<exists>del d'. delete_and_enqueue u P d = Inr (del, d')"
  by (simp add: delete_and_enqueue_def Let_def)

text \<open>
  The three deletes are one statement: whatever the outcome, either nothing happened or the
  selected rows are gone and their deletion tasks are in the queue.
\<close>

definition purged :: "db \<Rightarrow> uuid set \<Rightarrow> db \<Rightarrow> bool" where
  "purged d D d' \<longleftrightarrow> media_rows d' = removed (media_rows d) D \<and>
     task_ids d' = task_ids d \<union> D \<and> live_ids d' = live_ids d \<union> D"

lemma run_delete:
  assumes "db_inv d" and "run_stmt d (delete_and_enqueue u P) = (r, d')"
    and "D = {i. \<exists>m. media_rows d i = Some m \<and> P m}"
  shows "db_inv d' \<and> (purged d {} d' \<or> purged d D d') \<and>
         (\<forall>del. r = Inr del \<longrightarrow> distinct del \<and> set del = D \<and> purged d D d')"
  using assms(2)
proof (cases rule: run_stmt_cases)
  case (ok fs a)
  with assms(1,3) delete_and_enqueue_ok [OF _ ok(1)] show ?thesis by (simp add: purged_def)
next
  case (err fs e)
  then show ?thesis by (simp add: delete_and_enqueue_def Let_def)
next
  case (before fs msg)
  with assms(1) show ?thesis by (simp add: purged_def)
next
  case (after fs a msg)
  with assms(1,3) delete_and_enqueue_ok [OF _ after(1)] show ?thesis by (simp add: purged_def)
qed

lemma GetByID_exact:
  assumes "db_inv d" and "db_faults d = []"
  shows "MediaRepository_GetByID x d u i =
           (case media_rows d i of
              None \<Rightarrow> (Inl ErrNotFound, d)
            | Some m \<Rightarrow> if UserID m = u \<and> DeletedAt m = None then (Inr m, d) else (Inl ErrNotFound, d))"
proof -
  let ?P = "\<lambda>m. ID m = i \<and> UserID m = u \<and> DeletedAt m = None"
  have run: "run_stmt d (select_media_row ?P) = settle d (select_media_row ?P d)"
    using assms(2) by (rule run_stmt_no_fault)
  show ?thesis
  proof (cases "select_media_row ?P d")
    case (Inl e)
    from select_media_row_err [OF Inl] media_rows_Some [OF assms(1), of i]
    have e: "e = ErrNoRows" and no: "\<forall>m. media_rows d i = Some m \<longrightarrow> \<not> (UserID m = u \<and> DeletedAt m = None)"
      by blast+
    have "MediaRepository_GetByID x d u i = (Inl ErrNotFound, d)"
      using Inl run e by (simp add: MediaRepository_GetByID_def settle_def)
    with no show ?thesis by (auto split: option.splits)
  next
    case (Inr r)
    then obtain m d' where r: "select_media_row ?P d = Inr (m, d')" by (cases r) auto
    from select_media_row_ok [OF r] media_rows_Some [OF assms(1), of i m]
    have "d' = d" "media_rows d i = Some m" "UserID m = u" "DeletedAt m = None" by auto
    with r run show ?thesis by (simp add: MediaRepository_GetByID_def settle_def)
  qed
qed

lemma Create_failed:
  assumes "no_lost_reply d" and "MediaRepository_Create x d m = (Inl e, d')"
  shows "media_rows d' = media_rows d"
proof -
  from assms(2) obtain err where "run_stmt d (insert_media m) = (Inl err, d')"
    by (auto simp: MediaRepository_Create_def split: prod.splits sum.splits if_splits)
  with assms(1) show ?thesis by (rule run_stmt_failed) simp
qed

section \<open>The repository meets the metadata contract\<close>

lemma MediaRepository_Create_cases:
  assumes "db_inv d" and "MediaRepository_Create x d m = (r, d')"
  shows "db_inv d' \<and> task_ids d' = task_ids d \<and> live_ids d' = live_ids d"
    and "r = Inr a \<Longrightarrow> inserted (media_rows d) m (media_rows d')"
    and "media_rows d' = media_rows d \<or> inserted (media_rows d) m (media_rows d')"
    and "r = Inl e \<Longrightarrow> errors_Is e ErrIDConflict \<Longrightarrow>
         media_rows d (ID m) \<noteq> None \<and> media_rows d' = media_rows d"
proof -
  obtain q where q: "run_stmt d (insert_media m) = (q, d')" and
    r: "r = (case q of Inl err \<Rightarrow>
               Inl (if errors_As_PgError err = Some pgUniqueViolation then ErrIDConflict
                    else Wrapped ''postgres: create media'' err) | Inr _ \<Rightarrow> Inr ())"
    using assms(2) by (auto simp: MediaRepository_Create_def split: prod.splits sum.splits if_splits)
  from q have "db_inv d' \<and> task_ids d' = task_ids d \<and> live_ids d' = live_ids d \<and>
      (r = Inr a \<longrightarrow> inserted (media_rows d) m (media_rows d')) \<and>
      (media_rows d' = media_rows d \<or> inserted (media_rows d) m (media_rows d')) \<and>
      (r = Inl e \<longrightarrow> errors_Is e ErrIDConflict \<longrightarrow>
         media_rows d (ID m) \<noteq> None \<and> media_rows d' = media_rows d)"
  proof (cases rule: run_stmt_cases)
    case (ok fs b)
    with assms(1) r insert_media_ok [OF _ ok(1)] show ?thesis by auto
  next
    case (err fs b)
    with assms(1) r insert_media_err [OF err(1)] show ?thesis by auto
  next
    case (before fs msg)
    with assms(1) r show ?thesis by auto
  next
    case (after fs b msg)
    with assms(1) r insert_media_ok [OF _ after(1)] show ?thesis by auto
  qed
  then show "db_inv d' \<and> task_ids d' = task_ids d \<and> live_ids d' = live_ids d"
    and "r = Inr a \<Longrightarrow> inserted (media_rows d) m (media_rows d')"
    and "media_rows d' = media_rows d \<or> inserted (media_rows d) m (media_rows d')"
    and "r = Inl e \<Longrightarrow> errors_Is e ErrIDConflict \<Longrightarrow>
         media_rows d (ID m) \<noteq> None \<and> media_rows d' = media_rows d"
    by blast+
qed

text \<open>A read leaves the tables alone; only the script of faults moves on.\<close>

lemma run_select_frame:
  assumes "run_stmt d stmt = (r, d')" and "\<And>d a d'. stmt d = Inr (a, d') \<Longrightarrow> d' = d"
  shows "\<exists>fs. d' = d\<lparr>db_faults := fs\<rparr>"
  using assms(1) by (cases rule: run_stmt_cases) (auto dest!: assms(2))

lemma MediaRepository_GetByID_frame:
  assumes "MediaRepository_GetByID x d u i = (r, d')"
  shows "\<exists>fs. d' = d\<lparr>db_faults := fs\<rparr>"
  using assms run_select_frame [of d "select_media_row
      (\<lambda>m. ID m = i \<and> UserID m = u \<and> DeletedAt m = None)" _ d']
  by (auto simp: MediaRepository_GetByID_def dest: select_media_row_ok
      split: prod.splits sum.splits if_splits)

lemma MediaRepository_ListByIDs_frame:
  assumes "MediaRepository_ListByIDs x d u is = (r, d')"
  shows "\<exists>fs. d' = d\<lparr>db_faults := fs\<rparr>"
proof (cases "length is = 0")
  case True
  with assms have "d' = d\<lparr>db_faults := db_faults d\<rparr>"
    by (simp add: MediaRepository_ListByIDs_def)
  then show ?thesis by blast
next
  case False
  with assms run_select_frame [of d "select_media
      (\<lambda>m. UserID m = u \<and> ID m \<in> set is \<and> DeletedAt m = None)" _ d'] show ?thesis
    by (auto simp: MediaRepository_ListByIDs_def select_media_def split: prod.splits sum.splits)
qed

lemma MediaRepository_GetByID_ok:
  assumes "db_inv d" and "MediaRepository_GetByID x d u i = (Inr m, d')"
  shows "visible (media_rows d) u i m"
proof -
  from assms(2) have "run_stmt d (select_media_row
      (\<lambda>m. ID m = i \<and> UserID m = u \<and> DeletedAt m = None)) = (Inr m, d')"
    by (auto simp: MediaRepository_GetByID_def split: prod.splits sum.splits if_splits)
  then show ?thesis
    by (cases rule: run_stmt_cases)
      (use assms(1) in \<open>auto dest!: select_media_row_ok simp: visible_def media_rows_Some\<close>)
qed

lemma MediaRepository_GetByID_missing:
  assumes "db_inv d" and "MediaRepository_GetByID x d u i = (Inl e, d')" and "errors_Is e ErrNotFound"
  shows "\<not> visible (media_rows d) u i m"
proof -
  from assms(2) obtain q where q: "run_stmt d (select_media_row
      (\<lambda>m. ID m = i \<and> UserID m = u \<and> DeletedAt m = None)) = (Inl q, d')"
    and e: "e = (if errors_Is q ErrNoRows then ErrNotFound else Wrapped ''postgres: get media'' q)"
    by (auto simp: MediaRepository_GetByID_def split: prod.splits sum.splits if_splits)
  from q show ?thesis
    by (cases rule: run_stmt_cases)
      (use assms(1,3) e in \<open>auto dest!: select_media_row_err simp: visible_def media_rows_Some\<close>)
qed

lemma MediaRepository_ListByIDs_ok:
  assumes "db_inv d" and "MediaRepository_ListByIDs x d u is = (Inr ms, d')"
  shows "distinct (map ID ms) \<and>
         (\<forall>m. m \<in> set ms \<longleftrightarrow> ID m \<in> set is \<and> visible (media_rows d) u (ID m) m)"
proof (cases "length is = 0")
  case True
  with assms(2) show ?thesis by (auto simp: MediaRepository_ListByIDs_def)
next
  case False
  let ?P = "\<lambda>m. UserID m = u \<and> ID m \<in> set is \<and> DeletedAt m = None"
  from False assms(2) have "run_stmt d (select_media ?P) = (Inr ms, d')"
    by (auto simp: MediaRepository_ListByIDs_def split: prod.splits sum.splits)
  then have "ms = filter ?P (media_tbl d)"
    by (cases rule: run_stmt_cases) (auto simp: select_media_def)
  moreover from assms(1) have "distinct (map ID (filter ?P (media_tbl d)))"
    by (simp add: db_inv_def keyed_def distinct_map_filter)
  ultimately show ?thesis using assms(1) by (auto simp: visible_def media_rows_Some)
qed

lemma MediaRepository_Delete_cases:
  assumes "db_inv d" and "MediaRepository_Delete x d u i = (r, d')"
    and "D = {i} \<inter> owned_ids (media_rows d) u"
  shows "db_inv d' \<and> (purged d {} d' \<or> purged d D d') \<and>
         (\<forall>a. r = Inr a \<longrightarrow> D \<noteq> {} \<and> purged d D d') \<and>
         (\<forall>e. r = Inl e \<longrightarrow> errors_Is e ErrNotFound \<longrightarrow> D = {} \<and> purged d {} d')"
proof -
  let ?P = "\<lambda>m. ID m = i \<and> UserID m = u"
  have D: "D = {j. \<exists>m. media_rows d j = Some m \<and> ?P m}"
    unfolding assms(3) using assms(1) by (auto simp: owned_ids_def media_rows_Some)
  obtain q where q: "run_stmt d (delete_and_enqueue u ?P) = (q, d')"
    and r: "r = (case q of Inl err \<Rightarrow> Inl (Wrapped ''postgres: delete media'' err)
               | Inr tag \<Rightarrow> if length tag = 0 then Inl ErrNotFound else Inr ())"
    using assms(2) by (auto simp: MediaRepository_Delete_def split: prod.splits sum.splits if_splits)
  have "\<not> errors_Is err ErrNotFound" if "q = Inl err" for err
    using q that by (cases rule: run_stmt_cases) (auto simp: delete_and_enqueue_def Let_def)
  with run_delete [OF assms(1) q D] r show ?thesis
    by (cases q) (auto split: if_splits)
qed

lemma MediaRepository_DeleteByIDs_cases:
  assumes "db_inv d" and "MediaRepository_DeleteByIDs x d u is = (r, d')"
    and "D = set is \<inter> owned_ids (media_rows d) u"
  shows "db_inv d' \<and> (purged d {} d' \<or> purged d D d') \<and>
         (\<forall>del. r = Inr del \<longrightarrow> distinct del \<and> set del = D \<and> purged d D d')"
proof (cases "is = []")
  case True
  with assms show ?thesis by (auto simp: MediaRepository_DeleteByIDs_def purged_def)
next
  case False
  let ?P = "\<lambda>m. ID m \<in> set is \<and> UserID m = u"
  have D: "D = {i. \<exists>m. media_rows d i = Some m \<and> ?P m}"
    unfolding assms(3) using assms(1) by (auto simp: owned_ids_def media_rows_Some)
  from False assms(2) obtain q where q: "run_stmt d (delete_and_enqueue u ?P) = (q, d')"
    and r: "r = (case q of Inl err \<Rightarrow> Inl (Wrapped ''postgres: delete media by ids'' err) | Inr rs \<Rightarrow> Inr rs)"
    by (auto simp: MediaRepository_DeleteByIDs_def split: prod.splits sum.splits)
  show ?thesis using run_delete [OF assms(1) q D] r by (cases q) simp_all
qed

lemma MediaRepository_DeleteAllByUser_cases:
  assumes "db_inv d" and "MediaRepository_DeleteAllByUser x d u = (r, d')"
    and "D = owned_ids (media_rows d) u"
  shows "db_inv d' \<and> (purged d {} d' \<or> purged d D d') \<and>
         (\<forall>del. r = Inr del \<longrightarrow> distinct del \<and> set del = D \<and> purged d D d')"
proof -
  have D: "D = {i. \<exists>m. media_rows d i = Some m \<and> UserID m = u}"
    unfolding assms(3) owned_ids_def ..
  from assms(2) obtain q where q: "run_stmt d (delete_and_enqueue u (\<lambda>m. UserID m = u)) = (q, d')"
    and r: "r = (case q of Inl err \<Rightarrow> Inl (Wrapped ''postgres: delete all media by user'' err) | Inr rs \<Rightarrow> Inr rs)"
    by (auto simp: MediaRepository_DeleteAllByUser_def split: prod.splits sum.splits)
  show ?thesis using run_delete [OF assms(1) q D] r by (cases q) simp_all
qed

interpretation media_table: metadata_store db_inv media_rows task_ids live_ids MediaRepository_iface
proof (unfold_locales, unfold iface_simps, goal_cases)
  case (1 d x m a d')
  then show ?case using MediaRepository_Create_cases(2) by blast
next
  case (2 d x m e d')
  then show ?case using MediaRepository_Create_cases(3) by blast
next
  case (3 d x m e d')
  then show ?case using MediaRepository_Create_cases(4) by blast
next
  case (4 d x m r d')
  then show ?case using MediaRepository_Create_cases(1) by blast
next
  case (5 d x u i m d')
  then show ?case by (rule MediaRepository_GetByID_ok)
next
  case (6 d x u i e d' m)
  then show ?case by (rule MediaRepository_GetByID_missing)
next
  case (7 d x u i r d')
  then show ?case by (auto dest!: MediaRepository_GetByID_frame)
next
  case (8 d x u "is" ms d')
  then show ?case by (rule MediaRepository_ListByIDs_ok)
next
  case (9 d x u "is" r d')
  then show ?case by (auto dest!: MediaRepository_ListByIDs_frame)
next
  case (10 d x u i a d')
  with MediaRepository_Delete_cases [OF 10 refl] show ?case
    by (auto simp: purged_def)
next
  case (11 d x u i e d')
  with MediaRepository_Delete_cases [OF 11(1,2) refl] show ?case
    by (auto simp: purged_def)
next
  case (12 d x u i r d')
  with MediaRepository_Delete_cases [OF 12 refl] show ?case
    unfolding purged_def by (meson empty_subsetI order_refl)
next
  case (13 d x u "is" del d')
  with MediaRepository_DeleteByIDs_cases [OF 13 refl] show ?case
    by (simp add: purged_def)
next
  case (14 d x u "is" r d')
  with MediaRepository_DeleteByIDs_cases [OF 14 refl] show ?case
    by (auto simp: purged_def)
next
  case (15 d x u del d')
  with MediaRepository_DeleteAllByUser_cases [OF 15 refl] show ?case
    by (simp add: purged_def)
next
  case (16 d x u r d')
  with MediaRepository_DeleteAllByUser_cases [OF 16 refl] show ?case
    by (auto simp: purged_def)
qed

end
