(* ===== verification/Media_Repository.thy ===== *)
theory Media_Repository
  imports Metadata_Store Blob_Store Media_Table
begin

text \<open>
  The composite repository (\<^verbatim>\<open>internal/repository/media/repository.go\<close>): metadata rows in
  one store, file content in another, and the order of the two writes. The operations are
  defined over the two ports; the lemmas are proved once over the contracts of the two
  ports (\<open>blob_store\<close> and \<open>metadata_store\<close>) and hold for the S3 store and the PostgreSQL
  tables by interpretation.
\<close>

section \<open>State\<close>

record ('d, 's) Repository =
  metadata :: "'d metadataStore"
  legacy :: "'d legacyContentReader option"
  blobs :: "'s BlobStore"

record ('d, 's) world =
  meta_st :: 'd
  blob_st :: 's
  logs :: "(string \<times> uuid \<times> error) list"

section \<open>Operations\<close>

definition log_error :: "string \<Rightarrow> uuid \<Rightarrow> error \<Rightarrow> ('d, 's) world \<Rightarrow> ('d, 's) world" where
  "log_error msg i e w = w\<lparr>logs := logs w @ [(msg, i, e)]\<rparr>"

definition Repository_Create ::
    "('d, 's) Repository \<Rightarrow> ctx \<Rightarrow> ('d, 's) world \<Rightarrow> Media \<Rightarrow> bytes \<Rightarrow>
     (error + unit) \<times> ('d, 's) world" where
  "Repository_Create R x w m content =
     (case bs_Put (blobs R) x (blob_st w) (ID m) content (ContentType m) of
        (Inl err, s1) \<Rightarrow>
          let w1 = w\<lparr>blob_st := s1\<rparr> in
          if errors_Is err ErrBlobAlreadyExists then (Inl ErrIDConflict, w1)
          else (Inl (Wrapped ''media: upload blob'' err), w1)
      | (Inr _, s1) \<Rightarrow>
          (case ms_Create (metadata R) x (meta_st w) m of
             (Inl err, d1) \<Rightarrow>
               let w1 = w\<lparr>meta_st := d1, blob_st := s1\<rparr>;
                   w2 = (case bs_Delete (blobs R) (WithoutCancel x) (blob_st w1) (ID m) of
                           (Inl delErr, s2) \<Rightarrow>
                             log_error ''media: failed to clean up orphaned blob after metadata create failure''
                               (ID m) delErr (w1\<lparr>blob_st := s2\<rparr>)
                         | (Inr _, s2) \<Rightarrow> w1\<lparr>blob_st := s2\<rparr>)
               in if errors_Is err ErrIDConflict then (Inl ErrIDConflict, w2)
                  else (Inl (Wrapped ''media: create metadata'' err), w2)
           | (Inr _, d1) \<Rightarrow> (Inr (), w\<lparr>meta_st := d1, blob_st := s1\<rparr>)))"

definition Repository_GetByID ::
    "('d, 's) Repository \<Rightarrow> ctx \<Rightarrow> ('d, 's) world \<Rightarrow> uuid \<Rightarrow> uuid \<Rightarrow> (error + Media) \<times> ('d, 's) world" where
  "Repository_GetByID R x w userID mediaID =
     (case ms_GetByID (metadata R) x (meta_st w) userID mediaID of (r, d1) \<Rightarrow> (r, w\<lparr>meta_st := d1\<rparr>))"

text \<open>\<open>L\<close> prints the id in the message of the error that should be unreachable.\<close>

definition Repository_GetContent ::
    "uuid_lib \<Rightarrow> ('d, 's) Repository \<Rightarrow> ctx \<Rightarrow> ('d, 's) world \<Rightarrow> uuid \<Rightarrow> uuid \<Rightarrow>
     (error + Media \<times> bytes) \<times> ('d, 's) world" where
  "Repository_GetContent L R x w userID mediaID =
     (case ms_GetByID (metadata R) x (meta_st w) userID mediaID of
        (Inl err, d1) \<Rightarrow> (Inl err, w\<lparr>meta_st := d1\<rparr>)
      | (Inr m, d1) \<Rightarrow>
          (case bs_Get (blobs R) x (blob_st w) mediaID of
             (Inr content, s1) \<Rightarrow> (Inr (m, content), w\<lparr>meta_st := d1, blob_st := s1\<rparr>)
           | (Inl err, s1) \<Rightarrow>
               let w1 = w\<lparr>meta_st := d1, blob_st := s1\<rparr> in
               (case (errors_Is err ErrBlobNotFound, legacy R) of
                  (True, Some readLegacy) \<Rightarrow>
                    (case readLegacy x d1 mediaID of
                       (Inl legacyErr, d2) \<Rightarrow>
                         if errors_Is legacyErr ErrBlobNotFound
                         then (Inl (OtherError (''media: media '' @ uuid_String L mediaID @
                                 '' has no stored content in the blob store or the legacy table'')),
                               w1\<lparr>meta_st := d2\<rparr>)
                         else (Inl (Wrapped ''media: get legacy content'' legacyErr), w1\<lparr>meta_st := d2\<rparr>)
                     | (Inr legacyContent, d2) \<Rightarrow> (Inr (m, legacyContent), w1\<lparr>meta_st := d2\<rparr>))
                | _ \<Rightarrow> (Inl (Wrapped ''media: get content'' err), w1))))"

definition Repository_ListByIDs ::
    "('d, 's) Repository \<Rightarrow> ctx \<Rightarrow> ('d, 's) world \<Rightarrow> uuid \<Rightarrow> uuid list \<Rightarrow>
     (error + Media list) \<times> ('d, 's) world" where
  "Repository_ListByIDs R x w userID ids =
     (case ms_ListByIDs (metadata R) x (meta_st w) userID ids of (r, d1) \<Rightarrow> (r, w\<lparr>meta_st := d1\<rparr>))"

text \<open>Best-effort deletion of one blob, and of the blobs of a list in turn.\<close>

definition delete_blob ::
    "('d, 's) Repository \<Rightarrow> ctx \<Rightarrow> uuid \<Rightarrow> ('d, 's) world \<Rightarrow> ('d, 's) world" where
  "delete_blob R x i w =
     (case bs_Delete (blobs R) x (blob_st w) i of
        (Inl err, s1) \<Rightarrow>
          log_error ''media: failed to delete orphaned blob after metadata delete'' i err (w\<lparr>blob_st := s1\<rparr>)
      | (Inr _, s1) \<Rightarrow> w\<lparr>blob_st := s1\<rparr>)"

fun delete_blobs ::
    "('d, 's) Repository \<Rightarrow> ctx \<Rightarrow> uuid list \<Rightarrow> ('d, 's) world \<Rightarrow> ('d, 's) world" where
  "delete_blobs R x [] w = w"
| "delete_blobs R x (i # is) w = delete_blobs R x is (delete_blob R x i w)"

definition Repository_Delete ::
    "('d, 's) Repository \<Rightarrow> ctx \<Rightarrow> ('d, 's) world \<Rightarrow> uuid \<Rightarrow> uuid \<Rightarrow> (error + unit) \<times> ('d, 's) world" where
  "Repository_Delete R x w userID mediaID =
     (case ms_Delete (metadata R) x (meta_st w) userID mediaID of
        (Inl err, d1) \<Rightarrow> (Inl err, w\<lparr>meta_st := d1\<rparr>)
      | (Inr _, d1) \<Rightarrow> (Inr (), delete_blob R x mediaID (w\<lparr>meta_st := d1\<rparr>)))"

definition Repository_DeleteByIDs ::
    "('d, 's) Repository \<Rightarrow> ctx \<Rightarrow> ('d, 's) world \<Rightarrow> uuid \<Rightarrow> uuid list \<Rightarrow>
     (error + int) \<times> ('d, 's) world" where
  "Repository_DeleteByIDs R x w userID ids =
     (case ms_DeleteByIDs (metadata R) x (meta_st w) userID ids of
        (Inl err, d1) \<Rightarrow> (Inl err, w\<lparr>meta_st := d1\<rparr>)
      | (Inr deleted, d1) \<Rightarrow>
          (Inr (int (length deleted)), delete_blobs R x deleted (w\<lparr>meta_st := d1\<rparr>)))"

definition Repository_DeleteAllByUser ::
    "('d, 's) Repository \<Rightarrow> ctx \<Rightarrow> ('d, 's) world \<Rightarrow> uuid \<Rightarrow> (error + int) \<times> ('d, 's) world" where
  "Repository_DeleteAllByUser R x w userID =
     (case ms_DeleteAllByUser (metadata R) x (meta_st w) userID of
        (Inl err, d1) \<Rightarrow> (Inl err, w\<lparr>meta_st := d1\<rparr>)
      | (Inr deleted, d1) \<Rightarrow>
          (Inr (int (length deleted)), delete_blobs R x deleted (w\<lparr>meta_st := d1\<rparr>)))"

lemmas repository_defs =
  Repository_Create_def Repository_GetByID_def Repository_GetContent_def Repository_ListByIDs_def
  Repository_Delete_def Repository_DeleteByIDs_def Repository_DeleteAllByUser_def

text \<open>
  \<open>New\<close>, and the repository the server is wired with (\<^verbatim>\<open>cmd/server/main.go\<close>): PostgreSQL
  rows, no legacy reader, and the S3 store of the configuration \<open>c\<close>.
\<close>

definition Repository_New ::
    "'d metadataStore \<Rightarrow> 'd legacyContentReader option \<Rightarrow> 's BlobStore \<Rightarrow> ('d, 's) Repository" where
  "Repository_New md lg bs = \<lparr> metadata = md, legacy = lg, blobs = bs \<rparr>"

definition wired_repo :: "uuid_lib \<times> 's Store \<Rightarrow> (db, 's) Repository" where
  "wired_repo c = Repository_New MediaRepository_iface None (Store_iface c)"

lemma wired_repo_sel [simp]:
  "metadata (wired_repo c) = MediaRepository_iface" "legacy (wired_repo c) = None"
  "blobs (wired_repo c) = Store_iface c"
  by (simp_all add: wired_repo_def Repository_New_def)

text \<open>The composite as a value of the domain's Repository port.\<close>

definition Repository_iface :: "uuid_lib \<Rightarrow> ('d, 's) Repository \<Rightarrow> ('d, 's) world MediaRepo" where
  "Repository_iface L R =
     \<lparr> mr_Create = Repository_Create R,
       mr_GetByID = Repository_GetByID R,
       mr_GetContent = Repository_GetContent L R,
       mr_ListByIDs = Repository_ListByIDs R,
       mr_Delete = Repository_Delete R,
       mr_DeleteByIDs = Repository_DeleteByIDs R,
       mr_DeleteAllByUser = Repository_DeleteAllByUser R \<rparr>"

lemma Repository_iface_sel [iface_simps]:
  "mr_Create (Repository_iface L R) = Repository_Create R"
  "mr_GetByID (Repository_iface L R) = Repository_GetByID R"
  "mr_GetContent (Repository_iface L R) = Repository_GetContent L R"
  "mr_ListByIDs (Repository_iface L R) = Repository_ListByIDs R"
  "mr_Delete (Repository_iface L R) = Repository_Delete R"
  "mr_DeleteByIDs (Repository_iface L R) = Repository_DeleteByIDs R"
  "mr_DeleteAllByUser (Repository_iface L R) = Repository_DeleteAllByUser R"
  by (simp_all add: Repository_iface_def)

section \<open>The storage contract\<close>

text \<open>\<open>stored\<close>: every media row has its content in the blob store, of the recorded size.\<close>

definition stored :: "(uuid \<rightharpoonup> Media) \<Rightarrow> (uuid \<rightharpoonup> bytes) \<Rightarrow> bool" where
  "stored rows content \<longleftrightarrow>
     (\<forall>i m. rows i = Some m \<longrightarrow> (\<exists>b. content i = Some b \<and> SizeBytes m = int (length b)))"

lemma stored_inserted:
  assumes "stored rows content" and "inserted rows m rows'" and "content (ID m) = None"
    and "SizeBytes m = int (length b)"
  shows "stored rows' (content(ID m \<mapsto> b))"
  using assms by (auto simp: stored_def inserted_def same_file_def)

lemma stored_shrink:
  assumes "stored rows content" and "\<And>i m. rows' i = Some m \<Longrightarrow> rows i = Some m \<and> content' i = content i"
  shows "stored rows' content'"
  unfolding stored_def
proof (intro allI impI)
  fix i m assume "rows' i = Some m"
  with assms(2) [of i m] assms(1) show "\<exists>b. content' i = Some b \<and> SizeBytes m = int (length b)"
    by (simp add: stored_def)
qed

lemma world_log_sel [simp]:
  "meta_st (log_error msg i e w) = meta_st w" "blob_st (log_error msg i e w) = blob_st w"
  by (simp_all add: log_error_def)

lemma delete_blob_meta [simp]: "meta_st (delete_blob R x i w) = meta_st w"
  by (simp add: delete_blob_def split: prod.splits sum.splits)

lemma delete_blobs_meta [simp]: "meta_st (delete_blobs R x is w) = meta_st w"
  by (induction "is" arbitrary: w) auto

section \<open>The contract of the Repository port\<close>

text \<open>
  What the use cases rely on (\<^verbatim>\<open>internal/domain/media/repository.go\<close>): ownership is part of
  every access, an id never changes hands, and stored content is never overwritten.
\<close>

locale media_repo =
  fixes ok :: "'c \<Rightarrow> bool"
    and inv :: "'w \<Rightarrow> bool"
    and rows :: "'w \<Rightarrow> uuid \<rightharpoonup> Media"
    and content :: "'c \<Rightarrow> 'w \<Rightarrow> uuid \<rightharpoonup> bytes"
    and repo :: "'c \<Rightarrow> 'w MediaRepo"
  assumes row_id: "inv w \<Longrightarrow> rows w i = Some m \<Longrightarrow> ID m = i"
    and create_ok:
      "ok c \<Longrightarrow> inv w \<Longrightarrow> mr_Create (repo c) x w m b = (Inr a, w') \<Longrightarrow>
       inserted (rows w) m (rows w') \<and> content c w (ID m) = None \<and>
       content c w' = (content c w)(ID m \<mapsto> b)"
    and create_conflict:
      "ok c \<Longrightarrow> inv w \<Longrightarrow> mr_Create (repo c) x w m b = (Inl e, w') \<Longrightarrow> errors_Is e ErrIDConflict \<Longrightarrow>
       rows w' = rows w \<and> (rows w (ID m) \<noteq> None \<or> content c w' (ID m) \<noteq> None)"
    and create_any:
      "ok c \<Longrightarrow> inv w \<Longrightarrow> mr_Create (repo c) x w m b = (ra, w') \<Longrightarrow>
       inv w' \<and> (rows w' = rows w \<or> inserted (rows w) m (rows w')) \<and>
       (\<forall>i d. content c w i = Some d \<longrightarrow> content c w' i = Some d)"
    and get_ok:
      "inv w \<Longrightarrow> mr_GetByID (repo c) x w u i = (Inr m, w') \<Longrightarrow> visible (rows w) u i m"
    and get_missing:
      "inv w \<Longrightarrow> mr_GetByID (repo c) x w u i = (Inl e, w') \<Longrightarrow> errors_Is e ErrNotFound \<Longrightarrow>
       \<not> visible (rows w) u i m"
    and get_frame:
      "inv w \<Longrightarrow> mr_GetByID (repo c) x w u i = (rg, w') \<Longrightarrow>
       inv w' \<and> rows w' = rows w \<and> content c w' = content c w"
    and get_content_ok:
      "ok c \<Longrightarrow> inv w \<Longrightarrow> mr_GetContent (repo c) x w u i = (Inr (m, b), w') \<Longrightarrow>
       visible (rows w) u i m \<and> content c w i = Some b"
    and get_content_missing:
      "ok c \<Longrightarrow> inv w \<Longrightarrow> mr_GetContent (repo c) x w u i = (Inl e, w') \<Longrightarrow> errors_Is e ErrNotFound \<Longrightarrow>
       \<not> visible (rows w) u i m"
    and get_content_frame:
      "ok c \<Longrightarrow> inv w \<Longrightarrow> mr_GetContent (repo c) x w u i = (rc, w') \<Longrightarrow>
       inv w' \<and> rows w' = rows w \<and> content c w' = content c w"
    and list_ok:
      "inv w \<Longrightarrow> mr_ListByIDs (repo c) x w u is = (Inr ms, w') \<Longrightarrow>
       distinct (map ID ms) \<and>
       (\<forall>m. m \<in> set ms \<longleftrightarrow> ID m \<in> set is \<and> visible (rows w) u (ID m) m)"
    and list_frame:
      "inv w \<Longrightarrow> mr_ListByIDs (repo c) x w u is = (rl, w') \<Longrightarrow>
       inv w' \<and> rows w' = rows w \<and> content c w' = content c w"
    and delete_ok:
      "inv w \<Longrightarrow> mr_Delete (repo c) x w u i = (Inr a, w') \<Longrightarrow>
       i \<in> owned_ids (rows w) u \<and> rows w' = removed (rows w) {i}"
    and delete_missing:
      "inv w \<Longrightarrow> mr_Delete (repo c) x w u i = (Inl e, w') \<Longrightarrow> errors_Is e ErrNotFound \<Longrightarrow>
       i \<notin> owned_ids (rows w) u \<and> rows w' = rows w \<and> content c w' = content c w"
    and delete_ids_ok:
      "inv w \<Longrightarrow> mr_DeleteByIDs (repo c) x w u is = (Inr n, w') \<Longrightarrow>
       n = int (card (set is \<inter> owned_ids (rows w) u)) \<and>
       rows w' = removed (rows w) (set is \<inter> owned_ids (rows w) u)"
    and delete_user_ok:
      "inv w \<Longrightarrow> mr_DeleteAllByUser (repo c) x w u = (Inr n, w') \<Longrightarrow>
       n = int (card (owned_ids (rows w) u)) \<and> rows w' = removed (rows w) (owned_ids (rows w) u)"
    and delete_others:
      "ok c \<Longrightarrow> inv w \<Longrightarrow>
       mr_Delete (repo c) x w u i = (ra, w') \<or> mr_DeleteByIDs (repo c) x w u is = (rn, w') \<or>
       mr_DeleteAllByUser (repo c) x w u = (rn, w') \<Longrightarrow>
       inv w' \<and> (\<forall>j. j \<notin> owned_ids (rows w) u \<longrightarrow> rows w' j = rows w j \<and> content c w' j = content c w j)"

section \<open>The composite over the two contracts\<close>

text \<open>
  \<open>R\<close> is any repository over the two stores; \<open>rows'\<close> and \<open>content'\<close> of the statements
  below are the rows and the stored content after the call.
\<close>

locale composite =
  bl: blob_store ok iface content + md: metadata_store inv rows tasks live meta
  for ok :: "'c \<Rightarrow> bool" and iface :: "'c \<Rightarrow> 's BlobStore" and content
    and inv :: "'d \<Rightarrow> bool" and rows and tasks and live and meta
begin

lemma create_cases:
  assumes c: "ok c" and R: "metadata R = meta" "blobs R = iface c"
    and "Repository_Create R x w m b = (r, w')"
  obtains (put_failed) e where "r = Inl e" "meta_st w' = meta_st w"
      "content c (blob_st w') = content c (blob_st w) \<or>
       content c (blob_st w) (ID m) = None \<and>
       content c (blob_st w') = (content c (blob_st w))(ID m \<mapsto> b)"
      "errors_Is e ErrIDConflict \<Longrightarrow> content c (blob_st w') (ID m) \<noteq> None"
  | (compensated) e s1 err d1 q where "r = Inl e"
      "content c (blob_st w) (ID m) = None"
      "content c s1 = (content c (blob_st w))(ID m \<mapsto> b)"
      "ms_Create meta x (meta_st w) m = (Inl err, d1)" "meta_st w' = d1"
      "bs_Delete (iface c) (WithoutCancel x) s1 (ID m) = (q, blob_st w')"
      "errors_Is err ErrIDConflict \<Longrightarrow> e = ErrIDConflict"
      "\<not> errors_Is err ErrIDConflict \<Longrightarrow> e = Wrapped ''media: create metadata'' err"
  | (created) a where "r = Inr ()"
      "content c (blob_st w) (ID m) = None"
      "content c (blob_st w') = (content c (blob_st w))(ID m \<mapsto> b)"
      "ms_Create meta x (meta_st w) m = (Inr a, meta_st w')" "logs w' = logs w"
proof -
  obtain p s1 where put: "bs_Put (iface c) x (blob_st w) (ID m) b (ContentType m) = (p, s1)"
    by fastforce
  show thesis
  proof (cases p)
    case (Inl err)
    from assms(4) put Inl R have
      r: "r = Inl (if errors_Is err ErrBlobAlreadyExists then ErrIDConflict
                   else Wrapped ''media: upload blob'' err)" and w': "w' = w\<lparr>blob_st := s1\<rparr>"
      by (auto simp: Repository_Create_def Let_def split: if_splits)
    from bl.put_err [OF c put [unfolded Inl]] bl.put_exists [OF c put [unfolded Inl]]
      bl.put_err_kind [OF put [unfolded Inl]] w'
    show thesis by (intro put_failed [OF r]) (auto split: if_splits)
  next
    case (Inr u)
    note ok = bl.put_ok [OF c put [unfolded Inr]]
    obtain q d1 where ins: "ms_Create meta x (meta_st w) m = (q, d1)" by fastforce
    show thesis
    proof (cases q)
      case (Inl err)
      obtain q' s2 where del: "bs_Delete (iface c) (WithoutCancel x) s1 (ID m) = (q', s2)"
        by fastforce
      from assms(4) put Inr ins Inl del R have
        w': "w' = (case q' of Inl e \<Rightarrow> log_error ''media: failed to clean up orphaned blob after metadata create failure''
                 (ID m) e (w\<lparr>meta_st := d1, blob_st := s2\<rparr>) | Inr _ \<Rightarrow> w\<lparr>meta_st := d1, blob_st := s2\<rparr>)"
        and r: "r = Inl (if errors_Is err ErrIDConflict then ErrIDConflict
                         else Wrapped ''media: create metadata'' err)"
        by (auto simp: Repository_Create_def Let_def split: if_splits sum.splits)
      from w' ok ins Inl del show thesis
        by (intro compensated [OF r, of s1 err d1 q']) (auto split: sum.splits if_splits)
    next
      case (Inr a)
      with assms(4) put \<open>p = Inr u\<close> ins R ok show thesis
        by (intro created [of a]) (auto simp: Repository_Create_def)
    qed
  qed
qed

lemma create_frame:
  assumes c: "ok c" "metadata R = meta" "blobs R = iface c" and inv: "inv (meta_st w)"
    and "Repository_Create R x w m b = (r, w')"
  shows "inv (meta_st w') \<and> tasks (meta_st w') = tasks (meta_st w) \<and> live (meta_st w') = live (meta_st w)"
  using c assms(5)
proof (cases rule: create_cases)
  case (compensated e s1 err d1 q)
  with md.create_frame [OF inv compensated(4)] show ?thesis by simp
next
  case (created a)
  with md.create_frame [OF inv created(4)] show ?thesis by simp
qed (use inv in simp_all)

text \<open>No upload changes the content another id has stored, or overwrites its own.\<close>

lemma create_keeps:
  assumes c: "ok c" "metadata R = meta" "blobs R = iface c"
    and "Repository_Create R x w m b = (r, w')" and "content c (blob_st w) i = Some d"
  shows "content c (blob_st w') i = Some d"
  using c assms(4)
proof (cases rule: create_cases)
  case put_failed
  with assms(5) show ?thesis by auto
next
  case (compensated e s1 err d1 q)
  with assms(5) have "i \<noteq> ID m" by auto
  with bl.delete_others [OF c(1) compensated(6), of i] compensated(3) assms(5) show ?thesis by simp
next
  case created
  with assms(5) show ?thesis by auto
qed

text \<open>
  The storage contract: a created row has its content. Excluded is only a metadata write
  that took effect although it was reported as failed, after which the compensating delete
  removes the content of a row that is there.
\<close>

lemma create_stored:
  assumes c: "ok c" "metadata R = meta" "blobs R = iface c" and inv: "inv (meta_st w)"
    and call: "Repository_Create R x w m b = (r, w')"
    and st: "stored (rows (meta_st w)) (content c (blob_st w))"
    and size: "SizeBytes m = int (length b)"
    and no_lost_insert: "r = Inr () \<or> rows (meta_st w') = rows (meta_st w)"
  shows "stored (rows (meta_st w')) (content c (blob_st w'))"
  using c call
proof (cases rule: create_cases)
  case put_failed
  show ?thesis
    by (rule stored_shrink [OF st])
      (use put_failed create_keeps [OF c call] st in \<open>fastforce simp: stored_def\<close>)
next
  case (compensated e s1 err d1 q)
  with no_lost_insert have rows: "rows (meta_st w') = rows (meta_st w)" by simp
  show ?thesis
    by (rule stored_shrink [OF st])
      (use rows create_keeps [OF c call] st in \<open>fastforce simp: stored_def\<close>)
next
  case (created a)
  from md.create_ok [OF inv created(4)] stored_inserted [OF st _ created(2) size]
  show ?thesis using created(3) by simp
qed

lemma delete_blob_content:
  assumes "ok c" and "blobs R = iface c"
  shows "content c (blob_st (delete_blob R x i w)) = content c (blob_st w) \<or>
         content c (blob_st (delete_blob R x i w)) = (content c (blob_st w))(i := None)"
  using bl.delete_result [OF assms(1), of x "blob_st w" i] assms(2)
  by (auto simp: delete_blob_def split: prod.splits sum.splits)

lemma delete_blobs_content:
  assumes "ok c" and "blobs R = iface c"
  shows "(j \<notin> set is \<longrightarrow> content c (blob_st (delete_blobs R x is w)) j = content c (blob_st w) j) \<and>
         (content c (blob_st w) j = None \<longrightarrow> content c (blob_st (delete_blobs R x is w)) j = None)"
proof (induction "is" arbitrary: w)
  case (Cons i "is")
  from delete_blob_content [OF assms, of x i w] Cons.IH [of "delete_blob R x i w"]
  show ?case by (auto split: if_splits)
qed simp

text \<open>
  The three deletes share their shape: rows removed together with enqueueing their tasks,
  and then, if that succeeded, blobs of removed rows only.
\<close>

lemma purge_stored:
  assumes c: "ok c" "blobs R = iface c"
    and st: "stored (rows (meta_st w)) (content c (blob_st w))"
    and "rows d1 = removed (rows (meta_st w)) D" and "set is \<subseteq> D"
  shows "stored (rows (meta_st (delete_blobs R x is (w\<lparr>meta_st := d1\<rparr>))))
           (content c (blob_st (delete_blobs R x is (w\<lparr>meta_st := d1\<rparr>))))"
proof (rule stored_shrink [OF st])
  fix i m assume "rows (meta_st (delete_blobs R x is (w\<lparr>meta_st := d1\<rparr>))) i = Some m"
  with assms(4,5) have "rows (meta_st w) i = Some m" and "i \<notin> set is"
    by (auto simp: removed_Some)
  with delete_blobs_content [OF c, of i "is" x "w\<lparr>meta_st := d1\<rparr>"]
  show "rows (meta_st w) i = Some m \<and>
    content c (blob_st (delete_blobs R x is (w\<lparr>meta_st := d1\<rparr>))) i = content c (blob_st w) i"
    by simp
qed

lemma delete_shape:
  assumes c: "metadata R = meta" and inv: "inv (meta_st w)"
    and call: "Repository_Delete R x w u i = (r, w')"
  obtains D d1 del where "w' = delete_blobs R x del (w\<lparr>meta_st := d1\<rparr>)" "set del \<subseteq> D"
    "D \<subseteq> owned_ids (rows (meta_st w)) u" "inv d1" "rows d1 = removed (rows (meta_st w)) D"
    "tasks d1 = tasks (meta_st w) \<union> D" "live d1 = live (meta_st w) \<union> D"
proof -
  obtain q d1 where q: "ms_Delete meta x (meta_st w) u i = (q, d1)" by fastforce
  have w': "w' = delete_blobs R x (case q of Inl _ \<Rightarrow> [] | Inr _ \<Rightarrow> [i]) (w\<lparr>meta_st := d1\<rparr>)"
    using call q c by (auto simp: Repository_Delete_def split: sum.splits)
  have inv1: "inv d1" using md.delete_all_or_nothing [OF inv q] by blast
  show thesis
  proof (cases q)
    case (Inl e)
    from md.delete_all_or_nothing [OF inv q] obtain D where "D \<subseteq> owned_ids (rows (meta_st w)) u"
      "rows d1 = removed (rows (meta_st w)) D" "tasks d1 = tasks (meta_st w) \<union> D"
      "live d1 = live (meta_st w) \<union> D" by blast
    with w' Inl inv1 show thesis by (intro that [of "[]" d1 D]) simp_all
  next
    case (Inr a)
    with w' inv1 md.delete_ok [OF inv q [unfolded Inr]] show thesis
      by (intro that [OF w' [unfolded Inr sum.case] order_refl]) simp_all
  qed
qed

lemma delete_ids_shape:
  assumes c: "metadata R = meta" and inv: "inv (meta_st w)"
    and call: "Repository_DeleteByIDs R x w u is = (r, w')"
  obtains D d1 del where "w' = delete_blobs R x del (w\<lparr>meta_st := d1\<rparr>)" "set del \<subseteq> D"
    "D \<subseteq> owned_ids (rows (meta_st w)) u" "inv d1" "rows d1 = removed (rows (meta_st w)) D"
    "tasks d1 = tasks (meta_st w) \<union> D" "live d1 = live (meta_st w) \<union> D"
proof -
  obtain q d1 where q: "ms_DeleteByIDs meta x (meta_st w) u is = (q, d1)" by fastforce
  have w': "w' = delete_blobs R x (case q of Inl _ \<Rightarrow> [] | Inr del \<Rightarrow> del) (w\<lparr>meta_st := d1\<rparr>)"
    using call q c by (auto simp: Repository_DeleteByIDs_def split: sum.splits)
  have inv1: "inv d1" using md.delete_ids_all_or_nothing [OF inv q] by blast
  show thesis
  proof (cases q)
    case (Inl e)
    from md.delete_ids_all_or_nothing [OF inv q] obtain D where "D \<subseteq> owned_ids (rows (meta_st w)) u"
      "rows d1 = removed (rows (meta_st w)) D" "tasks d1 = tasks (meta_st w) \<union> D"
      "live d1 = live (meta_st w) \<union> D" by blast
    with w' Inl inv1 show thesis by (intro that [of "[]" d1 D]) simp_all
  next
    case (Inr a)
    with w' inv1 md.delete_ids_ok [OF inv q [unfolded Inr]] show thesis
      by (intro that [OF w' [unfolded Inr sum.case] order_refl]) simp_all
  qed
qed

lemma delete_user_shape:
  assumes c: "metadata R = meta" and inv: "inv (meta_st w)"
    and call: "Repository_DeleteAllByUser R x w u = (r, w')"
  obtains D d1 del where "w' = delete_blobs R x del (w\<lparr>meta_st := d1\<rparr>)" "set del \<subseteq> D"
    "D \<subseteq> owned_ids (rows (meta_st w)) u" "inv d1" "rows d1 = removed (rows (meta_st w)) D"
    "tasks d1 = tasks (meta_st w) \<union> D" "live d1 = live (meta_st w) \<union> D"
proof -
  obtain q d1 where q: "ms_DeleteAllByUser meta x (meta_st w) u = (q, d1)" by fastforce
  have w': "w' = delete_blobs R x (case q of Inl _ \<Rightarrow> [] | Inr del \<Rightarrow> del) (w\<lparr>meta_st := d1\<rparr>)"
    using call q c by (auto simp: Repository_DeleteAllByUser_def split: sum.splits)
  have inv1: "inv d1" using md.delete_user_all_or_nothing [OF inv q] by blast
  show thesis
  proof (cases q)
    case (Inl e)
    from md.delete_user_all_or_nothing [OF inv q] obtain D where "D \<subseteq> owned_ids (rows (meta_st w)) u"
      "rows d1 = removed (rows (meta_st w)) D" "tasks d1 = tasks (meta_st w) \<union> D"
      "live d1 = live (meta_st w) \<union> D" by blast
    with w' Inl inv1 show thesis by (intro that [of "[]" d1 D]) simp_all
  next
    case (Inr a)
    with w' inv1 md.delete_user_ok [OF inv q [unfolded Inr]] show thesis
      by (intro that [OF w' [unfolded Inr sum.case] order_refl]) simp_all
  qed
qed

lemma delete_stored:
  assumes "ok c" "metadata R = meta" "blobs R = iface c" and "inv (meta_st w)"
    and "Repository_Delete R x w u i = (r, w')"
    and "stored (rows (meta_st w)) (content c (blob_st w))"
  shows "stored (rows (meta_st w')) (content c (blob_st w')) \<and> inv (meta_st w')"
  using assms(2,4,5) by (rule delete_shape) (use purge_stored [OF assms(1,3,6)] in simp)

lemma delete_ids_stored:
  assumes "ok c" "metadata R = meta" "blobs R = iface c" and "inv (meta_st w)"
    and "Repository_DeleteByIDs R x w u is = (r, w')"
    and "stored (rows (meta_st w)) (content c (blob_st w))"
  shows "stored (rows (meta_st w')) (content c (blob_st w')) \<and> inv (meta_st w')"
  using assms(2,4,5) by (rule delete_ids_shape) (use purge_stored [OF assms(1,3,6)] in simp)

lemma delete_user_stored:
  assumes "ok c" "metadata R = meta" "blobs R = iface c" and "inv (meta_st w)"
    and "Repository_DeleteAllByUser R x w u = (r, w')"
    and "stored (rows (meta_st w)) (content c (blob_st w))"
  shows "stored (rows (meta_st w')) (content c (blob_st w')) \<and> inv (meta_st w')"
  using assms(2,4,5) by (rule delete_user_shape) (use purge_stored [OF assms(1,3,6)] in simp)

text \<open>Reads: what is returned is the caller's row and the content stored for it.\<close>

lemma get_content_cases:
  assumes c: "ok c" "metadata R = meta" "blobs R = iface c" "legacy R = None" and inv: "inv (meta_st w)"
    and call: "Repository_GetContent L R x w u i = (r, w')"
  obtains (no_row) e where "r = Inl e" "ms_GetByID meta x (meta_st w) u i = (Inl e, meta_st w')"
      "blob_st w' = blob_st w"
  | (no_blob) m e err where "r = Inl e" "e = Wrapped ''media: get content'' err"
      "ms_GetByID meta x (meta_st w) u i = (Inr m, meta_st w')"
      "bs_Get (iface c) x (blob_st w) i = (Inl err, blob_st w')"
  | (found) m b where "r = Inr (m, b)" "ms_GetByID meta x (meta_st w) u i = (Inr m, meta_st w')"
      "bs_Get (iface c) x (blob_st w) i = (Inr b, blob_st w')"
  using call c
  by (auto simp: Repository_GetContent_def Let_def split: prod.splits sum.splits bool.splits)

lemma get_content_frame:
  assumes "ok c" "metadata R = meta" "blobs R = iface c" "legacy R = None" and "inv (meta_st w)"
    and "Repository_GetContent L R x w u i = (r, w')"
  shows "inv (meta_st w') \<and> rows (meta_st w') = rows (meta_st w) \<and>
         content c (blob_st w') = content c (blob_st w)"
  using assms
  by (cases rule: get_content_cases)
    (auto dest!: md.get_frame [OF assms(5)] bl.get_frame [OF assms(1)])

text \<open>Under the storage contract the content of a visible row is always found.\<close>

lemma get_content_stored:
  assumes "ok c" "metadata R = meta" "blobs R = iface c" "legacy R = None" and "inv (meta_st w)"
    and "Repository_GetContent L R x w u i = (Inl e, w')"
    and "stored (rows (meta_st w)) (content c (blob_st w))"
  shows "ms_GetByID meta x (meta_st w) u i = (Inl e, meta_st w') \<or> \<not> errors_Is e ErrBlobNotFound"
  using assms(1-6)
proof (cases rule: get_content_cases)
  case (no_blob m e' err)
  from md.get_ok [OF assms(5) no_blob(3)] assms(7) have "content c (blob_st w) i \<noteq> None"
    by (auto simp: visible_def stored_def)
  with bl.get_missing [OF assms(1) no_blob(4)] no_blob(1,2) show ?thesis by auto
qed auto

lemma delete_rows:
  assumes "metadata R = meta" and "Repository_Delete R x w u i = (r, w')"
  shows "ms_Delete meta x (meta_st w) u i = (r, meta_st w')"
    and "r = Inl e \<Longrightarrow> blob_st w' = blob_st w"
  using assms by (auto simp: Repository_Delete_def split: prod.splits sum.splits)

lemma delete_ids_rows:
  assumes "metadata R = meta" and "Repository_DeleteByIDs R x w u is = (Inr n, w')"
  shows "\<exists>del. ms_DeleteByIDs meta x (meta_st w) u is = (Inr del, meta_st w') \<and> n = int (length del)"
  using assms by (auto simp: Repository_DeleteByIDs_def split: prod.splits sum.splits)

lemma delete_user_rows:
  assumes "metadata R = meta" and "Repository_DeleteAllByUser R x w u = (Inr n, w')"
  shows "\<exists>del. ms_DeleteAllByUser meta x (meta_st w) u = (Inr del, meta_st w') \<and> n = int (length del)"
  using assms by (auto simp: Repository_DeleteAllByUser_def split: prod.splits sum.splits)

text \<open>A delete touches the caller's rows and their content only.\<close>

lemma purge_foreign:
  assumes "ok c" "blobs R = iface c" and "w' = delete_blobs R x del (w\<lparr>meta_st := d1\<rparr>)"
    and "set del \<subseteq> D" "D \<subseteq> owned_ids (rows (meta_st w)) u" "rows d1 = removed (rows (meta_st w)) D"
    and "j \<notin> owned_ids (rows (meta_st w)) u"
  shows "rows (meta_st w') j = rows (meta_st w) j \<and> content c (blob_st w') j = content c (blob_st w) j"
  using assms delete_blobs_content [OF assms(1,2), of j del x "w\<lparr>meta_st := d1\<rparr>"]
  by (auto simp: removed_def)

lemma delete_foreign:
  assumes c: "ok c" "metadata R = meta" "blobs R = iface c" and inv: "inv (meta_st w)"
    and call: "Repository_Delete R x w u i = (ra, w') \<or> Repository_DeleteByIDs R x w u is = (rn, w') \<or>
         Repository_DeleteAllByUser R x w u = (rn, w')"
    and j: "j \<notin> owned_ids (rows (meta_st w)) u"
  shows "rows (meta_st w') j = rows (meta_st w) j \<and> content c (blob_st w') j = content c (blob_st w) j"
  using call
proof (elim disjE)
  assume "Repository_Delete R x w u i = (ra, w')"
  with c(2) inv show ?thesis by (rule delete_shape) (rule purge_foreign [OF c(1,3) _ _ _ _ j])
next
  assume "Repository_DeleteByIDs R x w u is = (rn, w')"
  with c(2) inv show ?thesis by (rule delete_ids_shape) (rule purge_foreign [OF c(1,3) _ _ _ _ j])
next
  assume "Repository_DeleteAllByUser R x w u = (rn, w')"
  with c(2) inv show ?thesis by (rule delete_user_shape) (rule purge_foreign [OF c(1,3) _ _ _ _ j])
qed

lemma delete_inv:
  assumes "metadata R = meta" and "inv (meta_st w)"
    and call: "Repository_Delete R x w u i = (ra, w') \<or> Repository_DeleteByIDs R x w u is = (rn, w') \<or>
         Repository_DeleteAllByUser R x w u = (rn, w')"
  shows "inv (meta_st w')"
  using call
proof (elim disjE)
  assume "Repository_Delete R x w u i = (ra, w')"
  with assms(1,2) show ?thesis by (rule delete_shape) simp
next
  assume "Repository_DeleteByIDs R x w u is = (rn, w')"
  with assms(1,2) show ?thesis by (rule delete_ids_shape) simp
next
  assume "Repository_DeleteAllByUser R x w u = (rn, w')"
  with assms(1,2) show ?thesis by (rule delete_user_shape) simp
qed

end

interpretation s3_pg: composite store_ok Store_iface store_content
  db_inv media_rows task_ids live_ids MediaRepository_iface
  by unfold_locales

section \<open>The wired repository meets the Repository contract\<close>

definition wired_iface :: "uuid_lib \<times> 's Store \<Rightarrow> (db, 's) world MediaRepo" where
  "wired_iface c = Repository_iface (fst c) (wired_repo c)"

definition world_inv :: "(db, 's) world \<Rightarrow> bool" where
  "world_inv w = db_inv (meta_st w)"

definition world_rows :: "(db, 's) world \<Rightarrow> uuid \<rightharpoonup> Media" where
  "world_rows w = media_rows (meta_st w)"

definition world_content :: "uuid_lib \<times> 's Store \<Rightarrow> (db, 's) world \<Rightarrow> uuid \<rightharpoonup> bytes" where
  "world_content c w = store_content c (blob_st w)"

lemmas world_defs = world_inv_def world_rows_def world_content_def

lemma wired_iface_sel [iface_simps]:
  "mr_Create (wired_iface c) = Repository_Create (wired_repo c)"
  "mr_GetByID (wired_iface c) = Repository_GetByID (wired_repo c)"
  "mr_GetContent (wired_iface c) = Repository_GetContent (fst c) (wired_repo c)"
  "mr_ListByIDs (wired_iface c) = Repository_ListByIDs (wired_repo c)"
  "mr_Delete (wired_iface c) = Repository_Delete (wired_repo c)"
  "mr_DeleteByIDs (wired_iface c) = Repository_DeleteByIDs (wired_repo c)"
  "mr_DeleteAllByUser (wired_iface c) = Repository_DeleteAllByUser (wired_repo c)"
  by (simp_all add: wired_iface_def iface_simps)

lemmas wired = wired_repo_sel(1) wired_repo_sel(3)

lemma wired_create_conflict:
  assumes ok: "store_ok c" and inv: "db_inv (meta_st w)"
    and call: "Repository_Create (wired_repo c) x w m b = (Inl e, w')" and e: "errors_Is e ErrIDConflict"
  shows "media_rows (meta_st w') = media_rows (meta_st w) \<and>
         (media_rows (meta_st w) (ID m) \<noteq> None \<or> store_content c (blob_st w') (ID m) \<noteq> None)"
  using ok wired call
proof (cases rule: s3_pg.create_cases)
  case (put_failed e')
  with e show ?thesis by auto
next
  case (compensated e' s1 err d1 q)
  with e have "errors_Is err ErrIDConflict" by (cases "errors_Is err ErrIDConflict") auto
  with media_table.create_conflict [OF inv compensated(4)] compensated(5) show ?thesis by simp
qed simp

lemma wired_create_any:
  assumes ok: "store_ok c" and inv: "db_inv (meta_st w)"
    and call: "Repository_Create (wired_repo c) x w m b = (r, w')"
  shows "media_rows (meta_st w') = media_rows (meta_st w) \<or>
         inserted (media_rows (meta_st w)) m (media_rows (meta_st w'))"
  using ok wired call
proof (cases rule: s3_pg.create_cases)
  case (compensated e' s1 err d1 q)
  with media_table.create_err [OF inv compensated(4)] show ?thesis by simp
next
  case (created a)
  with media_table.create_ok [OF inv created(4)] show ?thesis by simp
qed simp

lemma wired_create_ok:
  assumes ok: "store_ok c" and inv: "db_inv (meta_st w)"
    and call: "Repository_Create (wired_repo c) x w m b = (Inr a, w')"
  shows "inserted (media_rows (meta_st w)) m (media_rows (meta_st w')) \<and>
         store_content c (blob_st w) (ID m) = None \<and>
         store_content c (blob_st w') = (store_content c (blob_st w))(ID m \<mapsto> b)"
  using ok wired call
  by (cases rule: s3_pg.create_cases) (auto dest: media_table.create_ok [OF inv])

lemma wired_get_content:
  assumes ok: "store_ok c" and inv: "db_inv (meta_st w)"
    and call: "Repository_GetContent (fst c) (wired_repo c) x w u i = (r, w')"
  shows "(r = Inr (m, b) \<longrightarrow> visible (media_rows (meta_st w)) u i m \<and> store_content c (blob_st w) i = Some b) \<and>
         (r = Inl e \<longrightarrow> errors_Is e ErrNotFound \<longrightarrow> \<not> visible (media_rows (meta_st w)) u i m)"
  using ok wired wired_repo_sel(2) inv call
proof (cases rule: s3_pg.get_content_cases)
  case (no_row e')
  with media_table.get_missing [OF inv no_row(2)] show ?thesis by auto
next
  case (no_blob m' e' err)
  with s3_store.get_err_kind [OF no_blob(4)] show ?thesis by auto
next
  case (found m' b')
  with media_table.get_ok [OF inv found(2)] s3_store.get_ok [OF ok found(3)] show ?thesis by auto
qed

interpretation wired_media: media_repo store_ok world_inv world_rows world_content wired_iface
proof (unfold_locales, unfold iface_simps world_defs, goal_cases)
  case (1 w i m)
  then show ?case by (simp add: media_rows_Some)
next
  case (2 c w x m b a w')
  then show ?case by (rule wired_create_ok)
next
  case (3 c w x m b e w')
  then show ?case by (rule wired_create_conflict)
next
  case (4 c w x m b r w')
  with wired_create_any [OF 4] s3_pg.create_frame [OF 4(1) wired 4(2,3)]
    s3_pg.create_keeps [OF 4(1) wired 4(3)]
  show ?case by blast
next
  case (5 w c x u i m w')
  then show ?case
    by (auto simp: Repository_GetByID_def split: prod.splits dest: media_table.get_ok)
next
  case (6 w c x u i e w' m)
  then show ?case
    by (auto simp: Repository_GetByID_def split: prod.splits dest: media_table.get_missing)
next
  case (7 w c x u i r w')
  then show ?case
    by (auto simp: Repository_GetByID_def split: prod.splits dest: media_table.get_frame)
next
  case (8 c w x u i m b w')
  with wired_get_content [OF 8] show ?case by blast
next
  case (9 c w x u i e w' m)
  with wired_get_content [OF 9(1,2,3)] show ?case by blast
next
  case (10 c w x u i r w')
  then show ?case using s3_pg.get_content_frame [OF 10(1) wired wired_repo_sel(2) 10(2,3)] by blast
next
  case (11 w c x u "is" ms w')
  then show ?case
    by (auto simp: Repository_ListByIDs_def split: prod.splits dest: media_table.list_ok)
next
  case (12 w c x u "is" r w')
  then show ?case
    by (auto simp: Repository_ListByIDs_def split: prod.splits dest: media_table.list_frame)
next
  case (13 w c x u i a w')
  with s3_pg.delete_rows(1) [OF wired(1) 13(2)] show ?case by (blast dest: media_table.delete_ok)
next
  case (14 w c x u i e w')
  with s3_pg.delete_rows [OF wired(1) 14(2)] media_table.delete_missing show ?case by metis
next
  case (15 w c x u "is" n w')
  from s3_pg.delete_ids_rows [OF wired(1) 15(2)] obtain del where
    "ms_DeleteByIDs MediaRepository_iface x (meta_st w) u is = (Inr del, meta_st w')" "n = int (length del)"
    by blast
  with media_table.delete_ids_ok [OF 15(1)] show ?case by (metis distinct_card)
next
  case (16 w c x u n w')
  from s3_pg.delete_user_rows [OF wired(1) 16(2)] obtain del where
    "ms_DeleteAllByUser MediaRepository_iface x (meta_st w) u = (Inr del, meta_st w')" "n = int (length del)"
    by blast
  with media_table.delete_user_ok [OF 16(1)] show ?case by (metis distinct_card)
next
  case (17 c w x u i ra w' "is" rn)
  with s3_pg.delete_foreign [OF 17(1) wired 17(2,3)] s3_pg.delete_inv [OF wired(1) 17(2,3)]
  show ?case by blast
qed

end
