(* ===== verification/Deletion_Queue.thy ===== *)
theory Deletion_Queue
  imports Pg_Database "HOL-Library.Product_Lexorder"
begin

text \<open>
  The blob deletion queue (\<^verbatim>\<open>internal/repository/postgres/blob_deletion_repository.go\<close>):
  claiming the next due task under a lease, completing it, and putting it back with an
  exponential back-off; the contract of the queue port, and the lease and ordering facts.
\<close>

section \<open>Statements\<close>

text \<open>The WHERE clause of \<open>Claim\<close>; a comparison with a NULL lease is not true.\<close>

definition eligible :: "db \<Rightarrow> task_row \<Rightarrow> bool" where
  "eligible d t \<longleftrightarrow>
     (status t = Pending \<and> next_attempt_at t \<le> db_now d) \<or>
     (status t = Processing \<and>
      (case lease_until t of None \<Rightarrow> False | Some l \<Rightarrow> l < db_now d))"

text \<open>\<open>ORDER BY next_attempt_at, media_id LIMIT 1 FOR UPDATE SKIP LOCKED\<close>.\<close>

definition candidate :: "db \<Rightarrow> task_row option" where
  "candidate d =
     (case sort_key (\<lambda>t. (next_attempt_at t, media_id t))
             (filter (\<lambda>t. eligible d t \<and> media_id t \<notin> set (db_locked d)) (task_tbl d)) of
        [] \<Rightarrow> None | t # _ \<Rightarrow> Some t)"

definition claimed :: "db \<Rightarrow> task_row \<Rightarrow> task_row" where
  "claimed d t =
     t\<lparr>status := Processing, lease_until := Some (db_now d + BlobDeletionLease),
       attempt_count := attempt_count t + 1, task_updated_at := db_now d\<rparr>"

definition claim_stmt :: "db \<Rightarrow> error + uuid \<times> db" where
  "claim_stmt d =
     (case candidate d of
        None \<Rightarrow> Inl ErrNoRows
      | Some t \<Rightarrow>
          if attempt_count t + 1 \<ge> 2 ^ 31 then Inl (PgError ''22003'' ''integer out of range'')
          else Inr (media_id t,
                 d\<lparr>task_tbl := update_task (media_id t) (claimed d) (task_tbl d)\<rparr>))"

definition completed :: "db \<Rightarrow> task_row \<Rightarrow> task_row" where
  "completed d t = t\<lparr>status := Completed, lease_until := None, task_updated_at := db_now d\<rparr>"

definition complete_stmt :: "uuid \<Rightarrow> db \<Rightarrow> error + unit \<times> db" where
  "complete_stmt i d = Inr ((), d\<lparr>task_tbl := update_task i (completed d) (task_tbl d)\<rparr>)"

text \<open>
  \<^verbatim>\<open>LEAST(INTERVAL '1 minute' * POWER(2, LEAST(attempt_count, 8)), INTERVAL '256 minutes')\<close>.
\<close>

definition backoff :: "nat \<Rightarrow> duration" where
  "backoff attempts = min (minute * 2 ^ min attempts 8) (256 * minute)"

definition retried :: "db \<Rightarrow> string \<Rightarrow> task_row \<Rightarrow> task_row" where
  "retried d reason t =
     t\<lparr>status := Pending, next_attempt_at := db_now d + backoff (attempt_count t),
       lease_until := None, last_error := Some reason, task_updated_at := db_now d\<rparr>"

definition retry_stmt :: "uuid \<Rightarrow> string \<Rightarrow> db \<Rightarrow> error + unit \<times> db" where
  "retry_stmt i reason d =
     (if \<not> text_ok d reason then Inl (PgError ''22021'' ''invalid byte sequence for encoding UTF8'')
      else Inr ((), d\<lparr>task_tbl := update_task i (retried d reason) (task_tbl d)\<rparr>))"

section \<open>The repository\<close>

definition BlobDeletionRepository_Claim :: "ctx \<Rightarrow> db \<Rightarrow> (error + BlobDeletionTask) \<times> db" where
  "BlobDeletionRepository_Claim x d =
     (case run_stmt d claim_stmt of
        (Inl err, d') \<Rightarrow> (Inl err, d')
      | (Inr i, d') \<Rightarrow> (Inr \<lparr>MediaID = i\<rparr>, d'))"

definition BlobDeletionRepository_Complete :: "ctx \<Rightarrow> db \<Rightarrow> uuid \<Rightarrow> (error + unit) \<times> db" where
  "BlobDeletionRepository_Complete x d i = run_stmt d (complete_stmt i)"

definition BlobDeletionRepository_Retry :: "ctx \<Rightarrow> db \<Rightarrow> uuid \<Rightarrow> error \<Rightarrow> (error + unit) \<times> db" where
  "BlobDeletionRepository_Retry x d i reason = run_stmt d (retry_stmt i (Error reason))"

definition BlobDeletionRepository_iface :: "db BlobDeletionQueue" where
  "BlobDeletionRepository_iface =
     \<lparr> dq_Claim = BlobDeletionRepository_Claim,
       dq_Complete = BlobDeletionRepository_Complete,
       dq_Retry = BlobDeletionRepository_Retry \<rparr>"

lemma BlobDeletionRepository_iface_sel [iface_simps]:
  "dq_Claim BlobDeletionRepository_iface = BlobDeletionRepository_Claim"
  "dq_Complete BlobDeletionRepository_iface = BlobDeletionRepository_Complete"
  "dq_Retry BlobDeletionRepository_iface = BlobDeletionRepository_Retry"
  by (simp_all add: BlobDeletionRepository_iface_def)

section \<open>The queue contract\<close>

text \<open>
  What the worker relies on: a claimed task is one that is still to be done, claiming and
  retrying lose no task, and only \<open>Complete\<close> takes an id out of the live ones.
\<close>

locale deletion_queue =
  fixes inv :: "'d \<Rightarrow> bool"
    and rows :: "'d \<Rightarrow> uuid \<rightharpoonup> Media"
    and tasks :: "'d \<Rightarrow> uuid set"
    and live :: "'d \<Rightarrow> uuid set"
    and queue :: "'d BlobDeletionQueue"
  assumes claim_ok:
      "inv d \<Longrightarrow> dq_Claim queue x d = (Inr t, d') \<Longrightarrow> MediaID t \<in> live d"
    and claim_frame:
      "inv d \<Longrightarrow> dq_Claim queue x d = (r, d') \<Longrightarrow>
       inv d' \<and> rows d' = rows d \<and> tasks d' = tasks d \<and> live d' = live d"
    and complete_ok:
      "inv d \<Longrightarrow> dq_Complete queue x d i = (Inr a, d') \<Longrightarrow> live d' = live d - {i}"
    and complete_frame:
      "inv d \<Longrightarrow> dq_Complete queue x d i = (rc, d') \<Longrightarrow>
       inv d' \<and> rows d' = rows d \<and> tasks d' = tasks d \<and> live d - {i} \<subseteq> live d' \<and> live d' \<subseteq> live d"
    and retry_frame:
      "inv d \<Longrightarrow> dq_Retry queue x d i e = (rc, d') \<Longrightarrow>
       inv d' \<and> rows d' = rows d \<and> tasks d' = tasks d \<and> live d \<subseteq> live d' \<and>
       live d' \<subseteq> live d \<union> (tasks d \<inter> {i})"
    and live_tasks: "live d \<subseteq> tasks d"

section \<open>Lemmas on the statements\<close>

lemma candidate_SomeD:
  assumes "candidate d = Some t"
  shows "t \<in> set (task_tbl d) \<and> eligible d t \<and> media_id t \<notin> set (db_locked d) \<and>
         (\<forall>t' \<in> set (task_tbl d). eligible d t' \<longrightarrow> media_id t' \<notin> set (db_locked d) \<longrightarrow>
            (next_attempt_at t, media_id t) \<le> (next_attempt_at t', media_id t'))"
proof -
  let ?key = "\<lambda>t. (next_attempt_at t, media_id t)"
  let ?xs = "filter (\<lambda>t. eligible d t \<and> media_id t \<notin> set (db_locked d)) (task_tbl d)"
  from assms obtain ts where ts: "sort_key ?key ?xs = t # ts"
    by (auto simp: candidate_def split: list.splits)
  have "set (t # ts) = set ?xs" unfolding ts [symmetric] by (rule set_sort)
  moreover have "sorted (map ?key (t # ts))" unfolding ts [symmetric] by (rule sorted_sort_key)
  ultimately show ?thesis by (auto simp: set_eq_iff)
qed

lemma candidate_None_iff:
  "candidate d = None \<longleftrightarrow>
     (\<forall>t \<in> set (task_tbl d). eligible d t \<longrightarrow> media_id t \<in> set (db_locked d))"
proof -
  let ?key = "\<lambda>t. (next_attempt_at t, media_id t)"
  let ?xs = "filter (\<lambda>t. eligible d t \<and> media_id t \<notin> set (db_locked d)) (task_tbl d)"
  have "candidate d = None \<longleftrightarrow> sort_key ?key ?xs = []"
    by (auto simp: candidate_def split: list.splits)
  also have "\<dots> \<longleftrightarrow> ?xs = []" by (simp only: length_0_conv [symmetric] length_sort)
  finally show ?thesis by (auto simp: filter_empty_conv)
qed

lemma update_task_frame [simp]:
  "media_rows (d\<lparr>task_tbl := ts\<rparr>) = media_rows d"
  "db_now (d\<lparr>task_tbl := ts\<rparr>) = db_now d"
  by (simp_all add: media_rows_def)

lemma update_task_ids:
  assumes "\<And>t. media_id (f t) = media_id t"
  shows "task_ids (d\<lparr>task_tbl := update_task i f (task_tbl d)\<rparr>) = task_ids d"
  using assms by (simp add: task_ids_def ids_update_task)

lemma live_ids_alt: "live_ids d = {i. \<exists>t \<in> set (task_tbl d). media_id t = i \<and> status t \<noteq> Completed}"
  by (auto simp: live_ids_def)

lemma update_task_live:
  assumes "\<And>t. media_id (f t) = media_id t"
  shows "live_ids (d\<lparr>task_tbl := update_task i f (task_tbl d)\<rparr>) =
         (live_ids d - {i}) \<union> {j. j = i \<and> (\<exists>t \<in> set (task_tbl d). media_id t = j \<and> status (f t) \<noteq> Completed)}"
  using assms by (auto simp: live_ids_alt set_update_task split: if_splits)

lemma update_task_inv:
  assumes "\<And>t. media_id (f t) = media_id t" and "db_inv d"
    and "\<And>t. t \<in> set (task_tbl d) \<Longrightarrow> media_id t = i \<Longrightarrow>
           attempt_count (f t) < 2 ^ 31 \<and> (status (f t) = Processing \<longrightarrow> lease_until (f t) \<noteq> None)"
  shows "db_inv (d\<lparr>task_tbl := update_task i f (task_tbl d)\<rparr>)"
  using assms by (auto simp: db_inv_def keyed_update_task set_update_task)

lemma eligible_live: "eligible d t \<Longrightarrow> status t \<noteq> Completed"
  by (auto simp: eligible_def)

lemma db_inv_task_unique:
  "db_inv d \<Longrightarrow> t \<in> set (task_tbl d) \<Longrightarrow> t' \<in> set (task_tbl d) \<Longrightarrow> media_id t = media_id t' \<Longrightarrow> t = t'"
  by (auto simp: db_inv_def keyed_def distinct_map inj_on_def)

lemma task_row_sel [simp]:
  "media_id (claimed d t) = media_id t" "status (claimed d t) = Processing"
  "attempt_count (claimed d t) = attempt_count t + 1"
  "lease_until (claimed d t) = Some (db_now d + BlobDeletionLease)"
  "next_attempt_at (claimed d t) = next_attempt_at t"
  "media_id (completed d t) = media_id t" "status (completed d t) = Completed"
  "attempt_count (completed d t) = attempt_count t"
  "media_id (retried d e t) = media_id t" "status (retried d e t) = Pending"
  "attempt_count (retried d e t) = attempt_count t"
  "next_attempt_at (retried d e t) = db_now d + backoff (attempt_count t)"
  by (simp_all add: claimed_def completed_def retried_def)

lemma claim_stmt_ok:
  assumes "db_inv d" and "claim_stmt d = Inr (i, d')"
  obtains t where "candidate d = Some t" "media_id t = i" "i \<in> live_ids d"
    "d' = d\<lparr>task_tbl := update_task i (claimed d) (task_tbl d)\<rparr>" "db_inv d'"
    "task_ids d' = task_ids d" "live_ids d' = live_ids d"
proof -
  from assms(2) obtain t where t: "candidate d = Some t" "media_id t = i"
    and small: "attempt_count t + 1 < 2 ^ 31"
    and d': "d' = d\<lparr>task_tbl := update_task i (claimed d) (task_tbl d)\<rparr>"
    by (auto simp: claim_stmt_def not_le split: option.splits if_splits)
  from candidate_SomeD [OF t(1)] have mem: "t \<in> set (task_tbl d)" and "status t \<noteq> Completed"
    by (auto dest: eligible_live)
  with t(2) have live: "i \<in> live_ids d" using live_idsI by blast
  have "db_inv d'" unfolding d'
    by (rule update_task_inv) (use assms(1) small mem t(2) db_inv_task_unique in force)+
  moreover have "live_ids d' = live_ids d" unfolding d'
    using live mem t(2) by (subst update_task_live) auto
  moreover have "task_ids d' = task_ids d" unfolding d' by (rule update_task_ids) simp
  ultimately show thesis using that t live d' by blast
qed

text \<open>The back-off grows from one minute (never attempted) to 256 minutes and stays there.\<close>

lemma backoff_eq: "backoff n = minute * 2 ^ min n 8"
proof -
  have "(2::int) ^ min n 8 \<le> 2 ^ 8" by (rule power_increasing) auto
  then show ?thesis by (simp add: backoff_def)
qed

section \<open>The repository meets the queue contract\<close>

lemma Claim_cases:
  assumes "db_inv d" and "BlobDeletionRepository_Claim x d = (r, d')"
  shows "db_inv d' \<and> media_rows d' = media_rows d \<and> task_ids d' = task_ids d \<and> live_ids d' = live_ids d \<and>
         (\<forall>t. r = Inr t \<longrightarrow> MediaID t \<in> live_ids d)"
proof -
  from assms(2) obtain q where q: "run_stmt d claim_stmt = (q, d')"
    and r: "r = (case q of Inl e \<Rightarrow> Inl e | Inr i \<Rightarrow> Inr \<lparr>MediaID = i\<rparr>)"
    by (auto simp: BlobDeletionRepository_Claim_def split: prod.splits sum.splits)
  from q show ?thesis
  proof (cases rule: run_stmt_cases)
    case (ok fs i)
    from assms(1) have "db_inv (d\<lparr>db_faults := fs\<rparr>)" by simp
    then show ?thesis using ok(1)
      by (rule claim_stmt_ok) (use ok(2) r in auto)
  next
    case (after fs i msg)
    from assms(1) have "db_inv (d\<lparr>db_faults := fs\<rparr>)" by simp
    then show ?thesis using after(1)
      by (rule claim_stmt_ok) (use after(2) r in auto)
  qed (use assms(1) r in auto)
qed

lemma complete_stmt_ok:
  assumes "db_inv d" and "complete_stmt i d = Inr (a, d')"
  shows "db_inv d' \<and> media_rows d' = media_rows d \<and> task_ids d' = task_ids d \<and>
         live_ids d' = live_ids d - {i}"
proof -
  from assms(2) have d': "d' = d\<lparr>task_tbl := update_task i (completed d) (task_tbl d)\<rparr>"
    by (simp add: complete_stmt_def)
  have "db_inv d'" unfolding d'
    by (rule update_task_inv) (use assms(1) in \<open>auto simp: db_inv_def\<close>)
  then show ?thesis unfolding d' by (simp add: update_task_ids update_task_live)
qed

lemma retry_stmt_ok:
  assumes "db_inv d" and "retry_stmt i reason d = Inr (a, d')"
  shows "db_inv d' \<and> media_rows d' = media_rows d \<and> task_ids d' = task_ids d \<and>
         live_ids d' = live_ids d \<union> (task_ids d \<inter> {i})"
proof -
  from assms(2) have d': "d' = d\<lparr>task_tbl := update_task i (retried d reason) (task_tbl d)\<rparr>"
    by (simp add: retry_stmt_def split: if_splits)
  have "db_inv d'" unfolding d'
    by (rule update_task_inv) (use assms(1) in \<open>auto simp: db_inv_def\<close>)
  moreover have "live_ids d' = live_ids d \<union> (task_ids d \<inter> {i})"
    unfolding d' by (subst update_task_live) (auto simp: live_ids_alt task_ids_def)
  ultimately show ?thesis unfolding d' by (simp add: update_task_ids)
qed

lemma Complete_cases:
  assumes "db_inv d" and "BlobDeletionRepository_Complete x d i = (r, d')"
  shows "db_inv d' \<and> media_rows d' = media_rows d \<and> task_ids d' = task_ids d \<and>
         (live_ids d' = live_ids d \<or> live_ids d' = live_ids d - {i}) \<and>
         (\<forall>a. r = Inr a \<longrightarrow> live_ids d' = live_ids d - {i})"
proof -
  from assms(2) have "run_stmt d (complete_stmt i) = (r, d')"
    by (simp add: BlobDeletionRepository_Complete_def)
  then show ?thesis
  proof (cases rule: run_stmt_cases)
    case (ok fs b)
    with assms(1) complete_stmt_ok [OF _ ok(1)] show ?thesis by simp
  next
    case (after fs b msg)
    with assms(1) complete_stmt_ok [OF _ after(1)] show ?thesis by simp
  qed (use assms(1) in \<open>auto simp: complete_stmt_def\<close>)
qed

lemma Retry_cases:
  assumes "db_inv d" and "BlobDeletionRepository_Retry x d i e = (r, d')"
  shows "db_inv d' \<and> media_rows d' = media_rows d \<and> task_ids d' = task_ids d \<and>
         (live_ids d' = live_ids d \<or> live_ids d' = live_ids d \<union> (task_ids d \<inter> {i}))"
proof -
  from assms(2) have "run_stmt d (retry_stmt i (Error e)) = (r, d')"
    by (simp add: BlobDeletionRepository_Retry_def)
  then show ?thesis
  proof (cases rule: run_stmt_cases)
    case (ok fs b)
    with assms(1) retry_stmt_ok [OF _ ok(1)] show ?thesis by simp
  next
    case (after fs b msg)
    with assms(1) retry_stmt_ok [OF _ after(1)] show ?thesis by simp
  qed (use assms(1) in \<open>auto simp: retry_stmt_def\<close>)
qed

interpretation pg_queue: deletion_queue db_inv media_rows task_ids live_ids BlobDeletionRepository_iface
proof (unfold_locales, unfold iface_simps, goal_cases)
  case (1 d x t d')
  with Claim_cases [OF 1] show ?case by blast
next
  case (2 d x r d')
  with Claim_cases [OF 2] show ?case by blast
next
  case (3 d x i a d')
  with Complete_cases [OF 3] show ?case by blast
next
  case (4 d x i r d')
  with Complete_cases [OF 4] show ?case by auto
next
  case (5 d x i e r d')
  with Retry_cases [OF 5] show ?case by auto
next
  case (6 d)
  show ?case by (auto simp: live_ids_def task_ids_def)
qed

end
