(* ===== verification/Blob_Worker.thy ===== *)
theory Blob_Worker
  imports Blob_Store Deletion_Queue
begin

text \<open>
  The blob deletion worker (\<^verbatim>\<open>internal/application/media/blob_worker.go\<close>): one round,
  \<open>RunOnce\<close>, over the queue and the blob store, and the loop \<open>Run\<close>. The lemmas on one round
  are proved over the two contracts; the drain theorem is about the PostgreSQL queue.
\<close>

section \<open>The worker\<close>

record ('d, 's) Worker =
  queue :: "'d BlobDeletionQueue"
  wblobs :: "'s BlobStore"

definition Worker_RunOnce ::
    "('d, 's) Worker \<Rightarrow> ctx \<Rightarrow> 'd \<times> 's \<Rightarrow> (error + unit) \<times> 'd \<times> 's" where
  "Worker_RunOnce W x st =
     (case st of (d, s) \<Rightarrow>
      (case dq_Claim (queue W) x d of
         (Inl err, d1) \<Rightarrow> if errors_Is err ErrNoRows then (Inr (), d1, s) else (Inl err, d1, s)
       | (Inr task, d1) \<Rightarrow>
           (case bs_Delete (wblobs W) x s (MediaID task) of
              (Inl err, s1) \<Rightarrow>
                (case dq_Retry (queue W) x d1 (MediaID task) err of (r, d2) \<Rightarrow> (r, d2, s1))
            | (Inr _, s1) \<Rightarrow>
                (case dq_Complete (queue W) x d1 (MediaID task) of (r, d2) \<Rightarrow> (r, d2, s1)))))"

text \<open>
  The \<open>select\<close> at the end of a round: either the context is done, or the interval has
  elapsed, during which the rest of the system did \<open>f interval\<close>. The loop runs over the list
  of these outcomes and returns when the context is done; \<open>None\<close> means it is still running
  when the list ends.
\<close>

datatype ('d, 's) select = CtxDone | After "duration \<Rightarrow> 'd \<times> 's \<Rightarrow> 'd \<times> 's"

fun Worker_loop ::
    "('d, 's) Worker \<Rightarrow> ctx \<Rightarrow> duration \<Rightarrow> ('d, 's) select list \<Rightarrow> 'd \<times> 's \<Rightarrow> ('d \<times> 's) option" where
  "Worker_loop W x interval [] st = None"
| "Worker_loop W x interval (CtxDone # es) st = Some (snd (Worker_RunOnce W x st))"
| "Worker_loop W x interval (After f # es) st =
     Worker_loop W x interval es (f interval (snd (Worker_RunOnce W x st)))"

definition Worker_Run ::
    "('d, 's) Worker \<Rightarrow> ctx \<Rightarrow> duration \<Rightarrow> ('d, 's) select list \<Rightarrow> 'd \<times> 's \<Rightarrow> ('d \<times> 's) option" where
  "Worker_Run W x interval es st =
     (let interval = (if interval \<le> 0 then 5 * second else interval)
      in Worker_loop W x interval es st)"

section \<open>One round over the contracts\<close>

locale worker =
  bl: blob_store ok iface content + dq: deletion_queue inv rows tasks live q
  for ok :: "'c \<Rightarrow> bool" and iface :: "'c \<Rightarrow> 's BlobStore" and content
    and inv :: "'d \<Rightarrow> bool" and rows and tasks and live and q
begin

text \<open>
  A round touches the content of at most one id, one that has a live deletion task; it takes
  an id out of the live ones only after its content is gone, and loses no row and no task.
\<close>

lemma run_once:
  assumes c: "ok c" "queue W = q" "wblobs W = iface c" and inv: "inv d"
    and call: "Worker_RunOnce W x (d, s) = (r, d', s')"
  obtains (idle) "content c s' = content c s" "live d' = live d"
      "inv d'" "rows d' = rows d" "tasks d' = tasks d"
  | (deleted) i where "i \<in> live d" "content c s' = (content c s)(i := None)"
      "live d - {i} \<subseteq> live d'" "live d' \<subseteq> live d" "inv d'" "rows d' = rows d" "tasks d' = tasks d"
  | (retry) i where "i \<in> live d" "live d' = live d"
      "content c s' = content c s \<or> content c s' = (content c s)(i := None)"
      "inv d'" "rows d' = rows d" "tasks d' = tasks d"
proof -
  obtain p d1 where p: "dq_Claim q x d = (p, d1)" by fastforce
  note fr = dq.claim_frame [OF inv p]
  show thesis
  proof (cases p)
    case (Inl err)
    with call p c fr show thesis
      by (intro idle) (auto simp: Worker_RunOnce_def split: if_splits)
  next
    case (Inr t)
    let ?i = "MediaID t"
    from dq.claim_ok [OF inv p [unfolded Inr]] have live: "?i \<in> live d" .
    obtain p2 s1 where p2: "bs_Delete (iface c) x s ?i = (p2, s1)" by fastforce
    show thesis
    proof (cases p2)
      case (Inl err)
      obtain r3 d3 where r3: "dq_Retry q x d1 ?i err = (r3, d3)" by fastforce
      with call p Inr p2 Inl c have "d' = d3" "s' = s1" by (auto simp: Worker_RunOnce_def)
      with dq.retry_frame [of d1 x ?i err r3 d3] r3 fr live bl.delete_result [OF c(1) p2]
      show thesis by (intro retry [of ?i]) auto
    next
      case (Inr u)
      obtain r3 d3 where r3: "dq_Complete q x d1 ?i = (r3, d3)" by fastforce
      with call p \<open>p = Inr t\<close> p2 Inr c have "d' = d3" "s' = s1" by (auto simp: Worker_RunOnce_def)
      with dq.complete_frame [of d1 x ?i r3 d3] r3 fr live bl.delete_ok [OF c(1) p2 [unfolded Inr]]
      show thesis by (intro deleted [of ?i]) auto
    qed
  qed
qed

lemma run_once_safe:
  assumes c: "ok c" "queue W = q" "wblobs W = iface c" and inv: "inv d"
    and call: "Worker_RunOnce W x (d, s) = (r, d', s')"
  shows "inv d' \<and> rows d' = rows d \<and> tasks d' = tasks d \<and> live d' \<subseteq> live d \<and>
         (\<forall>i. i \<in> live d - live d' \<longrightarrow> content c s' i = None) \<and>
         (\<forall>i. content c s i = None \<longrightarrow> content c s' i = None) \<and>
         (\<forall>i. i \<notin> live d \<longrightarrow> content c s' i = content c s i)"
  using c inv call by (cases rule: run_once) auto

end

interpretation s3_worker: worker store_ok Store_iface store_content
  db_inv media_rows task_ids live_ids BlobDeletionRepository_iface
  by unfold_locales

section \<open>Draining the queue\<close>

text \<open>
  The rest of this theory is about the wired worker when nothing fails: the rounds of the
  loop with only the clock moving in between (\<open>tick\<close>), and when a task comes due.
\<close>

definition wired_worker :: "uuid_lib \<times> 's Store \<Rightarrow> (db, 's) Worker" where
  "wired_worker c = \<lparr> queue = BlobDeletionRepository_iface, wblobs = Store_iface c \<rparr>"

definition tick :: "duration \<Rightarrow> db \<times> 's \<Rightarrow> db \<times> 's" where
  "tick iv st = ((fst st)\<lparr>db_now := db_now (fst st) + iv\<rparr>, snd st)"

fun rounds :: "(db, 's) Worker \<Rightarrow> ctx \<Rightarrow> duration \<Rightarrow> nat \<Rightarrow> db \<times> 's \<Rightarrow> db \<times> 's" where
  "rounds W x iv 0 st = st"
| "rounds W x iv (Suc n) st = rounds W x iv n (tick iv (snd (Worker_RunOnce W x st)))"

definition due :: "task_row \<Rightarrow> timestamp" where
  "due t = (case status t of
              Processing \<Rightarrow> (case lease_until t of None \<Rightarrow> 0 | Some l \<Rightarrow> l + 1)
            | _ \<Rightarrow> next_attempt_at t)"

text \<open>
  \<open>drainable iv k d\<close>: the database is quiet, no task has used up its attempt counter, and
  every open task is due within \<open>k\<close> intervals.
\<close>

definition drainable :: "duration \<Rightarrow> nat \<Rightarrow> db \<Rightarrow> bool" where
  "drainable iv k d \<longleftrightarrow>
     db_inv d \<and> db_faults d = [] \<and> db_locked d = [] \<and>
     (\<forall>t \<in> set (task_tbl d). status t \<noteq> Completed \<longrightarrow>
        attempt_count t + 1 < 2 ^ 31 \<and> due t \<le> db_now d + int k * iv)"

lemma wired_worker_sel [simp]:
  "queue (wired_worker c) = BlobDeletionRepository_iface" "wblobs (wired_worker c) = Store_iface c"
  by (simp_all add: wired_worker_def)

lemma loop_rounds:
  "Worker_loop W x iv (replicate n (After tick) @ [CtxDone]) st =
     Some (snd (Worker_RunOnce W x (rounds W x iv n st)))"
  by (induction n arbitrary: st) simp_all

lemma eligible_due:
  "db_inv d \<Longrightarrow> t \<in> set (task_tbl d) \<Longrightarrow> status t \<noteq> Completed \<Longrightarrow> eligible d t \<longleftrightarrow> due t \<le> db_now d"
  by (cases "status t") (auto simp: eligible_def due_def db_inv_def split: option.splits)

lemma round_idle:
  assumes "db_faults d = []" and "candidate d = None"
  shows "Worker_RunOnce (wired_worker c) x (d, s) = (Inr (), d, s)"
  using assms
  by (simp add: Worker_RunOnce_def iface_simps BlobDeletionRepository_Claim_def run_stmt_def settle_def
      claim_stmt_def)

lemma round_work:
  assumes "store_ok (L, S)" "s3_answers (client S) x" and "drainable iv k d" and "candidate d = Some t"
  obtains d' s' where "Worker_RunOnce (wired_worker (L, S)) x (d, s) = (Inr (), d', s')"
    "drainable iv k d'" "db_now d' = db_now d" "media_rows d' = media_rows d"
    "live_ids d' = live_ids d - {media_id t}" "media_id t \<in> live_ids d"
    "store_content (L, S) s' = (store_content (L, S) s)(media_id t := None)"
proof -
  let ?i = "media_id t"
  let ?d1 = "d\<lparr>task_tbl := update_task ?i (claimed d) (task_tbl d)\<rparr>"
  let ?d2 = "?d1\<lparr>task_tbl := update_task ?i (completed ?d1) (task_tbl ?d1)\<rparr>"
  from assms(3) have inv: "db_inv d" and nf: "db_faults d = []" by (auto simp: drainable_def)
  from candidate_SomeD [OF assms(4)] have t: "t \<in> set (task_tbl d)" "status t \<noteq> Completed"
    by (auto dest: eligible_live)
  with assms(3) have small: "attempt_count t + 1 < 2 ^ 31" by (auto simp: drainable_def)
  then have claim: "claim_stmt d = Inr (?i, ?d1)" using assms(4) by (simp add: claim_stmt_def)
  from claim_stmt_ok [OF inv claim] have inv1: "db_inv ?d1" and live1: "live_ids ?d1 = live_ids d" by auto
  have complete: "complete_stmt ?i ?d1 = Inr ((), ?d2)" by (simp add: complete_stmt_def)
  note c2 = complete_stmt_ok [OF inv1 complete]
  obtain s' where del: "Store_Delete L S x s ?i = (Inr (), s')" using Store_Delete_answered [OF assms(2)] by blast
  have run: "Worker_RunOnce (wired_worker (L, S)) x (d, s) = (Inr (), ?d2, s')"
    using claim complete del nf
    by (simp add: Worker_RunOnce_def iface_simps BlobDeletionRepository_Claim_def
        BlobDeletionRepository_Complete_def run_stmt_def settle_def)
  have rest: "u \<in> set (task_tbl d)" if "u \<in> set (task_tbl ?d2)" "status u \<noteq> Completed" for u
    using that by (auto simp: set_update_task split: if_splits)
  have "drainable iv k ?d2"
    using assms(3) c2 rest unfolding drainable_def by simp
  with run c2 live1 s3_store.delete_ok [OF assms(1), unfolded iface_simps, OF del] t
  show thesis by (intro that [of ?d2 s']) (auto intro: live_idsI)
qed

lemma tick_sel [simp]:
  "live_ids (fst (tick iv st)) = live_ids (fst st)" "media_rows (fst (tick iv st)) = media_rows (fst st)"
  "db_now (fst (tick iv st)) = db_now (fst st) + iv" "snd (tick iv st) = snd st"
  by (simp_all add: tick_def live_ids_def media_rows_def)

lemma tick_drainable:
  assumes "drainable iv k d" and "0 < iv"
  shows "drainable iv (k - 1) (fst (tick iv (d, s)))"
proof -
  have "int k * iv \<le> iv + int (k - 1) * iv"
    using assms(2) by (cases k) (simp_all add: distrib_right)
  with assms(1) show ?thesis
    by (fastforce simp: drainable_def tick_def db_inv_def due_def)
qed

lemma finite_live_ids [simp]: "finite (live_ids d)"
  by (simp add: live_ids_def)

lemma drain_rounds:
  assumes "store_ok (L, S)" "s3_answers (client S) x" "0 < iv"
    and "drainable iv k d" and "k + card (live_ids d) \<le> n"
    and "rounds (wired_worker (L, S)) x iv n (d, s) = (d', s')"
  shows "live_ids d' = {} \<and> drainable iv 0 d' \<and> media_rows d' = media_rows d \<and>
         (\<forall>i. store_content (L, S) s' i = (if i \<in> live_ids d then None else store_content (L, S) s i))"
  using assms(4-)
proof (induction n arbitrary: k d s)
  case 0
  then show ?case by simp
next
  case (Suc n)
  from Suc.prems(1) have inv: "db_inv d" and nf: "db_faults d = []" "db_locked d = []"
    by (auto simp: drainable_def)
  show ?case
  proof (cases "candidate d")
    case None
    then have idle: "Worker_RunOnce (wired_worker (L, S)) x (d, s) = (Inr (), d, s)"
      by (rule round_idle [OF nf(1)])
    have le: "k - 1 + card (live_ids d) \<le> n"
    proof (cases k)
      case 0
      have "live_ids d = {}"
      proof (rule ccontr)
        assume "live_ids d \<noteq> {}"
        then obtain t where t: "t \<in> set (task_tbl d)" "status t \<noteq> Completed" by (auto simp: live_ids_def)
        with Suc.prems(1) 0 have "eligible d t" by (simp add: eligible_due [OF inv] drainable_def)
        with None t(1) nf(2) show False by (simp add: candidate_None_iff)
      qed
      with 0 show ?thesis by simp
    qed (use Suc.prems(2) in simp)
    have r: "rounds (wired_worker (L, S)) x iv n (fst (tick iv (d, s)), s) = (d', s')"
      using Suc.prems(3) idle by (simp add: tick_def)
    from Suc.IH [OF tick_drainable [OF Suc.prems(1) assms(3)] _ r] le show ?thesis by simp
  next
    case (Some t)
    from assms(1,2) Suc.prems(1) Some obtain d1 s1 where
      run: "Worker_RunOnce (wired_worker (L, S)) x (d, s) = (Inr (), d1, s1)"
      and d1: "drainable iv k d1" "media_rows d1 = media_rows d"
      "live_ids d1 = live_ids d - {media_id t}" "media_id t \<in> live_ids d"
      "store_content (L, S) s1 = (store_content (L, S) s)(media_id t := None)"
      by (rule round_work)
    have le: "k - 1 + card (live_ids d1) \<le> n"
      using d1(3,4) Suc.prems(2) card_Suc_Diff1 [OF finite_live_ids d1(4)] by simp
    have r: "rounds (wired_worker (L, S)) x iv n (fst (tick iv (d1, s1)), s1) = (d', s')"
      using Suc.prems(3) run by (simp add: tick_def)
    from Suc.IH [OF tick_drainable [OF d1(1) assms(3)] _ r] le d1 show ?thesis by simp
  qed
qed

end
