(* ===== verification/Concurrency.thy ===== *)
theory Concurrency
  imports Media_Repository Blob_Worker
begin

text \<open>
  Requests and workers running at the same time. Each request to S3 and each statement to
  PostgreSQL is one step; between two of them any other request or worker may run, and a
  request may disappear at any point (a crash). The threads are the operations of
  \<^verbatim>\<open>repository.go\<close> (\<open>request_step\<close>) and \<^verbatim>\<open>blob_worker.go\<close> (\<open>worker_step\<close>) between their
  calls; what the code does not decide is in \<open>env_step\<close>. The steps have no guards beyond the
  code's own; what is assumed of a run is a separate relation (\<open>careful\<close>). The storage contract
  is proved on an abstract machine over rows, contents and deletion tasks, which the careful
  runs of the code refine.
\<close>

section \<open>Threads\<close>

text \<open>
  \<open>Uploading\<close>: before the \<open>Put\<close> of \<open>Create\<close>. \<open>Inserting\<close>: the content is stored, before the
  insert. \<open>CleaningUp\<close>: the insert failed, before the compensating delete. \<open>Deleting\<close>: the
  rows are gone, the content of these ids is still to be deleted. The last three are a worker
  between claiming a task, deleting its content, and reporting.
\<close>

datatype thread =
    Uploading Media bytes
  | Inserting Media bytes
  | CleaningUp uuid
  | Deleting "uuid list"
  | WorkerClaimed uuid
  | WorkerDeleted uuid
  | WorkerFailed uuid error

text \<open>The ids whose content a thread has put and not yet handed over to a row.\<close>

fun owner :: "thread \<Rightarrow> uuid list" where
  "owner (Inserting m b) = [ID m]"
| "owner (CleaningUp i) = [i]"
| "owner _ = []"

definition owners :: "thread list \<Rightarrow> uuid list" where
  "owners ts = concat (map owner ts)"

lemma owners_simps [simp]:
  "owners [] = []" "owners (t # ts) = owner t @ owners ts" "owners (ts @ ts') = owners ts @ owners ts'"
  by (simp_all add: owners_def)

text \<open>The ids a thread is still deleting for: their content, or the state of their task.\<close>

fun deletes_for :: "thread \<Rightarrow> uuid set" where
  "deletes_for (Deleting is) = set is"
| "deletes_for (WorkerClaimed i) = {i}"
| "deletes_for (WorkerDeleted i) = {i}"
| "deletes_for (WorkerFailed i e) = {i}"
| "deletes_for _ = {}"

definition deleting :: "thread list \<Rightarrow> uuid set" where
  "deleting ts = (\<Union>t \<in> set ts. deletes_for t)"

lemma deleting_simps [simp]:
  "deleting [] = {}" "deleting (t # ts) = deletes_for t \<union> deleting ts" "deleting (ts @ ts') = deleting ts \<union> deleting ts'"
  by (auto simp: deleting_def)

section \<open>The abstract machine\<close>

record machine =
  a_rows :: "uuid \<rightharpoonup> Media"
  a_content :: "uuid \<rightharpoonup> bytes"
  a_live :: "uuid set"
  a_threads :: "thread list"

text \<open>The ids whose deletion is under way: an open task, or a thread that is still at it.\<close>

definition busy :: "machine \<Rightarrow> uuid set" where
  "busy a = a_live a \<union> deleting (a_threads a)"

text \<open>A delete of one object that may or may not have taken effect.\<close>

definition maybe_deleted :: "(uuid \<rightharpoonup> bytes) \<Rightarrow> uuid \<Rightarrow> (uuid \<rightharpoonup> bytes) \<Rightarrow> bool" where
  "maybe_deleted c i c' \<longleftrightarrow> c' = c \<or> c' = c(i := None)"

inductive astep :: "machine \<Rightarrow> machine \<Rightarrow> bool" where
  a_idle: "astep a a"
| a_start: "SizeBytes m = int (length b) \<Longrightarrow>
    astep a (a\<lparr>a_threads := a_threads a @ [Uploading m b]\<rparr>)"
| a_end: "a_threads a = ts @ t # us \<Longrightarrow> astep a (a\<lparr>a_threads := ts @ us\<rparr>)"
| a_put: "a_threads a = ts @ Uploading m b # us \<Longrightarrow> a_content a (ID m) = None \<Longrightarrow> ID m \<notin> busy a \<Longrightarrow>
    astep a (a\<lparr>a_content := (a_content a)(ID m \<mapsto> b), a_threads := ts @ Inserting m b # us\<rparr>)"
| a_put_lost: "a_threads a = ts @ Uploading m b # us \<Longrightarrow> a_content a (ID m) = None \<Longrightarrow> ID m \<notin> busy a \<Longrightarrow>
    astep a (a\<lparr>a_content := (a_content a)(ID m \<mapsto> b), a_threads := ts @ us\<rparr>)"
| a_insert: "a_threads a = ts @ Inserting m b # us \<Longrightarrow> inserted (a_rows a) m rows' \<Longrightarrow>
    astep a (a\<lparr>a_rows := rows', a_threads := ts @ us\<rparr>)"
| a_insert_failed: "a_threads a = ts @ Inserting m b # us \<Longrightarrow>
    astep a (a\<lparr>a_threads := ts @ CleaningUp (ID m) # us\<rparr>)"
| a_cleanup: "a_threads a = ts @ CleaningUp i # us \<Longrightarrow> maybe_deleted (a_content a) i c' \<Longrightarrow>
    astep a (a\<lparr>a_content := c', a_threads := ts @ us\<rparr>)"
| a_delete: "D \<subseteq> dom (a_rows a) \<Longrightarrow> set is \<subseteq> D \<Longrightarrow>
    astep a (a\<lparr>a_rows := removed (a_rows a) D, a_live := a_live a \<union> D,
               a_threads := a_threads a @ [Deleting is]\<rparr>)"
| a_blob: "a_threads a = ts @ Deleting (i # is) # us \<Longrightarrow> maybe_deleted (a_content a) i c' \<Longrightarrow>
    astep a (a\<lparr>a_content := c', a_threads := ts @ Deleting is # us\<rparr>)"
| a_claim: "i \<in> a_live a \<Longrightarrow>
    astep a (a\<lparr>a_threads := a_threads a @ [WorkerClaimed i]\<rparr>)"
| a_work: "a_threads a = ts @ WorkerClaimed i # us \<Longrightarrow>
    astep a (a\<lparr>a_content := (a_content a)(i := None), a_threads := ts @ WorkerDeleted i # us\<rparr>)"
| a_work_failed: "a_threads a = ts @ WorkerClaimed i # us \<Longrightarrow> maybe_deleted (a_content a) i c' \<Longrightarrow>
    astep a (a\<lparr>a_content := c', a_threads := ts @ WorkerFailed i e # us\<rparr>)"
| a_complete: "a_threads a = ts @ WorkerDeleted i # us \<Longrightarrow> live' \<subseteq> a_live a \<Longrightarrow>
    astep a (a\<lparr>a_live := live', a_threads := ts @ us\<rparr>)"
| a_retry: "a_threads a = ts @ WorkerFailed i e # us \<Longrightarrow> live' \<subseteq> a_live a \<union> {i} \<Longrightarrow>
    astep a (a\<lparr>a_live := live', a_threads := ts @ us\<rparr>)"

section \<open>The invariant\<close>

fun thread_ok :: "machine \<Rightarrow> thread \<Rightarrow> bool" where
  "thread_ok a (Uploading m b) \<longleftrightarrow> SizeBytes m = int (length b)"
| "thread_ok a (Inserting m b) \<longleftrightarrow> SizeBytes m = int (length b) \<and>
     a_content a (ID m) = Some b \<and> a_rows a (ID m) = None \<and> ID m \<notin> busy a"
| "thread_ok a (CleaningUp i) \<longleftrightarrow> a_content a i \<noteq> None \<and> a_rows a i = None \<and> i \<notin> busy a"
| "thread_ok a _ \<longleftrightarrow> True"

text \<open>\<open>contract\<close>: every row has its content, and no deletion is under way for it.\<close>

definition contract :: "machine \<Rightarrow> bool" where
  "contract a \<longleftrightarrow> stored (a_rows a) (a_content a) \<and> dom (a_rows a) \<inter> busy a = {}"

definition ainv :: "machine \<Rightarrow> bool" where
  "ainv a \<longleftrightarrow> contract a \<and> (\<forall>t \<in> set (a_threads a). thread_ok a t) \<and> distinct (owners (a_threads a))"

text \<open>What an owner has: its content, no row and no deletion.\<close>

lemma owner_ok:
  assumes "\<forall>t \<in> set ts. thread_ok a t" and "i \<in> set (owners ts)"
  shows "a_content a i \<noteq> None \<and> a_rows a i = None \<and> i \<notin> busy a"
proof -
  from assms(2) obtain t where "t \<in> set ts" "i \<in> set (owner t)" by (auto simp: owners_def)
  with assms(1) show ?thesis by (cases t) auto
qed

text \<open>
  A thread stays in order when the rows and contents of the ids it owns are as before and no
  deletion begins for them.
\<close>

lemma thread_ok_frame:
  assumes "thread_ok a t" and "\<And>i. i \<in> set (owner t) \<Longrightarrow> a_content a' i = a_content a i \<and>
      a_rows a' i = a_rows a i \<and> (i \<in> busy a' \<longrightarrow> i \<in> busy a)"
  shows "thread_ok a' t"
  using assms by (cases t) auto

lemma owner_in: "t \<in> set ts \<Longrightarrow> i \<in> set (owner t) \<Longrightarrow> i \<in> set (owners ts)"
  by (auto simp: owners_def)

lemma ainv_step:
  assumes inv: "ainv a" and old: "a_threads a = ts @ old @ us" and new: "a_threads a' = ts @ new @ us"
    and frame: "\<And>i. i \<in> set (owners (ts @ us)) \<Longrightarrow> a_content a' i = a_content a i \<and>
      a_rows a' i = a_rows a i \<and> (i \<in> busy a' \<longrightarrow> i \<in> busy a)"
    and ok: "\<forall>t \<in> set new. thread_ok a' t"
    and dist: "distinct (owners new)" "set (owners new) \<inter> set (owners (ts @ us)) = {}"
    and con: "contract a'"
  shows "ainv a'"
proof -
  from inv old have oks: "\<forall>t \<in> set (ts @ us). thread_ok a t" and "distinct (owners (ts @ us))"
    by (auto simp: ainv_def)
  moreover have "\<forall>t \<in> set (ts @ us). thread_ok a' t"
  proof
    fix t assume t: "t \<in> set (ts @ us)"
    with oks have "thread_ok a t" by blast
    then show "thread_ok a' t"
      using owner_in [OF t] frame by (rule_tac thread_ok_frame [of a]) auto
  qed
  ultimately show ?thesis using new ok dist con by (auto simp: ainv_def)
qed

text \<open>The parts of the invariant, for the steps that change one of them.\<close>

lemma ainvD:
  assumes "ainv a"
  shows "stored (a_rows a) (a_content a)" "i \<in> busy a \<Longrightarrow> a_rows a i = None"
    "t \<in> set (a_threads a) \<Longrightarrow> thread_ok a t"
    "a_threads a = ts @ t # us \<Longrightarrow> j \<in> set (owner t) \<Longrightarrow> j \<notin> set (owners (ts @ us))"
  using assms by (auto simp: ainv_def contract_def)

lemma not_owned:
  assumes "ainv a" and "a_threads a = ts @ old @ us" and "a_content a i = None \<or> i \<in> busy a \<or> a_rows a i \<noteq> None"
  shows "i \<notin> set (owners (ts @ us))"
proof
  assume i: "i \<in> set (owners (ts @ us))"
  have "\<forall>t \<in> set (ts @ us). thread_ok a t" using assms(1,2) by (auto simp: ainv_def)
  from owner_ok [OF this i] assms(3) show False by simp
qed

lemma no_row:
  assumes "ainv a" and "a_content a i = None"
  shows "a_rows a i = None"
proof (rule ccontr)
  assume "a_rows a i \<noteq> None"
  then obtain m where "a_rows a i = Some m" by blast
  with ainvD(1) [OF assms(1)] assms(2) show False unfolding stored_def by fastforce
qed

text \<open>The contract after a step, from what the step does to rows, contents and deletions.\<close>

lemma contract_shrink:
  assumes "ainv a" and "a_rows a' = a_rows a" and "busy a' \<subseteq> busy a"
    and "\<And>i m. a_rows a i = Some m \<Longrightarrow> a_content a' i = a_content a i"
  shows "contract a'"
proof -
  have "stored (a_rows a') (a_content a')"
    by (rule stored_shrink [OF ainvD(1) [OF assms(1)]]) (use assms(2,4) in auto)
  then show ?thesis using assms(1-3) by (auto simp: contract_def ainv_def)
qed

lemma contract_delete:
  assumes "ainv a" and "a_rows a i = None" and "maybe_deleted (a_content a) i c'"
    and "busy (a\<lparr>a_content := c', a_threads := ts\<rparr>) \<subseteq> busy a"
  shows "contract (a\<lparr>a_content := c', a_threads := ts\<rparr>)"
  by (rule contract_shrink [OF assms(1)]) (use assms(2-4) in \<open>auto simp: maybe_deleted_def\<close>)

lemma contract_put:
  assumes "ainv a" and "a_content a i = None" and "busy (a\<lparr>a_content := c', a_threads := ts\<rparr>) \<subseteq> busy a"
    and "c' = (a_content a)(i \<mapsto> b)"
  shows "contract (a\<lparr>a_content := c', a_threads := ts\<rparr>)"
  by (rule contract_shrink [OF assms(1)]) (use assms(3,4) no_row [OF assms(1,2)] in auto)

lemma busy_sel [simp]:
  "busy (a\<lparr>a_content := c, a_threads := ts\<rparr>) = a_live a \<union> deleting ts"
  "busy (a\<lparr>a_rows := r, a_threads := ts\<rparr>) = a_live a \<union> deleting ts"
  "busy (a\<lparr>a_live := l, a_threads := ts\<rparr>) = l \<union> deleting ts"
  "busy (a\<lparr>a_threads := ts\<rparr>) = a_live a \<union> deleting ts"
  "busy (a\<lparr>a_rows := r, a_live := l, a_threads := ts\<rparr>) = l \<union> deleting ts"
  by (simp_all add: busy_def)

lemma astep_ainv:
  assumes "astep a a'" and inv: "ainv a"
  shows "ainv a'"
  using assms(1)
proof cases
  case a_idle
  with inv show ?thesis by simp
next
  case (a_start m b)
  then have "contract a'" by (intro contract_shrink [OF inv]) (auto simp: busy_def)
  then show ?thesis
    by (intro ainv_step [OF inv, of "a_threads a" "[]" "[]" _ "[Uploading m b]"]) (use a_start in \<open>auto simp: busy_def\<close>)
next
  case (a_end ts t us)
  then have "contract a'" by (intro contract_shrink [OF inv]) (auto simp: busy_def)
  then show ?thesis
    by (intro ainv_step [OF inv, of ts "[t]" us _ "[]"]) (use a_end in \<open>auto simp: busy_def\<close>)
next
  case (a_put ts m b us)
  have fresh: "ID m \<notin> set (owners (ts @ us))"
    by (rule not_owned [OF inv, of _ "[Uploading m b]"]) (use a_put in simp_all)
  from ainvD(3) [OF inv, of "Uploading m b"] a_put(2) have size: "SizeBytes m = int (length b)" by simp
  have "contract a'" unfolding a_put(1) by (rule contract_put [OF inv a_put(3)]) (use a_put(2) in \<open>auto simp: busy_def\<close>)
  then show ?thesis
    by (intro ainv_step [OF inv, of ts "[Uploading m b]" us _ "[Inserting m b]"])
      (use a_put fresh size no_row [OF inv a_put(3)] in \<open>auto simp: busy_def\<close>)
next
  case (a_put_lost ts m b us)
  have fresh: "ID m \<notin> set (owners (ts @ us))"
    by (rule not_owned [OF inv, of _ "[Uploading m b]"]) (use a_put_lost in simp_all)
  have "contract a'" unfolding a_put_lost(1)
    by (rule contract_put [OF inv a_put_lost(3)]) (use a_put_lost(2) in \<open>auto simp: busy_def\<close>)
  then show ?thesis
    by (intro ainv_step [OF inv, of ts "[Uploading m b]" us _ "[]"]) (use a_put_lost fresh in \<open>auto simp: busy_def\<close>)
next
  case (a_insert ts m b us rows')
  from ainvD(3) [OF inv, of "Inserting m b"] a_insert(2) have th: "thread_ok a (Inserting m b)" by simp
  note own = ainvD(4) [OF inv a_insert(2), of "ID m"]
  from ainvD(1) [OF inv] a_insert(3) th have "stored rows' (a_content a)"
    by (auto simp: stored_def inserted_def same_file_def split: if_splits)
  moreover have "rows' i = None" if "i \<in> busy a" for i
    using ainvD(2) [OF inv that] a_insert(3) th that by (auto simp: inserted_def)
  ultimately have "contract a'"
    using a_insert(1,2) by (auto simp: contract_def busy_def)
  moreover have "rows' i = a_rows a i" if "i \<in> set (owners (ts @ us))" for i
    using that own inserted_lookup [OF a_insert(3), of i] by auto
  ultimately show ?thesis
    by (intro ainv_step [OF inv, of ts "[Inserting m b]" us _ "[]"]) (use a_insert in \<open>auto simp: busy_def\<close>)
next
  case (a_insert_failed ts m b us)
  from ainvD(3) [OF inv, of "Inserting m b"] a_insert_failed(2) have th: "thread_ok a (Inserting m b)" by simp
  have "contract a'" by (rule contract_shrink [OF inv]) (use a_insert_failed in \<open>auto simp: busy_def\<close>)
  then show ?thesis
    by (intro ainv_step [OF inv, of ts "[Inserting m b]" us _ "[CleaningUp (ID m)]"])
      (use a_insert_failed th ainvD(4) [OF inv a_insert_failed(2), of "ID m"] in \<open>auto simp: busy_def\<close>)
next
  case (a_cleanup ts i us c')
  from ainvD(3) [OF inv, of "CleaningUp i"] a_cleanup(2) have th: "thread_ok a (CleaningUp i)" by simp
  have "contract a'" unfolding a_cleanup(1)
    by (rule contract_delete [OF inv _ a_cleanup(3)]) (use th a_cleanup(2) in \<open>auto simp: busy_def\<close>)
  then show ?thesis
    by (intro ainv_step [OF inv, of ts "[CleaningUp i]" us _ "[]"])
      (use a_cleanup ainvD(4) [OF inv a_cleanup(2), of i] in \<open>auto simp: maybe_deleted_def busy_def\<close>)
next
  case (a_delete D "is")
  have own: "j \<notin> D" if "j \<in> set (owners (a_threads a))" for j
    using that not_owned [OF inv, of "a_threads a" "[]" "[]" j] a_delete(2) by auto
  have "stored (removed (a_rows a) D) (a_content a)"
    by (rule stored_shrink [OF ainvD(1) [OF inv]]) (auto simp: removed_Some)
  moreover have "removed (a_rows a) D i = None" if "i \<in> busy a \<union> D" for i
    using ainvD(2) [OF inv, of i] that by (auto simp: removed_def)
  ultimately have "contract a'" using a_delete(1,3) by (auto simp: contract_def busy_def)
  then show ?thesis
    by (intro ainv_step [OF inv, of "a_threads a" "[]" "[]" _ "[Deleting is]"])
      (use a_delete own in \<open>auto simp: removed_def busy_def\<close>)
next
  case (a_blob ts i "is" us c')
  then have i: "i \<in> busy a" by (simp add: busy_def)
  then have own: "i \<notin> set (owners (ts @ us))"
    by (intro not_owned [OF inv, of _ "[Deleting (i # is)]"]) (use a_blob in simp_all)
  have "contract a'" unfolding a_blob(1)
    by (rule contract_delete [OF inv ainvD(2) [OF inv i] a_blob(3)]) (use a_blob(2) in \<open>auto simp: busy_def\<close>)
  then show ?thesis
    by (intro ainv_step [OF inv, of ts "[Deleting (i # is)]" us _ "[Deleting is]"])
      (use a_blob own in \<open>auto simp: maybe_deleted_def busy_def\<close>)
next
  case (a_claim i)
  have "contract a'" by (rule contract_shrink [OF inv]) (use a_claim in \<open>auto simp: busy_def\<close>)
  then show ?thesis
    by (intro ainv_step [OF inv, of "a_threads a" "[]" "[]" _ "[WorkerClaimed i]"])
      (use a_claim in \<open>auto simp: busy_def\<close>)
next
  case (a_work ts i us)
  then have i: "i \<in> busy a" by (simp add: busy_def)
  then have own: "i \<notin> set (owners (ts @ us))"
    by (intro not_owned [OF inv, of _ "[WorkerClaimed i]"]) (use a_work in simp_all)
  have "contract a'" unfolding a_work(1)
    by (rule contract_delete [OF inv ainvD(2) [OF inv i]]) (use a_work(2) in \<open>auto simp: busy_def maybe_deleted_def\<close>)
  then show ?thesis
    by (intro ainv_step [OF inv, of ts "[WorkerClaimed i]" us _ "[WorkerDeleted i]"])
      (use a_work own in \<open>auto simp: busy_def\<close>)
next
  case (a_work_failed ts i us c' e)
  then have i: "i \<in> busy a" by (simp add: busy_def)
  then have own: "i \<notin> set (owners (ts @ us))"
    by (intro not_owned [OF inv, of _ "[WorkerClaimed i]"]) (use a_work_failed in simp_all)
  have "contract a'" unfolding a_work_failed(1)
    by (rule contract_delete [OF inv ainvD(2) [OF inv i] a_work_failed(3)]) (use a_work_failed(2) in \<open>auto simp: busy_def\<close>)
  then show ?thesis
    by (intro ainv_step [OF inv, of ts "[WorkerClaimed i]" us _ "[WorkerFailed i e]"])
      (use a_work_failed own in \<open>auto simp: maybe_deleted_def busy_def\<close>)
next
  case (a_complete ts i us live')
  have "contract a'" by (rule contract_shrink [OF inv]) (use a_complete in \<open>auto simp: busy_def\<close>)
  then show ?thesis
    by (intro ainv_step [OF inv, of ts "[WorkerDeleted i]" us _ "[]"]) (use a_complete in \<open>auto simp: busy_def\<close>)
next
  case (a_retry ts i e us live')
  have "contract a'" by (rule contract_shrink [OF inv]) (use a_retry in \<open>auto simp: busy_def\<close>)
  then show ?thesis
    by (intro ainv_step [OF inv, of ts "[WorkerFailed i e]" us _ "[]"]) (use a_retry in \<open>auto simp: busy_def\<close>)
qed

section \<open>The system\<close>

record 's sys =
  sys_db :: db
  sys_s3 :: 's
  sys_threads :: "thread list"

text \<open>
  A request: the calls of \<open>Create\<close> and of the three deletes, under any context \<open>x\<close>, with
  whatever result they have, and what the code does next. A request that has deleted the content
  of all its ids is over.
\<close>

inductive request_step :: "uuid_lib \<Rightarrow> 's Store \<Rightarrow> 's sys \<Rightarrow> 's sys \<Rightarrow> bool" for L S where
  put: "sys_threads st = ts @ Uploading m b # us \<Longrightarrow>
    Store_Put L S x (sys_s3 st) (ID m) b (ContentType m) = (r, s') \<Longrightarrow>
    request_step L S st (st\<lparr>sys_s3 := s', sys_threads := ts @ (case r of Inr _ \<Rightarrow> [Inserting m b] | Inl _ \<Rightarrow> []) @ us\<rparr>)"
| insert_ok: "sys_threads st = ts @ Inserting m b # us \<Longrightarrow>
    MediaRepository_Create x (sys_db st) m = (Inr (), d') \<Longrightarrow>
    request_step L S st (st\<lparr>sys_db := d', sys_threads := ts @ us\<rparr>)"
| insert_failed: "sys_threads st = ts @ Inserting m b # us \<Longrightarrow>
    MediaRepository_Create x (sys_db st) m = (Inl e, d') \<Longrightarrow>
    request_step L S st (st\<lparr>sys_db := d', sys_threads := ts @ CleaningUp (ID m) # us\<rparr>)"
| cleanup: "sys_threads st = ts @ CleaningUp i # us \<Longrightarrow>
    Store_Delete L S (WithoutCancel x) (sys_s3 st) i = (r, s') \<Longrightarrow>
    request_step L S st (st\<lparr>sys_s3 := s', sys_threads := ts @ us\<rparr>)"
| delete: "MediaRepository_Delete x (sys_db st) u i = (r, d') \<Longrightarrow>
    request_step L S st (st\<lparr>sys_db := d',
      sys_threads := sys_threads st @ [Deleting (case r of Inr _ \<Rightarrow> [i] | Inl _ \<Rightarrow> [])]\<rparr>)"
| delete_ids: "MediaRepository_DeleteByIDs x (sys_db st) u is = (r, d') \<Longrightarrow>
    request_step L S st (st\<lparr>sys_db := d',
      sys_threads := sys_threads st @ [Deleting (case r of Inr del \<Rightarrow> del | Inl _ \<Rightarrow> [])]\<rparr>)"
| delete_user: "MediaRepository_DeleteAllByUser x (sys_db st) u = (r, d') \<Longrightarrow>
    request_step L S st (st\<lparr>sys_db := d',
      sys_threads := sys_threads st @ [Deleting (case r of Inr del \<Rightarrow> del | Inl _ \<Rightarrow> [])]\<rparr>)"
| blob: "sys_threads st = ts @ Deleting (i # is) # us \<Longrightarrow>
    Store_Delete L S x (sys_s3 st) i = (r, s') \<Longrightarrow>
    request_step L S st (st\<lparr>sys_s3 := s', sys_threads := ts @ Deleting is # us\<rparr>)"
| blobs_end: "sys_threads st = ts @ Deleting [] # us \<Longrightarrow>
    request_step L S st (st\<lparr>sys_threads := ts @ us\<rparr>)"

text \<open>A round of the worker.\<close>

inductive worker_step :: "uuid_lib \<Rightarrow> 's Store \<Rightarrow> 's sys \<Rightarrow> 's sys \<Rightarrow> bool" for L S where
  claim: "BlobDeletionRepository_Claim x (sys_db st) = (Inr task, d') \<Longrightarrow>
    worker_step L S st (st\<lparr>sys_db := d', sys_threads := sys_threads st @ [WorkerClaimed (MediaID task)]\<rparr>)"
| claim_failed: "BlobDeletionRepository_Claim x (sys_db st) = (Inl e, d') \<Longrightarrow>
    worker_step L S st (st\<lparr>sys_db := d'\<rparr>)"
| work: "sys_threads st = ts @ WorkerClaimed i # us \<Longrightarrow>
    Store_Delete L S x (sys_s3 st) i = (Inr (), s') \<Longrightarrow>
    worker_step L S st (st\<lparr>sys_s3 := s', sys_threads := ts @ WorkerDeleted i # us\<rparr>)"
| work_failed: "sys_threads st = ts @ WorkerClaimed i # us \<Longrightarrow>
    Store_Delete L S x (sys_s3 st) i = (Inl e, s') \<Longrightarrow>
    worker_step L S st (st\<lparr>sys_s3 := s', sys_threads := ts @ WorkerFailed i e # us\<rparr>)"
| complete: "sys_threads st = ts @ WorkerDeleted i # us \<Longrightarrow>
    BlobDeletionRepository_Complete x (sys_db st) i = (r, d') \<Longrightarrow>
    worker_step L S st (st\<lparr>sys_db := d', sys_threads := ts @ us\<rparr>)"
| retry: "sys_threads st = ts @ WorkerFailed i e # us \<Longrightarrow>
    BlobDeletionRepository_Retry x (sys_db st) i e = (r, d') \<Longrightarrow>
    worker_step L S st (st\<lparr>sys_db := d', sys_threads := ts @ us\<rparr>)"

text \<open>
  What is not up to the code: an upload arrives, of a file of the recorded size as \<open>Upload\<close> makes
  it; a request or a round is cut off (a crash); time passes, locks come and go, and faults are
  drawn.
\<close>

inductive env_step :: "'s sys \<Rightarrow> 's sys \<Rightarrow> bool" where
  start: "SizeBytes m = int (length b) \<Longrightarrow>
    env_step st (st\<lparr>sys_threads := sys_threads st @ [Uploading m b]\<rparr>)"
| crash: "sys_threads st = ts @ t # us \<Longrightarrow> env_step st (st\<lparr>sys_threads := ts @ us\<rparr>)"
| outside: "env_step st (st\<lparr>sys_db := (sys_db st)\<lparr>db_now := now, db_locked := locked, db_faults := faults\<rparr>\<rparr>)"

definition code_step :: "uuid_lib \<Rightarrow> 's Store \<Rightarrow> 's sys \<Rightarrow> 's sys \<Rightarrow> bool" where
  "code_step L S st st' \<longleftrightarrow> request_step L S st st' \<or> worker_step L S st st'"

definition sys_step :: "uuid_lib \<Rightarrow> 's Store \<Rightarrow> 's sys \<Rightarrow> 's sys \<Rightarrow> bool" where
  "sys_step L S st st' \<longleftrightarrow> code_step L S st st' \<or> env_step st st'"

lemma request_run_sys: "(request_step L S)\<^sup>*\<^sup>* st st' \<Longrightarrow> (sys_step L S)\<^sup>*\<^sup>* st st'"
  by (rule rtranclp_mono [THEN predicate2D, rotated]) (auto simp: sys_step_def code_step_def)

section \<open>Careful runs\<close>

text \<open>
  The two things that break the storage contract, as conditions on one step. \<open>revives\<close>: content
  is stored anew for an id whose deletion is under way (an open task, or a request or a worker
  that is still at it). \<open>lost_insert\<close>: the insert of an upload takes effect and is reported as
  failed, because its reply was lost. The code excludes neither.
\<close>

definition busy_ids :: "'s sys \<Rightarrow> uuid set" where
  "busy_ids st = live_ids (sys_db st) \<union> deleting (sys_threads st)"

definition revives :: "uuid_lib \<times> 's Store \<Rightarrow> 's sys \<Rightarrow> 's sys \<Rightarrow> bool" where
  "revives c st st' \<longleftrightarrow>
     (\<exists>i \<in> busy_ids st. store_content c (sys_s3 st) i = None \<and> store_content c (sys_s3 st') i \<noteq> None)"

definition lost_insert :: "'s sys \<Rightarrow> 's sys \<Rightarrow> bool" where
  "lost_insert st st' \<longleftrightarrow>
     (\<exists>m b x e d'. Inserting m b \<in> set (sys_threads st) \<and>
        MediaRepository_Create x (sys_db st) m = (Inl e, d') \<and>
        media_rows d' \<noteq> media_rows (sys_db st) \<and> sys_db st' = d')"

definition careful_step :: "uuid_lib \<Rightarrow> 's Store \<Rightarrow> 's sys \<Rightarrow> 's sys \<Rightarrow> bool" where
  "careful_step L S st st' \<longleftrightarrow> sys_step L S st st' \<and> \<not> revives (L, S) st st' \<and> \<not> lost_insert st st'"

section \<open>Careful runs refine the abstract machine\<close>

definition abs_sys :: "uuid_lib \<times> 's Store \<Rightarrow> 's sys \<Rightarrow> machine" where
  "abs_sys c st =
     \<lparr> a_rows = media_rows (sys_db st), a_content = store_content c (sys_s3 st),
       a_live = live_ids (sys_db st), a_threads = sys_threads st \<rparr>"

lemma abs_sys_sel [simp]:
  "a_rows (abs_sys c st) = media_rows (sys_db st)" "a_content (abs_sys c st) = store_content c (sys_s3 st)"
  "a_live (abs_sys c st) = live_ids (sys_db st)" "a_threads (abs_sys c st) = sys_threads st"
  "busy (abs_sys c st) = busy_ids st"
  by (simp_all add: abs_sys_def busy_def busy_ids_def)

lemma env_frame [simp]:
  "media_rows (d\<lparr>db_now := n, db_locked := l\<rparr>) = media_rows d"
  "task_ids (d\<lparr>db_now := n, db_locked := l\<rparr>) = task_ids d"
  "live_ids (d\<lparr>db_now := n, db_locked := l\<rparr>) = live_ids d"
  "db_inv (d\<lparr>db_now := n, db_locked := l\<rparr>) = db_inv d"
  by (simp_all add: media_rows_def task_ids_def live_ids_def db_inv_def)

lemma store_delete_maybe:
  assumes "store_ok (L, S)" and "Store_Delete L S x s i = (r, s')"
  shows "maybe_deleted (store_content (L, S) s) i (store_content (L, S) s')"
  using s3_store.delete_result [OF assms(1), unfolded iface_simps, OF assms(2)] by (simp add: maybe_deleted_def)

lemma request_step_db_inv:
  assumes "request_step L S st st'" and "db_inv (sys_db st)"
  shows "db_inv (sys_db st')"
  using assms(1)
proof cases
  case (insert_ok ts m b us x d')
  with media_table.create_frame [OF assms(2), unfolded iface_simps, of x m] show ?thesis by simp
next
  case (insert_failed ts m b us x e d')
  with media_table.create_frame [OF assms(2), unfolded iface_simps, of x m] show ?thesis by simp
next
  case (delete x u i r d')
  with media_table.delete_all_or_nothing [OF assms(2), unfolded iface_simps, of x u i] show ?thesis by simp
next
  case (delete_ids x u "is" r d')
  with media_table.delete_ids_all_or_nothing [OF assms(2), unfolded iface_simps, of x u "is"] show ?thesis by simp
next
  case (delete_user x u r d')
  with media_table.delete_user_all_or_nothing [OF assms(2), unfolded iface_simps, of x u] show ?thesis by simp
qed (use assms(2) in simp_all)

text \<open>A step of the worker changes no row.\<close>

lemma worker_step_frame:
  assumes "worker_step L S st st'" and "db_inv (sys_db st)"
  shows "db_inv (sys_db st') \<and> media_rows (sys_db st') = media_rows (sys_db st)"
  using assms(1)
proof cases
  case (claim x task d')
  with Claim_cases [OF assms(2)] show ?thesis by simp
next
  case (claim_failed x e d')
  with Claim_cases [OF assms(2)] show ?thesis by simp
next
  case (complete ts i us x r d')
  with Complete_cases [OF assms(2)] show ?thesis by simp
next
  case (retry ts i e us x r d')
  with Retry_cases [OF assms(2)] show ?thesis by simp
qed (use assms(2) in simp_all)

lemma env_step_frame:
  assumes "env_step st st'"
  shows "db_inv (sys_db st') = db_inv (sys_db st) \<and> media_rows (sys_db st') = media_rows (sys_db st) \<and>
         live_ids (sys_db st') = live_ids (sys_db st) \<and> sys_s3 st' = sys_s3 st"
  using assms by cases simp_all

lemma sys_step_db_inv:
  assumes "sys_step L S st st'" and "db_inv (sys_db st)"
  shows "db_inv (sys_db st')"
  using assms request_step_db_inv worker_step_frame env_step_frame unfolding sys_step_def code_step_def by metis

lemma owned_dom: "owned_ids rows u \<subseteq> dom rows"
  by (auto simp: owned_ids_def)

lemma delete_refines:
  assumes "D \<subseteq> owned_ids (media_rows (sys_db st)) u" and "set is \<subseteq> D"
    and "media_rows d' = removed (media_rows (sys_db st)) D" "live_ids d' = live_ids (sys_db st) \<union> D"
  shows "astep (abs_sys c st) (abs_sys c (st\<lparr>sys_db := d', sys_threads := sys_threads st @ [Deleting is]\<rparr>))"
proof -
  from assms(1) owned_dom have "D \<subseteq> dom (media_rows (sys_db st))" by blast
  with a_delete [of D "abs_sys c st" "is"] assms show ?thesis by (simp add: abs_sys_def)
qed

lemma request_refines:
  assumes "request_step L S st st'" and ok: "store_ok (L, S)" and inv: "db_inv (sys_db st)"
    and careful: "\<not> revives (L, S) st st'" "\<not> lost_insert st st'"
  shows "astep (abs_sys (L, S) st) (abs_sys (L, S) st')"
  using assms(1)
proof cases
  case (put ts m b us x r s')
  have free: "ID m \<notin> busy_ids st"
    if "store_content (L, S) (sys_s3 st) (ID m) = None" "store_content (L, S) s' = (store_content (L, S) (sys_s3 st))(ID m \<mapsto> b)"
    using careful(1) that put(1) by (auto simp: revives_def)
  show ?thesis
  proof (cases r)
    case (Inr u)
    from Store_put_ok [OF ok put(3) [unfolded Inr]] free put Inr
      a_put [of "abs_sys (L, S) st" ts m b us] show ?thesis by (simp add: abs_sys_def busy_def busy_ids_def)
  next
    case (Inl e)
    from Store_put_err [OF ok put(3) [unfolded Inl]]
    consider "store_content (L, S) s' = store_content (L, S) (sys_s3 st)"
      | "store_content (L, S) (sys_s3 st) (ID m) = None"
        "store_content (L, S) s' = (store_content (L, S) (sys_s3 st))(ID m \<mapsto> b)" by (elim disjE conjE)
    then show ?thesis
      using put Inl a_end [of "abs_sys (L, S) st" ts "Uploading m b" us] free
        a_put_lost [of "abs_sys (L, S) st" ts m b us]
      by cases (simp_all add: abs_sys_def busy_def busy_ids_def)
  qed
next
  case (insert_ok ts m b us x d')
  from media_table.create_ok [OF inv, unfolded iface_simps, OF insert_ok(3)]
    media_table.create_frame [OF inv, unfolded iface_simps, OF insert_ok(3)]
    a_insert [of "abs_sys (L, S) st" ts m b us "media_rows d'"] insert_ok
  show ?thesis by (simp add: abs_sys_def)
next
  case (insert_failed ts m b us x e d')
  have "Inserting m b \<in> set (sys_threads st)" using insert_failed(2) by simp
  with careful(2) insert_failed(1,3) have "media_rows d' = media_rows (sys_db st)"
    unfolding lost_insert_def by fastforce
  with media_table.create_frame [OF inv, unfolded iface_simps, OF insert_failed(3)]
    a_insert_failed [of "abs_sys (L, S) st" ts m b us] insert_failed
  show ?thesis by (simp add: abs_sys_def)
next
  case (cleanup ts i us x r s')
  with store_delete_maybe [OF ok cleanup(3)] a_cleanup [of "abs_sys (L, S) st" ts i us] show ?thesis
    by (simp add: abs_sys_def)
next
  case (delete x u i r d')
  from media_table.delete_all_or_nothing [OF inv, unfolded iface_simps, OF delete(2)] obtain D where
    D: "D \<subseteq> owned_ids (media_rows (sys_db st)) u" "media_rows d' = removed (media_rows (sys_db st)) D"
    "live_ids d' = live_ids (sys_db st) \<union> D" by blast
  show ?thesis
  proof (cases r)
    case (Inl e)
    with delete_refines [OF D(1) _ D(2,3), of "[]"] delete show ?thesis by simp
  next
    case (Inr a)
    with media_table.delete_ok [OF inv, unfolded iface_simps, of x u i a d'] delete
      delete_refines [of "{i}" st u "[i]" d'] show ?thesis by simp
  qed
next
  case (delete_ids x u "is" r d')
  from media_table.delete_ids_all_or_nothing [OF inv, unfolded iface_simps, OF delete_ids(2)] obtain D where
    D: "D \<subseteq> owned_ids (media_rows (sys_db st)) u" "media_rows d' = removed (media_rows (sys_db st)) D"
    "live_ids d' = live_ids (sys_db st) \<union> D" by blast
  show ?thesis
  proof (cases r)
    case (Inl e)
    with delete_refines [OF D(1) _ D(2,3), of "[]"] delete_ids show ?thesis by simp
  next
    case (Inr del)
    with media_table.delete_ids_ok [OF inv, unfolded iface_simps, of x u "is" del d'] delete_ids
      delete_refines [of "set del" st u del d'] show ?thesis by simp
  qed
next
  case (delete_user x u r d')
  from media_table.delete_user_all_or_nothing [OF inv, unfolded iface_simps, OF delete_user(2)] obtain D where
    D: "D \<subseteq> owned_ids (media_rows (sys_db st)) u" "media_rows d' = removed (media_rows (sys_db st)) D"
    "live_ids d' = live_ids (sys_db st) \<union> D" by blast
  show ?thesis
  proof (cases r)
    case (Inl e)
    with delete_refines [OF D(1) _ D(2,3), of "[]"] delete_user show ?thesis by simp
  next
    case (Inr del)
    with media_table.delete_user_ok [OF inv, unfolded iface_simps, of x u del d'] delete_user
      delete_refines [of "set del" st u del d'] show ?thesis by simp
  qed
next
  case (blob ts i "is" us x r s')
  with store_delete_maybe [OF ok blob(3)] a_blob [of "abs_sys (L, S) st" ts i "is" us] show ?thesis
    by (simp add: abs_sys_def)
next
  case (blobs_end ts us)
  with a_end [of "abs_sys (L, S) st" ts "Deleting []" us] show ?thesis by (simp add: abs_sys_def)
qed

lemma worker_refines:
  assumes "worker_step L S st st'" and ok: "store_ok (L, S)" and inv: "db_inv (sys_db st)"
  shows "astep (abs_sys (L, S) st) (abs_sys (L, S) st')"
  using assms(1)
proof cases
  case (claim x task d')
  with Claim_cases [OF inv claim(2)] a_claim [of "MediaID task" "abs_sys (L, S) st"]
  show ?thesis by (auto simp: abs_sys_def)
next
  case (claim_failed x e d')
  with Claim_cases [OF inv claim_failed(2)] a_idle [of "abs_sys (L, S) st"] show ?thesis
    by (simp add: abs_sys_def)
next
  case (work ts i us x s')
  with s3_store.delete_ok [OF ok, unfolded iface_simps, OF work(3)] a_work [of "abs_sys (L, S) st" ts i us]
  show ?thesis by (simp add: abs_sys_def)
next
  case (work_failed ts i us x e s')
  with store_delete_maybe [OF ok work_failed(3)] a_work_failed [of "abs_sys (L, S) st" ts i us _ e] show ?thesis
    by (simp add: abs_sys_def)
next
  case (complete ts i us x r d')
  with Complete_cases [OF inv complete(3)] a_complete [of "abs_sys (L, S) st" ts i us "live_ids d'"] show ?thesis
    by (auto simp: abs_sys_def)
next
  case (retry ts i e us x r d')
  with Retry_cases [OF inv retry(3)] a_retry [of "abs_sys (L, S) st" ts i e us "live_ids d'"] show ?thesis
    by (auto simp: abs_sys_def)
qed

lemma env_refines:
  assumes "env_step st st'"
  shows "astep (abs_sys c st) (abs_sys c st')"
  using assms
proof cases
  case (start m b)
  with a_start [of m b "abs_sys c st"] show ?thesis by (simp add: abs_sys_def)
next
  case (crash ts t us)
  with a_end [of "abs_sys c st" ts t us] show ?thesis by (simp add: abs_sys_def)
next
  case (outside now locked faults)
  with a_idle [of "abs_sys c st"] show ?thesis by (simp add: abs_sys_def)
qed

lemma careful_refines:
  assumes "careful_step L S st st'" and "store_ok (L, S)" and "db_inv (sys_db st)"
  shows "astep (abs_sys (L, S) st) (abs_sys (L, S) st')"
  using assms request_refines worker_refines env_refines
  unfolding careful_step_def sys_step_def code_step_def by blast

text \<open>Every state a careful run reaches from one where the contract holds keeps it.\<close>

lemma sys_reachable:
  assumes "(careful_step L S)\<^sup>*\<^sup>* st st'" and "store_ok (L, S)" and "db_inv (sys_db st)"
    and "ainv (abs_sys (L, S) st)"
  shows "db_inv (sys_db st') \<and> ainv (abs_sys (L, S) st')"
  using assms(1)
proof (induction rule: rtranclp_induct)
  case (step y z)
  then have "sys_step L S y z" by (simp add: careful_step_def)
  with step show ?case using sys_step_db_inv careful_refines [OF step(2) assms(2)] astep_ainv by blast
qed (use assms(3,4) in simp)

text \<open>A run that is not careful has such an event in it.\<close>

definition unsafe_event :: "uuid_lib \<Rightarrow> 's Store \<Rightarrow> 's sys \<Rightarrow> 's sys \<Rightarrow> bool" where
  "unsafe_event L S st st' \<longleftrightarrow> sys_step L S st st' \<and> (revives (L, S) st st' \<or> lost_insert st st')"

lemma careful_or_event:
  assumes "(sys_step L S)\<^sup>*\<^sup>* st st'"
  shows "(careful_step L S)\<^sup>*\<^sup>* st st' \<or>
         (\<exists>y z. (careful_step L S)\<^sup>*\<^sup>* st y \<and> unsafe_event L S y z \<and> (sys_step L S)\<^sup>*\<^sup>* z st')"
  using assms
proof (induction rule: rtranclp_induct)
  case (step y z)
  from step.IH show ?case
  proof (elim disjE exE conjE)
    assume run: "(careful_step L S)\<^sup>*\<^sup>* st y"
    show ?thesis
    proof (cases "careful_step L S y z")
      case True
      with run show ?thesis by (meson rtranclp.rtrancl_into_rtrancl)
    next
      case False
      with step(2) have "unsafe_event L S y z" by (simp add: careful_step_def unsafe_event_def)
      with run show ?thesis by blast
    qed
  next
    fix p q
    assume "(careful_step L S)\<^sup>*\<^sup>* st p" "unsafe_event L S p q" "(sys_step L S)\<^sup>*\<^sup>* q y"
    with step(2) show ?thesis by (meson rtranclp.rtrancl_into_rtrancl)
  qed
qed simp

section \<open>The operations of the code are runs of the system\<close>

definition at :: "db \<Rightarrow> 's \<Rightarrow> thread list \<Rightarrow> 's sys" where
  "at d s ts = \<lparr> sys_db = d, sys_s3 = s, sys_threads = ts \<rparr>"

lemma at_sel [simp]: "sys_db (at d s ts) = d" "sys_s3 (at d s ts) = s" "sys_threads (at d s ts) = ts"
  and at_upd [simp]: "(at d s ts)\<lparr>sys_db := d'\<rparr> = at d' s ts" "(at d s ts)\<lparr>sys_s3 := s'\<rparr> = at d s' ts"
    "(at d s ts)\<lparr>sys_threads := ts'\<rparr> = at d s ts'"
  by (simp_all add: at_def)

lemma create_runs:
  assumes "Repository_Create (wired_repo (L, S)) x w m b = (r, w')"
  shows "(request_step L S)\<^sup>*\<^sup>* (at (meta_st w) (blob_st w) (ts @ Uploading m b # us))
           (at (meta_st w') (blob_st w') (ts @ us))"
proof -
  let ?t = "ts @ Uploading m b # us"
  obtain p s1 where p: "Store_Put L S x (blob_st w) (ID m) b (ContentType m) = (p, s1)" by fastforce
  have step1: "request_step L S (at (meta_st w) (blob_st w) ?t)
      (at (meta_st w) s1 (ts @ (case p of Inr _ \<Rightarrow> [Inserting m b] | Inl _ \<Rightarrow> []) @ us))"
    using request_step.put [of "at (meta_st w) (blob_st w) ?t" ts m b us L S x p s1] p by simp
  show ?thesis
  proof (cases p)
    case (Inl e)
    with assms(1) p have "w' = w\<lparr>blob_st := s1\<rparr>"
      by (auto simp: Repository_Create_def iface_simps Let_def split: if_splits)
    with step1 Inl show ?thesis by simp
  next
    case (Inr u)
    obtain q d1 where q: "MediaRepository_Create x (meta_st w) m = (q, d1)" by fastforce
    let ?s1 = "at (meta_st w) s1 (ts @ Inserting m b # us)"
    show ?thesis
    proof (cases q)
      case (Inr v)
      with assms(1) p \<open>p = Inr u\<close> q have w': "w' = w\<lparr>meta_st := d1, blob_st := s1\<rparr>"
        by (simp add: Repository_Create_def iface_simps)
      have "request_step L S ?s1 (at d1 s1 (ts @ us))"
        using request_step.insert_ok [of ?s1 ts m b us x d1] q Inr by simp
      with step1 \<open>p = Inr u\<close> w' show ?thesis by (simp add: rtranclp.rtrancl_into_rtrancl)
    next
      case (Inl e)
      obtain q' s2 where q': "Store_Delete L S (WithoutCancel x) s1 (ID m) = (q', s2)" by fastforce
      with assms(1) p \<open>p = Inr u\<close> q Inl have w': "meta_st w' = d1" "blob_st w' = s2"
        by (auto simp: Repository_Create_def iface_simps Let_def split: if_splits sum.splits)
      let ?s2 = "at d1 s1 (ts @ CleaningUp (ID m) # us)"
      have "request_step L S ?s1 ?s2"
        using request_step.insert_failed [of ?s1 ts m b us x e d1] q Inl by simp
      moreover have "request_step L S ?s2 (at d1 s2 (ts @ us))"
        using request_step.cleanup [of ?s2 ts "ID m" us L S x q' s2] q' by simp
      ultimately show ?thesis using step1 \<open>p = Inr u\<close> w'
        by (simp add: rtranclp.rtrancl_into_rtrancl)
    qed
  qed
qed

lemma blobs_run:
  "(request_step L S)\<^sup>*\<^sup>* (at (meta_st w) (blob_st w) (ts @ [Deleting is]))
     (at (meta_st (delete_blobs (wired_repo (L, S)) x is w)) (blob_st (delete_blobs (wired_repo (L, S)) x is w)) ts)"
proof (induction "is" arbitrary: w)
  case Nil
  then show ?case
    using request_step.blobs_end [of "at (meta_st w) (blob_st w) (ts @ [Deleting []])" ts "[]" L S] by simp
next
  case (Cons i "is")
  obtain r s1 where r: "Store_Delete L S x (blob_st w) i = (r, s1)" by fastforce
  let ?w = "delete_blob (wired_repo (L, S)) x i w"
  from r have "meta_st ?w = meta_st w" "blob_st ?w = s1"
    by (auto simp: delete_blob_def iface_simps split: sum.splits)
  then have "request_step L S (at (meta_st w) (blob_st w) (ts @ [Deleting (i # is)]))
      (at (meta_st ?w) (blob_st ?w) (ts @ [Deleting is]))"
    using request_step.blob [of "at (meta_st w) (blob_st w) (ts @ [Deleting (i # is)])" ts i "is" "[]" L S x r s1] r by simp
  with Cons.IH [of ?w] show ?case by (simp add: converse_rtranclp_into_rtranclp)
qed

lemma delete_runs:
  assumes "Repository_Delete (wired_repo (L, S)) x w u i = (ra, w') \<or>
     Repository_DeleteByIDs (wired_repo (L, S)) x w u is = (rn, w') \<or>
     Repository_DeleteAllByUser (wired_repo (L, S)) x w u = (rn, w')"
  shows "(request_step L S)\<^sup>*\<^sup>* (at (meta_st w) (blob_st w) ts) (at (meta_st w') (blob_st w') ts)"
proof -
  have run: ?thesis if "request_step L S (at (meta_st w) (blob_st w) ts) (at d1 (blob_st w) (ts @ [Deleting del]))"
    "w' = delete_blobs (wired_repo (L, S)) x del (w\<lparr>meta_st := d1\<rparr>)" for d1 del
    using that blobs_run [of L S "w\<lparr>meta_st := d1\<rparr>" ts del x] by (simp add: converse_rtranclp_into_rtranclp)
  from assms show ?thesis
  proof (elim disjE)
    assume c: "Repository_Delete (wired_repo (L, S)) x w u i = (ra, w')"
    obtain q d1 where q: "MediaRepository_Delete x (meta_st w) u i = (q, d1)" by fastforce
    from c q have "w' = delete_blobs (wired_repo (L, S)) x (case q of Inr _ \<Rightarrow> [i] | Inl _ \<Rightarrow> []) (w\<lparr>meta_st := d1\<rparr>)"
      by (auto simp: Repository_Delete_def iface_simps split: sum.splits)
    with run request_step.delete [of x "at (meta_st w) (blob_st w) ts" u i q d1 L S] q show ?thesis by simp
  next
    assume c: "Repository_DeleteByIDs (wired_repo (L, S)) x w u is = (rn, w')"
    obtain q d1 where q: "MediaRepository_DeleteByIDs x (meta_st w) u is = (q, d1)" by fastforce
    from c q have "w' = delete_blobs (wired_repo (L, S)) x (case q of Inr del \<Rightarrow> del | Inl _ \<Rightarrow> []) (w\<lparr>meta_st := d1\<rparr>)"
      by (auto simp: Repository_DeleteByIDs_def iface_simps split: sum.splits)
    with run request_step.delete_ids [of x "at (meta_st w) (blob_st w) ts" u "is" q d1 L S] q show ?thesis by simp
  next
    assume c: "Repository_DeleteAllByUser (wired_repo (L, S)) x w u = (rn, w')"
    obtain q d1 where q: "MediaRepository_DeleteAllByUser x (meta_st w) u = (q, d1)" by fastforce
    from c q have "w' = delete_blobs (wired_repo (L, S)) x (case q of Inr del \<Rightarrow> del | Inl _ \<Rightarrow> []) (w\<lparr>meta_st := d1\<rparr>)"
      by (auto simp: Repository_DeleteAllByUser_def iface_simps split: sum.splits)
    with run request_step.delete_user [of x "at (meta_st w) (blob_st w) ts" u q d1 L S] q show ?thesis by simp
  qed
qed

lemma round_runs:
  assumes "Worker_RunOnce (wired_worker (L, S)) x (d, s) = (r, d', s')"
  shows "(worker_step L S)\<^sup>*\<^sup>* (at d s ts) (at d' s' ts)"
proof -
  obtain p d1 where p: "BlobDeletionRepository_Claim x d = (p, d1)" by fastforce
  show ?thesis
  proof (cases p)
    case (Inl e)
    with assms p have "d' = d1" "s' = s" by (auto simp: Worker_RunOnce_def iface_simps split: if_splits)
    then show ?thesis using worker_step.claim_failed [of x "at d s ts" e d1 L S] p Inl by simp
  next
    case (Inr task)
    let ?i = "MediaID task"
    have step1: "worker_step L S (at d s ts) (at d1 s (ts @ [WorkerClaimed ?i]))"
      using worker_step.claim [of x "at d s ts" task d1 L S] p Inr by simp
    obtain q s1 where q: "Store_Delete L S x s ?i = (q, s1)" by fastforce
    show ?thesis
    proof (cases q)
      case (Inl e)
      obtain r3 d3 where r3: "BlobDeletionRepository_Retry x d1 ?i e = (r3, d3)" by fastforce
      with assms p Inr q Inl have "d' = d3" "s' = s1" by (auto simp: Worker_RunOnce_def iface_simps)
      moreover have "worker_step L S (at d1 s (ts @ [WorkerClaimed ?i])) (at d1 s1 (ts @ [WorkerFailed ?i e]))"
        using worker_step.work_failed [of "at d1 s (ts @ [WorkerClaimed ?i])" ts ?i "[]" L S x e s1] q Inl by simp
      moreover have "worker_step L S (at d1 s1 (ts @ [WorkerFailed ?i e])) (at d3 s1 ts)"
        using worker_step.retry [of "at d1 s1 (ts @ [WorkerFailed ?i e])" ts ?i e "[]" x r3 d3] r3 by simp
      ultimately show ?thesis using step1 by (simp add: rtranclp.rtrancl_into_rtrancl)
    next
      case (Inr v)
      obtain r3 d3 where r3: "BlobDeletionRepository_Complete x d1 ?i = (r3, d3)" by fastforce
      with assms p \<open>p = Inr task\<close> q Inr have "d' = d3" "s' = s1" by (auto simp: Worker_RunOnce_def iface_simps)
      moreover have "worker_step L S (at d1 s (ts @ [WorkerClaimed ?i])) (at d1 s1 (ts @ [WorkerDeleted ?i]))"
        using worker_step.work [of "at d1 s (ts @ [WorkerClaimed ?i])" ts ?i "[]" L S x s1] q Inr by simp
      moreover have "worker_step L S (at d1 s1 (ts @ [WorkerDeleted ?i])) (at d3 s1 ts)"
        using worker_step.complete [of "at d1 s1 (ts @ [WorkerDeleted ?i])" ts ?i "[]" x r3 d3] r3 by simp
      ultimately show ?thesis using step1 by (simp add: rtranclp.rtrancl_into_rtrancl)
    qed
  qed
qed

end
