(* ===== verification/Memory_S3.thy ===== *)
theory Memory_S3
  imports Blob_Store
begin

text \<open>
  Concrete instances of the two libraries the blob store is parametrised by, for the
  witnesses: a UUID library that prints the 128 bits and accepts nothing shorter or longer, and a bucket kept in memory that
  answers as S3 documents and, under the contexts selected by \<open>faulty\<close>, loses requests or
  replies as a list of faults says. Both are shown to behave as documented.
\<close>

section \<open>A UUID library\<close>

definition mem_uuid :: uuid_lib where
  "mem_uuid =
     \<lparr> uuid_Parse = (\<lambda>s. if length s = 128 then Some (horner_sum of_bool 2 (map (\<lambda>c. c = CHR ''1'') s)) else None),
       uuid_String = (\<lambda>u. map (\<lambda>n. if bit u n then CHR ''1'' else CHR ''0'') [0..<128]) \<rparr>"

lemma mem_uuid_documented [simp]: "uuid_documented mem_uuid"
proof -
  have "horner_sum of_bool 2 (map (\<lambda>n. bit u n) [0..<128]) = u" for u :: uuid
    using horner_sum_bit_eq_take_bit [of u 128] take_bit_word_eq_self [of 128 u]
    by (simp add: comp_def)
  moreover have "(\<lambda>c. c = CHR ''1'') \<circ> (\<lambda>n. if bit u n then CHR ''1'' else CHR ''0'') = (\<lambda>n. bit u n)"
    for u :: uuid
    by (simp add: fun_eq_iff)
  ultimately show ?thesis by (simp add: uuid_documented_def mem_uuid_def)
qed

lemma mem_uuid_parse [simp]:
  "uuid_Parse mem_uuid (uuid_String mem_uuid u) = Some u"
  "length s \<noteq> 128 \<Longrightarrow> uuid_Parse mem_uuid s = None"
  using mem_uuid_documented by (simp_all add: uuid_documented_def) (simp add: mem_uuid_def)

section \<open>A bucket in memory\<close>

datatype s3_fault = Answered | NotReached | ReplyLost

record mem_bucket =
  mem_objects :: "string \<Rightarrow> string \<Rightarrow> bytes option"
  mem_faults :: "s3_fault list"

definition timeout :: aws_error where
  "timeout = \<lparr>api_code = None, http_status = None, no_such_key = False, aws_msg = ''timeout''\<rparr>"

definition status_412 :: aws_error where
  "status_412 = \<lparr>api_code = Some ''PreconditionFailed'', http_status = Some 412,
     no_such_key = False, aws_msg = ''PreconditionFailed''\<rparr>"

definition status_404 :: aws_error where
  "status_404 = \<lparr>api_code = Some ''NoSuchKey'', http_status = Some 404,
     no_such_key = True, aws_msg = ''NoSuchKey''\<rparr>"

definition mem_call ::
    "(ctx \<Rightarrow> bool) \<Rightarrow> ctx \<Rightarrow> mem_bucket \<Rightarrow> (mem_bucket \<Rightarrow> (aws_error + 'a) \<times> mem_bucket) \<Rightarrow>
     (aws_error + 'a) \<times> mem_bucket" where
  "mem_call faulty x s f =
     (if faulty x
      then (case mem_faults s of
              [] \<Rightarrow> f s
            | Answered # fs \<Rightarrow> f (s\<lparr>mem_faults := fs\<rparr>)
            | NotReached # fs \<Rightarrow> (Inl timeout, s\<lparr>mem_faults := fs\<rparr>)
            | ReplyLost # fs \<Rightarrow> (Inl timeout, snd (f (s\<lparr>mem_faults := fs\<rparr>))))
      else f s)"

definition mem_put :: "PutObjectInput \<Rightarrow> mem_bucket \<Rightarrow> (aws_error + unit) \<times> mem_bucket" where
  "mem_put p s =
     (if poi_IfNoneMatch p = Some ''*'' \<and> mem_objects s (poi_Bucket p) (poi_Key p) \<noteq> None
      then (Inl status_412, s)
      else (Inr (), s\<lparr>mem_objects :=
              set_object (mem_objects s) (poi_Bucket p) (poi_Key p) (Some (poi_Body p))\<rparr>))"

definition mem_get :: "string \<Rightarrow> string \<Rightarrow> mem_bucket \<Rightarrow> (aws_error + (string + bytes)) \<times> mem_bucket" where
  "mem_get b k s =
     (case mem_objects s b k of None \<Rightarrow> (Inl status_404, s) | Some body \<Rightarrow> (Inr (Inr body), s))"

definition mem_delete :: "string \<Rightarrow> string \<Rightarrow> mem_bucket \<Rightarrow> (aws_error + unit) \<times> mem_bucket" where
  "mem_delete b k s = (Inr (), s\<lparr>mem_objects := set_object (mem_objects s) b k None\<rparr>)"

definition mem_s3 :: "(ctx \<Rightarrow> bool) \<Rightarrow> mem_bucket s3_client" where
  "mem_s3 faulty =
     \<lparr> PutObject = (\<lambda>x s p. mem_call faulty x s (mem_put p)),
       GetObject = (\<lambda>x s b k. mem_call faulty x s (mem_get b k)),
       DeleteObject = (\<lambda>x s b k. mem_call faulty x s (mem_delete b k)),
       HeadBucket = (\<lambda>x s b. mem_call faulty x s (\<lambda>s. (Inr (), s))),
       Objects = mem_objects \<rparr>"

definition mem_store :: "(ctx \<Rightarrow> bool) \<Rightarrow> mem_bucket Store" where
  "mem_store faulty = \<lparr>client = mem_s3 faulty, bucket = ''beebase''\<rparr>"

definition empty_bucket :: mem_bucket where
  "empty_bucket = \<lparr>mem_objects = (\<lambda>_ _. None), mem_faults = []\<rparr>"

lemmas mem_s3_defs = mem_call_def mem_put_def mem_get_def mem_delete_def timeout_def status_412_def
  status_404_def empty_bucket_def

lemma mem_s3_sel [simp]:
  "PutObject (mem_s3 F) x s p = mem_call F x s (mem_put p)"
  "GetObject (mem_s3 F) x s b k = mem_call F x s (mem_get b k)"
  "DeleteObject (mem_s3 F) x s b k = mem_call F x s (mem_delete b k)"
  "HeadBucket (mem_s3 F) x s b = mem_call F x s (\<lambda>s. (Inr (), s))"
  "Objects (mem_s3 F) = mem_objects"
  by (simp_all add: mem_s3_def)

lemma mem_store_sel [simp]:
  "client (mem_store F) = mem_s3 F" "bucket (mem_store F) = ''beebase''"
  by (simp_all add: mem_store_def)

lemma mem_call_cases:
  assumes "mem_call F x s f = (r, s')"
  obtains (answered) s1 where "mem_objects s1 = mem_objects s" "f s1 = (r, s')"
  | (lost) "r = Inl timeout" "mem_objects s' = mem_objects s"
  | (reply) s1 r1 where "mem_objects s1 = mem_objects s" "f s1 = (r1, s')" "r = Inl timeout"
proof (cases "F x")
  case True
  show thesis
  proof (cases "mem_faults s")
    case Nil
    with assms True show thesis by (intro answered) (auto simp: mem_call_def)
  next
    case (Cons a fs)
    with assms True answered [of "s\<lparr>mem_faults := fs\<rparr>"] lost
      reply [of "s\<lparr>mem_faults := fs\<rparr>" "fst (f (s\<lparr>mem_faults := fs\<rparr>))"]
    show thesis by (cases a) (auto simp: mem_call_def prod_eq_iff)
  qed
next
  case False
  with assms show thesis by (intro answered) (auto simp: mem_call_def)
qed

lemma mem_s3_documented [simp]: "s3_documented (mem_s3 F)"
proof -
  have "s3_put_documented (mem_s3 F)"
    unfolding s3_put_documented_def mem_s3_sel
    by (intro allI impI, erule mem_call_cases)
      (auto simp: mem_put_def timeout_def status_412_def precondition_failed_def split: if_splits)
  moreover have "s3_get_documented (mem_s3 F)"
    unfolding s3_get_documented_def mem_s3_sel
    by (intro allI impI, erule mem_call_cases)
      (auto simp: mem_get_def timeout_def status_404_def split: option.splits)
  moreover have "s3_delete_documented (mem_s3 F)"
    unfolding s3_delete_documented_def mem_s3_sel
    by (intro allI impI, erule mem_call_cases) (auto simp: mem_delete_def timeout_def)
  ultimately show ?thesis by (simp add: s3_documented_def)
qed

lemma mem_store_ok [simp]: "store_ok (mem_uuid, mem_store F)"
  by (simp add: store_ok_def)

lemma mem_s3_answers: "\<not> F x \<Longrightarrow> s3_answers (mem_s3 F) x"
  by (simp add: s3_answers_def mem_call_def mem_put_def mem_get_def mem_delete_def)

lemma mem_key_inject [simp]: "ObjectKey mem_uuid i = ObjectKey mem_uuid j \<longleftrightarrow> i = j"
  by (simp add: ObjectKey_inject)

end
