(* ===== verification/Storage_Properties.thy ===== *)
theory Storage_Properties
  imports Memory_S3 Media_Repository Blob_Worker
begin

text \<open>
  What the storage layer guarantees: the blob store, the two PostgreSQL repositories, the
  composite repository over both, and the deletion worker, each property with a run of the
  code on concrete tables and a bucket in memory.
\<close>

section \<open>Concrete tables for the witnesses\<close>

definition demo_db :: "Media list \<Rightarrow> task_row list \<Rightarrow> db_fault list \<Rightarrow> db" where
  "demo_db ms ts fs =
     \<lparr> media_tbl = ms, task_tbl = ts, db_now = 100 * minute, db_locked = [], db_faults = fs,
       ts_codec = (\<lambda>t. t div 1000 * 1000), text_ok = (\<lambda>s. CHR 0x00 \<notin> set s) \<rparr>"

definition demo_media :: "uuid \<Rightarrow> uuid \<Rightarrow> Media" where
  "demo_media i u = New 0 i u ''a.txt'' ''text/plain'' 2"

definition demo_task :: "uuid \<Rightarrow> task_status \<Rightarrow> nat \<Rightarrow> timestamp \<Rightarrow> timestamp option \<Rightarrow> task_row" where
  "demo_task i st n t l =
     \<lparr> media_id = i, task_user_id = 7, status = st, attempt_count = n, next_attempt_at = t,
       lease_until = l, last_error = None, task_created_at = 0, task_updated_at = 0 \<rparr>"

definition demo_content :: bytes where
  "demo_content = [104, 105]"

definition demo_bucket :: "uuid list \<Rightarrow> s3_fault list \<Rightarrow> mem_bucket" where
  "demo_bucket is fs =
     \<lparr> mem_objects = (\<lambda>b k. if b = ''beebase'' \<and> k \<in> ObjectKey mem_uuid ` set is
                             then Some demo_content else None),
       mem_faults = fs \<rparr>"

definition demo_world :: "db \<Rightarrow> mem_bucket \<Rightarrow> (db, mem_bucket) world" where
  "demo_world d s = \<lparr> meta_st = d, blob_st = s, logs = [] \<rparr>"

abbreviation demo_config :: "(ctx \<Rightarrow> bool) \<Rightarrow> uuid_lib \<times> mem_bucket Store" where
  "demo_config F \<equiv> (mem_uuid, mem_store F)"

lemma demo_sel [simp]:
  "media_tbl (demo_db ms ts fs) = ms" "task_tbl (demo_db ms ts fs) = ts"
  "db_now (demo_db ms ts fs) = 100 * minute" "db_locked (demo_db ms ts fs) = []"
  "db_faults (demo_db ms ts fs) = fs" "ts_codec (demo_db ms ts fs) = (\<lambda>t. t div 1000 * 1000)"
  "text_ok (demo_db ms ts fs) = (\<lambda>s. CHR 0x00 \<notin> set s)"
  "meta_st (demo_world d s) = d" "blob_st (demo_world d s) = s" "logs (demo_world d s) = []"
  "mem_faults (demo_bucket is sf) = sf" "length demo_content = 2"
  "ID (demo_media i u) = i" "UserID (demo_media i u) = u" "DeletedAt (demo_media i u) = None"
  "SizeBytes (demo_media i u) = 2" "Status (demo_media i u) = StatusAvailable"
  "CreatedAt (demo_media i u) = 0" "UpdatedAt (demo_media i u) = 0"
  "OriginalFilename (demo_media i u) = ''a.txt''" "ContentType (demo_media i u) = ''text/plain''"
  by (simp_all add: demo_db_def demo_world_def demo_bucket_def demo_content_def demo_media_def)

lemma demo_inv [simp]: "keyed ID ms \<Longrightarrow> db_inv (demo_db ms [] fs)"
  by (simp add: db_inv_def)

lemma demo_content_at [simp]:
  "store_content (demo_config F) (demo_bucket is fs) i = (if i \<in> set is then Some demo_content else None)"
  by (auto simp: store_content_def demo_bucket_def)

text \<open>The equations that run the repositories on the concrete tables and bucket.\<close>

lemmas demo_run =
  repository_defs store_defs media_table_defs iface_simps Let_def mem_s3_defs run_stmt_def settle_def
  insert_media_def select_media_row_def select_media_def delete_and_enqueue_def enqueue_def
  demo_bucket_def pgUniqueViolation_def set_object_def isPreconditionFailed_def store_content_def
  delete_blob_def log_error_def image_iff

lemmas demo_work =
  Worker_RunOnce_def BlobDeletionRepository_Claim_def BlobDeletionRepository_Complete_def
  BlobDeletionRepository_Retry_def claim_stmt_def candidate_def eligible_def claimed_def
  complete_stmt_def completed_def retry_stmt_def retried_def update_task_def new_task_def

section \<open>The blob store\<close>

text \<open>
  Claim C1. \<open>Put\<close> never overwrites: whatever it answers and whatever the network loses,
  every object that was stored keeps its content, no other object appears, a \<open>Put\<close> on an id
  that has content does not succeed, and \<open>ErrBlobAlreadyExists\<close> is only reported when the
  id has content.
\<close>

theorem put_never_overwrites:
  assumes "uuid_documented L" and "s3_documented (client S)"
    and "Store_Put L S x s i b ct = (r, s')"
  shows "(\<forall>j d. store_content (L, S) s j = Some d \<longrightarrow> store_content (L, S) s' j = Some d) \<and>
         (\<forall>j. j \<noteq> i \<longrightarrow> store_content (L, S) s' j = store_content (L, S) s j) \<and>
         (store_content (L, S) s i \<noteq> None \<longrightarrow> r \<noteq> Inr ()) \<and>
         (r = Inl ErrBlobAlreadyExists \<longrightarrow> store_content (L, S) s' i \<noteq> None)"
proof -
  have ok: "store_ok (L, S)" using assms(1,2) by (simp add: store_ok_def)
  have put: "bs_Put (Store_iface (L, S)) x s i b ct = (r, s')" using assms(3) by (simp add: iface_simps)
  show ?thesis
    using s3_store.put_keeps [OF ok put] s3_store.put_others [OF ok put]
      s3_store.put_ok [OF ok, of x s i b ct "()" s'] s3_store.put_exists [OF ok, of x s i b ct _ s'] put
    by (auto simp: errors_Is_refl)
qed

theorem put_never_overwrites_witness:
  "store_content (demo_config (\<lambda>_. False))
     (snd (Store_Put mem_uuid (mem_store (\<lambda>_. False)) RequestCtx (demo_bucket [1, 2] []) 1 [0] ''text/plain'')) 1 =
   Some demo_content"
  using put_never_overwrites [of mem_uuid "mem_store (\<lambda>_. False)" RequestCtx "demo_bucket [1, 2] []" 1 "[0]"
      "''text/plain''", OF _ _ prod.collapse [symmetric]]
  by simp

text \<open>
  Round trip: after a successful \<open>Put\<close>, \<open>Get\<close> returns exactly the bytes stored,
  in any context in which S3 answers.
\<close>

theorem put_get_roundtrip:
  assumes "uuid_documented L" and "s3_documented (client S)" and "s3_answers (client S) y"
    and "Store_Put L S x s i b ct = (Inr (), s')"
  shows "fst (Store_Get L S y s' i) = Inr b"
proof -
  have ok: "store_ok (L, S)" using assms(1,2) by (simp add: store_ok_def)
  from Store_put_ok [OF ok assms(4)] have "store_content (L, S) s' i = Some b" by simp
  with assms(3) show ?thesis by (rule Store_Get_answered)
qed

theorem put_get_roundtrip_witness:
  "fst (Store_Get mem_uuid (mem_store (\<lambda>_. False)) RequestCtx
     (snd (Store_Put mem_uuid (mem_store (\<lambda>_. False)) RequestCtx empty_bucket 5 [1, 2, 3] ''image/png'')) 5) =
   Inr [1, 2, 3]"
  by (rule put_get_roundtrip [of _ _ _ RequestCtx empty_bucket _ _ "''image/png''"])
    (simp_all add: mem_s3_answers Store_Put_def Let_def mem_s3_defs)

section \<open>The metadata table\<close>

text \<open>
  Claim C23. A row is returned to its owner only: \<open>GetByID\<close> on a reachable database answers
  with the row when it is the caller's and not marked deleted, and otherwise with
  \<open>ErrNotFound\<close>, the same for a row of another user as for an id that has no row.
\<close>

theorem GetByID_owner_only:
  assumes "db_inv d" and "db_faults d = []"
  shows "MediaRepository_GetByID x d u i =
           (case media_rows d i of
              None \<Rightarrow> (Inl ErrNotFound, d)
            | Some m \<Rightarrow> if UserID m = u \<and> DeletedAt m = None then (Inr m, d) else (Inl ErrNotFound, d))"
  using assms by (rule GetByID_exact)

theorem GetByID_owner_only_witness:
  "MediaRepository_GetByID RequestCtx (demo_db [demo_media 1 7, demo_media 2 8] [] []) 7 2 =
     (Inl ErrNotFound, demo_db [demo_media 1 7, demo_media 2 8] [] []) \<and>
   MediaRepository_GetByID RequestCtx (demo_db [demo_media 1 7, demo_media 2 8] [] []) 7 3 =
     (Inl ErrNotFound, demo_db [demo_media 1 7, demo_media 2 8] [] []) \<and>
   MediaRepository_GetByID RequestCtx (demo_db [demo_media 1 7, demo_media 2 8] [] []) 7 1 =
     (Inr (demo_media 1 7), demo_db [demo_media 1 7, demo_media 2 8] [] [])"
  using GetByID_owner_only [of "demo_db [demo_media 1 7, demo_media 2 8] [] []" RequestCtx 7]
  by (simp add: media_rows_def)

text \<open>
  Claim C21. Deleting rows and enqueueing the deletion of their content is one atomic step:
  whatever fails, either nothing happened or exactly the caller's targeted rows are gone and
  each of them has a deletion task still to be done; a reported success means the latter.
\<close>

theorem bulk_delete_atomic:
  assumes "db_inv d"
    and "MediaRepository_DeleteByIDs x d u is = (r, d') \<and> T = set is \<inter> owned_ids (media_rows d) u \<or>
         MediaRepository_DeleteAllByUser x d u = (r, d') \<and> T = owned_ids (media_rows d) u"
  shows "db_inv d' \<and>
         (\<exists>D \<in> {{}, T}. media_rows d' = removed (media_rows d) D \<and>
            task_ids d' = task_ids d \<union> D \<and> live_ids d' = live_ids d \<union> D) \<and>
         (\<forall>del. r = Inr del \<longrightarrow> distinct del \<and> set del = T \<and>
            media_rows d' = removed (media_rows d) T \<and> live_ids d' = live_ids d \<union> T)"
  using assms(2)
proof (elim disjE conjE)
  assume c: "MediaRepository_DeleteByIDs x d u is = (r, d')" and T: "T = set is \<inter> owned_ids (media_rows d) u"
  show ?thesis
    using media_table.delete_ids_all_or_nothing [OF assms(1), unfolded iface_simps, OF c]
      media_table.delete_ids_ok [OF assms(1), unfolded iface_simps, of x u "is"] c
    by (simp add: T)
next
  assume c: "MediaRepository_DeleteAllByUser x d u = (r, d')" and T: "T = owned_ids (media_rows d) u"
  show ?thesis
    using media_table.delete_user_all_or_nothing [OF assms(1), unfolded iface_simps, OF c]
      media_table.delete_user_ok [OF assms(1), unfolded iface_simps, of x u] c
    by (simp add: T)
qed

theorem bulk_delete_atomic_witness:
  "media_rows (snd (MediaRepository_DeleteAllByUser RequestCtx
     (demo_db [demo_media 1 7, demo_media 2 8] [] [LostAfter ''connection reset'']) 7)) 2 = Some (demo_media 2 8)"
  using bulk_delete_atomic [of "demo_db [demo_media 1 7, demo_media 2 8] [] [LostAfter ''connection reset'']"
      RequestCtx 7 "[]" _ _ "owned_ids (media_rows (demo_db [demo_media 1 7, demo_media 2 8] [] [LostAfter ''connection reset''])) 7",
      OF _ disjI2, OF _ conjI [OF prod.collapse [symmetric] refl]]
  by (auto simp: removed_def owned_ids_def media_rows_def)

section \<open>The deletion queue\<close>

lemma queue_faults:
  "candidate (d\<lparr>db_faults := fs\<rparr>) = candidate d" "eligible (d\<lparr>db_faults := fs\<rparr>) = eligible d"
  "claimed (d\<lparr>db_faults := fs\<rparr>) = claimed d"
proof -
  show e: "eligible (d\<lparr>db_faults := fs\<rparr>) = eligible d"
    by (auto simp: eligible_def fun_eq_iff split: option.splits)
  show "candidate (d\<lparr>db_faults := fs\<rparr>) = candidate d" by (simp add: candidate_def e)
  show "claimed (d\<lparr>db_faults := fs\<rparr>) = claimed d" by (simp add: claimed_def fun_eq_iff)
qed

lemma claim_row:
  assumes "db_inv d" and "BlobDeletionRepository_Claim x d = (Inr task, d')"
  shows "\<exists>t. lookup_by media_id (task_tbl d) (MediaID task) = Some t \<and>
             eligible d t \<and> media_id t \<notin> set (db_locked d) \<and>
             (\<forall>t' \<in> set (task_tbl d). eligible d t' \<longrightarrow> media_id t' \<notin> set (db_locked d) \<longrightarrow>
                (next_attempt_at t, media_id t) \<le> (next_attempt_at t', media_id t')) \<and>
             lookup_by media_id (task_tbl d') (MediaID task) =
               Some (t\<lparr>status := Processing, lease_until := Some (db_now d + 120 * second),
                       attempt_count := attempt_count t + 1, task_updated_at := db_now d\<rparr>) \<and>
             (\<forall>i. i \<noteq> MediaID task \<longrightarrow>
                lookup_by media_id (task_tbl d') i = lookup_by media_id (task_tbl d) i)"
proof -
  from assms(2) obtain fs where c: "claim_stmt (d\<lparr>db_faults := fs\<rparr>) = Inr (MediaID task, d')"
    by (auto simp: BlobDeletionRepository_Claim_def split: prod.splits sum.splits elim: run_stmt_cases)
  let ?d = "d\<lparr>db_faults := fs\<rparr>"
  from assms(1) have "db_inv ?d" by simp
  then obtain t where t: "candidate ?d = Some t" "media_id t = MediaID task"
    and d': "d' = ?d\<lparr>task_tbl := update_task (MediaID task) (claimed ?d) (task_tbl ?d)\<rparr>"
    using c by (rule claim_stmt_ok)
  note same = queue_faults [where d = d and fs = fs]
  from candidate_SomeD [of d t] t(1) same(1) have c': "t \<in> set (task_tbl d)" "eligible d t"
    "media_id t \<notin> set (db_locked d)"
    "\<forall>t' \<in> set (task_tbl d). eligible d t' \<longrightarrow> media_id t' \<notin> set (db_locked d) \<longrightarrow>
            (next_attempt_at t, media_id t) \<le> (next_attempt_at t', media_id t')" by auto
  have look: "lookup_by media_id (task_tbl d) (MediaID task) = Some t"
    using assms(1) c'(1) t(2) by (simp add: db_inv_def lookup_by_Some_iff)
  have upd: "lookup_by media_id (task_tbl d') i =
      map_option (\<lambda>t. if media_id t = MediaID task then claimed d t else t) (lookup_by media_id (task_tbl d) i)" for i
    unfolding d' update_task_def same by (simp add: lookup_by_map)
  have "lookup_by media_id (task_tbl d') i = lookup_by media_id (task_tbl d) i" if "i \<noteq> MediaID task" for i
    using that by (cases "lookup_by media_id (task_tbl d) i") (auto simp: upd dest: lookup_by_SomeD)
  moreover have "lookup_by media_id (task_tbl d') (MediaID task) = Some (claimed d t)"
    using upd [of "MediaID task"] look t(2) by simp
  ultimately show ?thesis using look c'(2-4)
    by (intro exI [of _ t]) (simp add: claimed_def BlobDeletionLease_def)
qed

text \<open>
  Claim C18. \<open>Claim\<close> takes the due task that has waited longest: the task it returns is due
  (pending with its time come, or processing with an expired lease), no other session holds
  it, and no other such task comes before it by (next attempt, id). It is left processing,
  under a lease of two minutes from now, with one more attempt counted, and no other row
  changes.
\<close>

theorem claim_takes_oldest_due:
  assumes "db_inv d" and "BlobDeletionRepository_Claim x d = (Inr task, d')"
  shows "\<exists>t. lookup_by media_id (task_tbl d) (MediaID task) = Some t \<and>
             eligible d t \<and> media_id t \<notin> set (db_locked d) \<and>
             (\<forall>t' \<in> set (task_tbl d). eligible d t' \<longrightarrow> media_id t' \<notin> set (db_locked d) \<longrightarrow>
                (next_attempt_at t, media_id t) \<le> (next_attempt_at t', media_id t')) \<and>
             lookup_by media_id (task_tbl d') (MediaID task) =
               Some (t\<lparr>status := Processing, lease_until := Some (db_now d + 120 * second),
                       attempt_count := attempt_count t + 1, task_updated_at := db_now d\<rparr>) \<and>
             (\<forall>i. i \<noteq> MediaID task \<longrightarrow>
                lookup_by media_id (task_tbl d') i = lookup_by media_id (task_tbl d) i)"
  using assms by (rule claim_row)

definition demo_queue :: db where
  "demo_queue = demo_db []
     [demo_task 1 Pending 0 (90 * minute) None, demo_task 2 Processing 1 (80 * minute) (Some (99 * minute)),
      demo_task 3 Completed 1 0 None] []"

definition demo_queue' :: db where
  "demo_queue' = demo_db []
     [demo_task 1 Pending 0 (90 * minute) None,
      (demo_task 2 Processing 2 (80 * minute) (Some (102 * minute)))\<lparr>task_updated_at := 100 * minute\<rparr>,
      demo_task 3 Completed 1 0 None] []"

lemmas demo_queue_simps = demo_queue_def demo_queue'_def demo_task_def demo_db_def

lemma demo_queue_live: "live_ids demo_queue = {1, 2}"
  by (auto simp: live_ids_alt demo_queue_simps)

lemma demo_queue_inv: "db_inv demo_queue"
  by (simp add: demo_queue_simps db_inv_def)

lemma demo_claim: "BlobDeletionRepository_Claim RequestCtx demo_queue = (Inr \<lparr>MediaID = 2\<rparr>, demo_queue')"
  by (simp add: BlobDeletionRepository_Claim_def run_stmt_def settle_def claim_stmt_def candidate_def
      eligible_def claimed_def update_task_def BlobDeletionLease_def demo_queue_simps)

theorem claim_takes_oldest_due_witness:
  "\<exists>t. lookup_by media_id (task_tbl demo_queue) 2 = Some t \<and> eligible demo_queue t \<and>
       (next_attempt_at t, media_id t) \<le> (90 * minute, 1)"
  using claim_takes_oldest_due [of demo_queue RequestCtx "\<lparr>MediaID = 2\<rparr>", OF _ demo_claim]
  by (auto simp: demo_queue_simps db_inv_def eligible_def)

text \<open>
  Claim C19. The lease excludes a second worker: as long as the row of a claimed task is not
  touched and its two minutes have not passed, no \<open>Claim\<close> by anyone returns that task again;
  once they have passed, the task is due again, so a worker that died does not strand it.
\<close>

theorem lease_excludes:
  assumes "db_inv d" and "BlobDeletionRepository_Claim x d = (Inr task, d1)"
    and "db_inv d2"
    and "lookup_by media_id (task_tbl d2) (MediaID task) = lookup_by media_id (task_tbl d1) (MediaID task)"
  shows "(db_now d2 \<le> db_now d + 120 * second \<longrightarrow>
            (\<forall>task' d3. BlobDeletionRepository_Claim y d2 = (Inr task', d3) \<longrightarrow> MediaID task' \<noteq> MediaID task)) \<and>
         (db_now d2 > db_now d + 120 * second \<longrightarrow>
            (\<exists>t. lookup_by media_id (task_tbl d2) (MediaID task) = Some t \<and> eligible d2 t))"
proof -
  from claim_row [OF assms(1,2)] assms(4) obtain t where
    t: "lookup_by media_id (task_tbl d2) (MediaID task) = Some t"
    "status t = Processing" "lease_until t = Some (db_now d + 120 * second)"
    by fastforce
  have "MediaID task' \<noteq> MediaID task"
    if "db_now d2 \<le> db_now d + 120 * second" "BlobDeletionRepository_Claim y d2 = (Inr task', d3)" for task' d3
  proof
    assume "MediaID task' = MediaID task"
    with claim_row [OF assms(3) that(2)] t(1) have "eligible d2 t" by auto
    with t that(1) show False by (simp add: eligible_def)
  qed
  with t show ?thesis by (auto simp: eligible_def)
qed

theorem lease_excludes_witness:
  "\<not> (\<exists>d3. BlobDeletionRepository_Claim RequestCtx (demo_queue'\<lparr>db_now := 101 * minute\<rparr>) = (Inr \<lparr>MediaID = 2\<rparr>, d3))"
  using lease_excludes [of demo_queue RequestCtx "\<lparr>MediaID = 2\<rparr>" demo_queue' "demo_queue'\<lparr>db_now := 101 * minute\<rparr>"
      RequestCtx, OF _ demo_claim]
  by (auto simp: demo_queue_simps db_inv_def)

text \<open>
  Claim C28. A failed deletion is put back with an exponential back-off: the task is pending
  again without a lease, the reason is recorded, and it is not due before now plus \<open>2^n\<close>
  minutes, \<open>n\<close> the attempts made so far, at most 256 minutes; so the waits are between one
  and 256 minutes and never get shorter as attempts add up.
\<close>

theorem retry_backs_off:
  assumes "db_inv d" and "BlobDeletionRepository_Retry x d i e = (Inr (), d')"
    and "lookup_by media_id (task_tbl d) i = Some t"
  shows "lookup_by media_id (task_tbl d') i =
           Some (t\<lparr>status := Pending, next_attempt_at := db_now d + backoff (attempt_count t),
                   lease_until := None, last_error := Some (Error e), task_updated_at := db_now d\<rparr>) \<and>
         backoff (attempt_count t) = minute * 2 ^ min (attempt_count t) 8 \<and>
         minute \<le> backoff (attempt_count t) \<and> backoff (attempt_count t) \<le> 256 * minute \<and>
         (\<forall>n \<ge> attempt_count t. backoff (attempt_count t) \<le> backoff n)"
proof -
  from assms(2) obtain fs where "retry_stmt i (Error e) (d\<lparr>db_faults := fs\<rparr>) = Inr ((), d')"
    by (auto simp: BlobDeletionRepository_Retry_def elim: run_stmt_cases)
  then have d': "task_tbl d' = update_task i (retried (d\<lparr>db_faults := fs\<rparr>) (Error e)) (task_tbl d)"
    by (auto simp: retry_stmt_def split: if_splits)
  have "lookup_by media_id (task_tbl d') i = Some (retried (d\<lparr>db_faults := fs\<rparr>) (Error e) t)"
    using assms(3) lookup_by_SomeD [OF assms(3)] unfolding d' update_task_def by (simp add: lookup_by_map)
  moreover have "(2::int) ^ min (attempt_count t) 8 \<le> 2 ^ min n 8" if "n \<ge> attempt_count t" for n
    by (rule power_increasing) (use that in auto)
  moreover have "(1::int) \<le> 2 ^ min (attempt_count t) 8" by simp
  moreover have "backoff (attempt_count t) \<le> 256 * minute" by (simp add: backoff_def)
  ultimately show ?thesis by (simp add: backoff_eq retried_def)
qed

theorem retry_backs_off_witness:
  "minute \<le> backoff 2 \<and>
   (\<exists>t. lookup_by media_id (task_tbl (snd (BlobDeletionRepository_Retry RequestCtx demo_queue' 2 (OtherError ''timeout'')))) 2 =
          Some t \<and> next_attempt_at t = 100 * minute + backoff 2)"
  using retry_backs_off [of demo_queue' RequestCtx 2 "OtherError ''timeout''"
      "snd (BlobDeletionRepository_Retry RequestCtx demo_queue' 2 (OtherError ''timeout''))"
      "(demo_task 2 Processing 2 (80 * minute) (Some (102 * minute)))\<lparr>task_updated_at := 100 * minute\<rparr>"]
  by (simp add: demo_queue_simps db_inv_def BlobDeletionRepository_Retry_def run_stmt_def settle_def retry_stmt_def)

section \<open>The composite repository\<close>

text \<open>
  A successful \<open>Create\<close> has written both halves: the row is new and describes the
  file, and the content stored under its id is exactly the uploaded bytes, where nothing was
  stored before; no other row and no other content changes.
\<close>

theorem create_writes_both:
  assumes "store_ok c" and "db_inv (meta_st w)"
    and "Repository_Create (wired_repo c) x w m b = (Inr (), w')"
  shows "(\<exists>m'. same_file m m' \<and> media_rows (meta_st w') = (media_rows (meta_st w))(ID m \<mapsto> m')) \<and>
         media_rows (meta_st w) (ID m) = None \<and>
         store_content c (blob_st w) (ID m) = None \<and>
         store_content c (blob_st w') = (store_content c (blob_st w))(ID m \<mapsto> b)"
  using wired_create_ok [OF assms] by (auto simp: inserted_def)

theorem create_writes_both_witness:
  "store_content (demo_config (\<lambda>_. False)) (blob_st (snd (Repository_Create (wired_repo (demo_config (\<lambda>_. False)))
     RequestCtx (demo_world (demo_db [] [] []) (demo_bucket [2] [])) (demo_media 1 7) demo_content))) 1 = Some demo_content"
  using create_writes_both [of "demo_config (\<lambda>_. False)" "demo_world (demo_db [] [] []) (demo_bucket [2] [])" RequestCtx
      "demo_media 1 7" demo_content "snd (Repository_Create (wired_repo (demo_config (\<lambda>_. False)))
     RequestCtx (demo_world (demo_db [] [] []) (demo_bucket [2] [])) (demo_media 1 7) demo_content)"]
  by (simp add: demo_run)

text \<open>
  Claim C11. No orphan: when the row could not be inserted after the content was uploaded, the
  compensating delete, which runs even if the request was cancelled, leaves the stored content
  exactly as before the call, provided S3 answers under the uncancelled context; the caller
  gets the insert's error, \<open>ErrIDConflict\<close> just when the id already has a row.
\<close>

theorem create_compensates:
  assumes "store_ok (L, S)" and "db_inv (meta_st w)" and "s3_answers (client S) (WithoutCancel x)"
    and "fst (Store_Put L S x (blob_st w) (ID m) b (ContentType m)) = Inr ()"
    and "Repository_Create (wired_repo (L, S)) x w m b = (Inl e, w')"
  shows "store_content (L, S) (blob_st w') = store_content (L, S) (blob_st w) \<and> logs w' = logs w \<and>
         (errors_Is e ErrIDConflict \<longrightarrow> media_rows (meta_st w) (ID m) \<noteq> None)"
proof -
  obtain s1 where put: "Store_Put L S x (blob_st w) (ID m) b (ContentType m) = (Inr (), s1)"
    using assms(4) by (metis prod.collapse)
  obtain s2 where del: "Store_Delete L S (WithoutCancel x) s1 (ID m) = (Inr (), s2)"
    using Store_Delete_answered [OF assms(3)] by blast
  obtain q d1 where ins: "MediaRepository_Create x (meta_st w) m = (q, d1)" by fastforce
  from assms(5) put del ins obtain err where q: "q = Inl err"
    and w': "w' = w\<lparr>meta_st := d1, blob_st := s2\<rparr>"
    and e: "e = (if errors_Is err ErrIDConflict then ErrIDConflict else Wrapped ''media: create metadata'' err)"
    by (cases q) (auto simp: Repository_Create_def iface_simps Let_def split: if_splits)
  have "store_content (L, S) s1 = (store_content (L, S) (blob_st w))(ID m \<mapsto> b)"
    and none: "store_content (L, S) (blob_st w) (ID m) = None"
    using Store_put_ok [OF assms(1) put] by auto
  moreover have "store_content (L, S) s2 = (store_content (L, S) s1)(ID m := None)"
    using s3_store.delete_ok [OF assms(1), unfolded iface_simps, OF del] .
  ultimately have "store_content (L, S) s2 = store_content (L, S) (blob_st w)"
    by (metis fun_upd_triv fun_upd_upd)
  moreover have "errors_Is e ErrIDConflict \<Longrightarrow> errors_Is err ErrIDConflict"
    by (cases "errors_Is err ErrIDConflict") (simp_all add: e)
  ultimately show ?thesis
    using w' MediaRepository_Create_cases(4) [OF assms(2) ins, of err] q by auto
qed

theorem create_compensates_witness:
  "store_content (demo_config cancellable) (blob_st (snd (Repository_Create (wired_repo (demo_config cancellable)) RequestCtx
     (demo_world (demo_db [demo_media 1 8] [] []) (demo_bucket [] [])) (demo_media 1 7) demo_content))) =
   store_content (demo_config cancellable) (demo_bucket [] [])"
  using create_compensates [of mem_uuid "mem_store cancellable" "demo_world (demo_db [demo_media 1 8] [] []) (demo_bucket [] [])"
      RequestCtx "demo_media 1 7" demo_content ErrIDConflict
      "snd (Repository_Create (wired_repo (demo_config cancellable)) RequestCtx
        (demo_world (demo_db [demo_media 1 8] [] []) (demo_bucket [] [])) (demo_media 1 7) demo_content)"]
    mem_s3_answers [of cancellable "WithoutCancel RequestCtx"]
  by (simp add: demo_run)

text \<open>
  Claim C10. The storage contract: if every row has its content, of the recorded size, then so
  it is after any upload or delete, whether it succeeds or fails, with one exception: an upload
  that is reported as failed although its row was committed, which takes a database that ran
  the insert and lost the reply. Deletes have no exception.
\<close>

theorem repository_keeps_stored:
  assumes "store_ok c" and "db_inv (meta_st w)"
    and "stored (media_rows (meta_st w)) (store_content c (blob_st w))"
    and "SizeBytes m = int (length b)"
    and "Repository_Create (wired_repo c) x w m b = (ra, w') \<or>
         Repository_Delete (wired_repo c) x w u i = (ra, w') \<or>
         Repository_DeleteByIDs (wired_repo c) x w u is = (rn, w') \<or>
         Repository_DeleteAllByUser (wired_repo c) x w u = (rn, w')"
  shows "db_inv (meta_st w') \<and>
         (stored (media_rows (meta_st w')) (store_content c (blob_st w')) \<or>
          Repository_Create (wired_repo c) x w m b = (ra, w') \<and> isl ra \<and>
          media_rows (meta_st w') \<noteq> media_rows (meta_st w) \<and> \<not> no_lost_reply (meta_st w))"
  using assms(5)
proof (elim disjE)
  assume c: "Repository_Create (wired_repo c) x w m b = (ra, w')"
  have inv: "db_inv (meta_st w')" using s3_pg.create_frame [OF assms(1) wired assms(2) c] by blast
  show ?thesis
  proof (cases "ra = Inr () \<or> media_rows (meta_st w') = media_rows (meta_st w)")
    case True
    from s3_pg.create_stored [OF assms(1) wired assms(2) c assms(3,4) True] inv show ?thesis by blast
  next
    case False
    from assms(1) wired c have "\<not> no_lost_reply (meta_st w)"
    proof (cases rule: s3_pg.create_cases)
      case (compensated e s1 err d1 q)
      with Create_failed [of "meta_st w" x m err d1] False show ?thesis by (auto simp: iface_simps)
    qed (use False in simp_all)
    with False c inv show ?thesis by (cases ra) auto
  qed
next
  assume "Repository_Delete (wired_repo c) x w u i = (ra, w')"
  from s3_pg.delete_stored [OF assms(1) wired assms(2) this assms(3)] show ?thesis by blast
next
  assume "Repository_DeleteByIDs (wired_repo c) x w u is = (rn, w')"
  from s3_pg.delete_ids_stored [OF assms(1) wired assms(2) this assms(3)] show ?thesis by blast
next
  assume "Repository_DeleteAllByUser (wired_repo c) x w u = (rn, w')"
  from s3_pg.delete_user_stored [OF assms(1) wired assms(2) this assms(3)] show ?thesis by blast
qed

theorem repository_keeps_stored_witness:
  "stored (media_rows (meta_st (snd (Repository_Create (wired_repo (demo_config (\<lambda>_. False))) RequestCtx
       (demo_world (demo_db [] [] [LostBefore ''timeout'']) (demo_bucket [] [])) (demo_media 1 7) demo_content))))
     (store_content (demo_config (\<lambda>_. False)) (blob_st (snd (Repository_Create (wired_repo (demo_config (\<lambda>_. False))) RequestCtx
       (demo_world (demo_db [] [] [LostBefore ''timeout'']) (demo_bucket [] [])) (demo_media 1 7) demo_content))))"
  using repository_keeps_stored [of "demo_config (\<lambda>_. False)"
      "demo_world (demo_db [] [] [LostBefore ''timeout'']) (demo_bucket [] [])" "demo_media 1 7" demo_content RequestCtx,
      OF _ _ _ _ disjI1, OF _ _ _ _ prod.collapse [symmetric]]
  by (simp add: no_lost_reply_def stored_def media_rows_def)

text \<open>
  When the database runs the insert of an upload but its reply is lost, the
  compensating delete removes the content of a row that exists: the upload reports an error,
  the row is there, and its content is not.
\<close>

theorem lost_insert_reply_loses_content:
  "case Repository_Create (wired_repo (demo_config (\<lambda>_. False))) RequestCtx
          (demo_world (demo_db [] [] [LostAfter ''connection reset'']) (demo_bucket [] [])) (demo_media 1 7) demo_content
   of (r, w') \<Rightarrow>
     r = Inl (Wrapped ''media: create metadata'' (Wrapped ''postgres: create media'' (DbError ''connection reset''))) \<and>
     media_rows (meta_st w') 1 \<noteq> None \<and>
     store_content (demo_config (\<lambda>_. False)) (blob_st w') 1 = None"
  by (simp add: demo_run media_rows_def stored_row_def)

text \<open>
  Claim C20. A delete, whatever its outcome, removes rows of the caller only; every id whose
  row it removed has an open deletion task, so its content will be removed even if the
  immediate delete failed; and no content is touched except that of removed rows.
\<close>

theorem delete_schedules_content:
  assumes "store_ok c" and "db_inv (meta_st w)"
    and "Repository_Delete (wired_repo c) x w u i = (ra, w') \<or>
         Repository_DeleteByIDs (wired_repo c) x w u is = (rn, w') \<or>
         Repository_DeleteAllByUser (wired_repo c) x w u = (rn, w')"
  shows "\<exists>D. D \<subseteq> owned_ids (media_rows (meta_st w)) u \<and>
             media_rows (meta_st w') = removed (media_rows (meta_st w)) D \<and>
             live_ids (meta_st w') = live_ids (meta_st w) \<union> D \<and>
             (\<forall>j. j \<notin> D \<longrightarrow> store_content c (blob_st w') j = store_content c (blob_st w) j)"
proof -
  have eff: ?thesis if "w' = delete_blobs (wired_repo c) x del (w\<lparr>meta_st := d1\<rparr>)" "set del \<subseteq> D"
    "D \<subseteq> owned_ids (media_rows (meta_st w)) u" "media_rows d1 = removed (media_rows (meta_st w)) D"
    "live_ids d1 = live_ids (meta_st w) \<union> D" for D d1 del
    using that s3_pg.delete_blobs_content [OF assms(1) wired_repo_sel(3), of _ del x "w\<lparr>meta_st := d1\<rparr>"]
    by (intro exI [of _ D]) auto
  show ?thesis
    using assms(3)
  proof (elim disjE)
    assume "Repository_Delete (wired_repo c) x w u i = (ra, w')"
    from s3_pg.delete_shape [OF wired(1) assms(2) this] show ?thesis by (metis eff)
  next
    assume "Repository_DeleteByIDs (wired_repo c) x w u is = (rn, w')"
    from s3_pg.delete_ids_shape [OF wired(1) assms(2) this] show ?thesis by (metis eff)
  next
    assume "Repository_DeleteAllByUser (wired_repo c) x w u = (rn, w')"
    from s3_pg.delete_user_shape [OF wired(1) assms(2) this] show ?thesis by (metis eff)
  qed
qed

theorem delete_schedules_content_witness:
  "2 \<notin> live_ids (meta_st (snd (Repository_DeleteAllByUser (wired_repo (demo_config (\<lambda>_. True))) RequestCtx
      (demo_world (demo_db [demo_media 1 7, demo_media 2 8] [] []) (demo_bucket [1, 2] [NotReached])) 7)))"
  using delete_schedules_content [of "demo_config (\<lambda>_. True)"
      "demo_world (demo_db [demo_media 1 7, demo_media 2 8] [] []) (demo_bucket [1, 2] [NotReached])" RequestCtx 7 1 "Inr ()"
      _ "[]", OF _ _ disjI2, OF _ _ disjI2, OF _ _ prod.collapse [symmetric]]
  by (auto simp: owned_ids_def media_rows_def live_ids_def split: if_splits)

section \<open>The deletion worker\<close>

text \<open>
  Claim C17. A round of the worker, whatever fails in it, changes no media row, deletes no
  content except that of an id with an open deletion task, creates none, and closes a task
  only when its content is gone.
\<close>

theorem worker_round_safe:
  assumes "store_ok c" and "db_inv d"
    and "Worker_RunOnce (wired_worker c) x (d, s) = (r, d', s')"
  shows "db_inv d' \<and> media_rows d' = media_rows d \<and> live_ids d' \<subseteq> live_ids d \<and>
         (\<forall>i. i \<in> live_ids d - live_ids d' \<longrightarrow> store_content c s' i = None) \<and>
         (\<forall>i. store_content c s i = None \<longrightarrow> store_content c s' i = None) \<and>
         (\<forall>i. i \<notin> live_ids d \<longrightarrow> store_content c s' i = store_content c s i)"
  using s3_worker.run_once_safe [OF assms(1) wired_worker_sel assms(2,3)] by blast

theorem worker_round_safe_witness:
  "store_content (demo_config (\<lambda>_. True)) (snd (snd (Worker_RunOnce (wired_worker (demo_config (\<lambda>_. True))) RequestCtx
      (demo_queue, demo_bucket [1, 2, 3, 4] [NotReached])))) 4 = Some demo_content"
proof -
  obtain r d' s' where run: "Worker_RunOnce (wired_worker (demo_config (\<lambda>_. True))) RequestCtx
      (demo_queue, demo_bucket [1, 2, 3, 4] [NotReached]) = (r, d', s')" by (metis prod_cases3)
  from worker_round_safe [OF _ demo_queue_inv run] show ?thesis
    unfolding run by (simp add: demo_queue_live)
qed

lemma drained_run:
  assumes "store_ok (L, S)" and "s3_answers (client S) x"
    and "iv = (if interval \<le> 0 then 5 * second else interval)"
    and "drainable iv k d" and "n = k + card (live_ids d)"
  shows "\<exists>d' s'. Worker_Run (wired_worker (L, S)) x interval (replicate n (After tick) @ [CtxDone]) (d, s) =
             Some (d', s') \<and>
           live_ids d' = {} \<and> media_rows d' = media_rows d \<and>
           (\<forall>i. store_content (L, S) s' i = (if i \<in> live_ids d then None else store_content (L, S) s i))"
proof -
  have iv: "0 < iv" using assms(3) by (auto split: if_splits)
  obtain d1 s1 where r: "rounds (wired_worker (L, S)) x iv n (d, s) = (d1, s1)" by fastforce
  from drain_rounds [OF assms(1,2) iv assms(4) _ r] assms(5) have d1: "live_ids d1 = {}" "drainable iv 0 d1"
    "media_rows d1 = media_rows d"
    "\<forall>i. store_content (L, S) s1 i = (if i \<in> live_ids d then None else store_content (L, S) s i)" by auto
  from d1(1) have "candidate d1 = None"
    by (auto simp: candidate_None_iff live_ids_def eligible_def)
  with d1(2) have idle: "Worker_RunOnce (wired_worker (L, S)) x (d1, s1) = (Inr (), d1, s1)"
    by (intro round_idle) (auto simp: drainable_def)
  have "Worker_Run (wired_worker (L, S)) x interval (replicate n (After tick) @ [CtxDone]) (d, s) = Some (d1, s1)"
    unfolding Worker_Run_def Let_def assms(3) [symmetric] loop_rounds r idle by simp
  with d1 show ?thesis by blast
qed

text \<open>
  Claim C16. The worker catches up: when nothing fails and every open task comes due within
  \<open>k\<close> intervals, then after \<open>k\<close> rounds plus one per open task no task is open, the content of
  every one of them is gone, no other content and no row has changed, and the loop returns
  when its context is cancelled. An interval of zero or less means five seconds.
\<close>

theorem worker_drains:
  assumes "store_ok (L, S)" and "s3_answers (client S) x"
    and "iv = (if interval \<le> 0 then 5 * second else interval)"
    and "drainable iv k d" and "n = k + card (live_ids d)"
  shows "\<exists>d' s'. Worker_Run (wired_worker (L, S)) x interval (replicate n (After tick) @ [CtxDone]) (d, s) =
             Some (d', s') \<and>
           live_ids d' = {} \<and> media_rows d' = media_rows d \<and>
           (\<forall>i. store_content (L, S) s' i = (if i \<in> live_ids d then None else store_content (L, S) s i))"
  using assms by (rule drained_run)

theorem worker_drains_witness:
  "\<exists>d' s'. Worker_Run (wired_worker (demo_config (\<lambda>_. False))) RequestCtx 0 (replicate 2 (After tick) @ [CtxDone])
       (demo_queue, demo_bucket [1, 2, 3] []) = Some (d', s') \<and> live_ids d' = {} \<and>
     store_content (demo_config (\<lambda>_. False)) s' 1 = None \<and> store_content (demo_config (\<lambda>_. False)) s' 3 = Some demo_content"
proof -
  note live = demo_queue_live
  have card: "card (live_ids demo_queue) = 2" by (simp add: live)
  have "drainable (5 * second) 0 demo_queue"
    by (simp add: drainable_def demo_queue_simps db_inv_def due_def)
  from worker_drains [OF _ _ _ this, of mem_uuid "mem_store (\<lambda>_. False)" RequestCtx 0 2 "demo_bucket [1, 2, 3] []"]
  show ?thesis using live card by (auto simp: mem_s3_answers)
qed

text \<open>
  Claim C38. \<open>Run\<close> returns exactly when its context is cancelled: it runs on as long as only
  the interval elapses, and never stops because a round failed.
\<close>

theorem worker_runs_until_cancelled:
  "Worker_Run W x interval es st \<noteq> None \<longleftrightarrow> CtxDone \<in> set es"
proof -
  have "Worker_loop W x iv es st \<noteq> None \<longleftrightarrow> CtxDone \<in> set es" for iv st
  proof (induction es arbitrary: st)
    case (Cons e es)
    then show ?case by (cases e) simp_all
  qed simp
  then show ?thesis by (simp add: Worker_Run_def Let_def)
qed

text \<open>
  Claim C39. Deleting a file and uploading its id anew before the worker has run loses the new
  file, always: in any state, when a delete of any id has succeeded, a following upload under the
  same id (by the same user or another) has succeeded as well, and nothing fails any more, then
  after as many rounds as it takes to drain the queue the new row is there and its content,
  which the upload had stored, is not. So \<open>Create\<close> must not be called for an id with an open task.
\<close>

theorem reupload_before_worker_loses_content:
  assumes "store_ok (L, S)" and "db_inv (meta_st w)" and "s3_answers (client S) y"
    and "Repository_Delete (wired_repo (L, S)) x w u i = (Inr (), w1)"
    and "Repository_Create (wired_repo (L, S)) x' w1 m b = (Inr (), w2)" and "ID m = i"
    and "iv = (if interval \<le> 0 then 5 * second else interval)"
    and "drainable iv k (meta_st w2)" and "n = k + card (live_ids (meta_st w2))"
  shows "store_content (L, S) (blob_st w2) i = Some b \<and>
         (\<exists>d' s' row. Worker_Run (wired_worker (L, S)) y interval (replicate n (After tick) @ [CtxDone]) (meta_st w2, blob_st w2) =
             Some (d', s') \<and> media_rows d' i = Some row \<and> same_file m row \<and> store_content (L, S) s' i = None)"
proof -
  obtain q d1 where q: "MediaRepository_Delete x (meta_st w) u i = (q, d1)" by fastforce
  with assms(4) have w1: "meta_st w1 = d1" "q = Inr ()"
    by (auto simp: Repository_Delete_def iface_simps split: sum.splits)
  from media_table.delete_ok [OF assms(2), unfolded iface_simps, OF q [unfolded w1]]
    media_table.delete_all_or_nothing [OF assms(2), unfolded iface_simps, OF q]
  have d1: "db_inv d1" "i \<in> live_ids d1" by auto
  from assms(1) wired assms(5) show ?thesis
  proof (cases rule: s3_pg.create_cases)
    case (created a)
    have ins: "MediaRepository_Create x' d1 m = (Inr a, meta_st w2)" using created(4) w1 by (simp add: iface_simps)
    from media_table.create_ok [OF d1(1), unfolded iface_simps, OF ins]
    obtain row where row: "media_rows (meta_st w2) i = Some row" "same_file m row"
      using assms(6) by (auto simp: inserted_def)
    have live: "i \<in> live_ids (meta_st w2)"
      using MediaRepository_Create_cases(1) [OF d1(1) ins] d1(2) by simp
    from drained_run [OF assms(1,3,7,8,9), where s = "blob_st w2"] row live created(3) assms(6)
    show ?thesis by auto
  qed simp_all
qed

theorem reupload_before_worker_loses_content_witness:
  "case snd (Repository_Create (wired_repo (demo_config (\<lambda>_. False))) RequestCtx
          (snd (Repository_Delete (wired_repo (demo_config (\<lambda>_. False))) RequestCtx
             (demo_world (demo_db [demo_media 1 7] [] []) (demo_bucket [1] [])) 7 1)) (demo_media 1 7) demo_content) of w2 \<Rightarrow>
     \<exists>n d' s'. Worker_Run (wired_worker (demo_config (\<lambda>_. False))) RequestCtx 0 (replicate n (After tick) @ [CtxDone])
                  (meta_st w2, blob_st w2) = Some (d', s') \<and>
               media_rows d' 1 \<noteq> None \<and> store_content (demo_config (\<lambda>_. False)) s' 1 = None"
proof -
  let ?c = "demo_config (\<lambda>_. False)" and ?w = "demo_world (demo_db [demo_media 1 7] [] []) (demo_bucket [1] [])"
  let ?w1 = "snd (Repository_Delete (wired_repo ?c) RequestCtx ?w 7 1)"
  let ?w2 = "snd (Repository_Create (wired_repo ?c) RequestCtx ?w1 (demo_media 1 7) demo_content)"
  have del: "Repository_Delete (wired_repo ?c) RequestCtx ?w 7 1 = (Inr (), ?w1)"
    by (simp add: prod_eq_iff demo_run demo_media_def)
  have put: "Repository_Create (wired_repo ?c) RequestCtx ?w1 (demo_media 1 7) demo_content = (Inr (), ?w2)"
    by (simp add: prod_eq_iff demo_run demo_media_def)
  have "drainable (5 * second) 0 (meta_st ?w2)"
    by (simp add: drainable_def demo_run demo_media_def db_inv_def due_def new_task_def stored_row_def New_def keyed_def)
  from reupload_before_worker_loses_content [OF _ _ _ del put _ _ this refl, of RequestCtx 0]
  obtain n d' s' where "Worker_Run (wired_worker ?c) RequestCtx 0 (replicate n (After tick) @ [CtxDone]) (meta_st ?w2, blob_st ?w2) =
      Some (d', s')" "media_rows d' 1 \<noteq> None" "store_content ?c s' 1 = None"
    by (auto simp: mem_s3_answers)
  then show ?thesis by (intro exI conjI)
qed

end
