(* ===== verification/Go_Std.thy ===== *)
theory Go_Std
  imports Media_Prelude
begin

unbundle bit_operations_syntax

text \<open>
  The functions of Go's standard library that the service's own decisions depend on:
  \<open>strings.ToLower\<close> and \<open>strings.HasPrefix\<close>, \<open>filepath.Ext\<close>, and
  \<open>http.DetectContentType\<close> with its signature table (the MIME sniffing algorithm on the
  first 512 bytes).
\<close>

section \<open>Strings and paths\<close>

definition code :: "char \<Rightarrow> nat" where
  "code c = of_char c"

definition lower_ascii :: "char \<Rightarrow> char" where
  "lower_ascii c = (if 65 \<le> code c \<and> code c \<le> 90 then char_of (code c + 32) else c)"

text \<open>
  \<open>strings.ToLower\<close> on UTF-8 bytes. Besides A-Z, two characters have an ASCII lower case:
  U+0130 (bytes C4 B0) gives \<open>i\<close> and U+212A (bytes E2 84 AA) gives \<open>k\<close>. Every other
  multi-byte character keeps a non-ASCII form, and its bytes are left as they are: no look-up
  of the result in an ASCII table can tell the difference.
\<close>

function ToLower :: "string \<Rightarrow> string" where
  "ToLower s =
     (case s of
        [] \<Rightarrow> []
      | c # cs \<Rightarrow>
          if take 2 s = [CHR 0xC4, CHR 0xB0] then CHR ''i'' # ToLower (drop 2 s)
          else if take 3 s = [CHR 0xE2, CHR 0x84, CHR 0xAA] then CHR ''k'' # ToLower (drop 3 s)
          else lower_ascii c # ToLower cs)"
  by pat_completeness auto
termination
  by (relation "measure length") (auto split: list.splits)

declare ToLower.simps [simp del]

definition HasPrefix :: "string \<Rightarrow> string \<Rightarrow> bool" where
  "HasPrefix s p \<longleftrightarrow> take (length p) s = p"

text \<open>\<open>filepath.Ext\<close>: scan from the end to the last dot, giving up at a separator.\<close>

fun ext_scan :: "string \<Rightarrow> string \<Rightarrow> string" where
  "ext_scan [] acc = []"
| "ext_scan (c # cs) acc =
     (if c = CHR ''/'' then [] else if c = CHR ''.'' then c # acc else ext_scan cs (c # acc))"

definition Ext :: "string \<Rightarrow> string" where
  "Ext path = ext_scan (rev path) []"

lemma ext_scan_prefix:
  "CHR ''.'' \<notin> set e \<Longrightarrow> CHR ''/'' \<notin> set e \<Longrightarrow>
   ext_scan (rev e @ CHR ''.'' # cs) acc = CHR ''.'' # e @ acc"
  by (induction e arbitrary: acc rule: rev_induct) auto

lemma Ext_append:
  "CHR ''.'' \<notin> set e \<Longrightarrow> CHR ''/'' \<notin> set e \<Longrightarrow> Ext (base @ CHR ''.'' # e) = CHR ''.'' # e"
  using ext_scan_prefix [of e "rev base" "[]"] by (simp add: Ext_def)

section \<open>Content sniffing\<close>

definition bytes_of :: "string \<Rightarrow> bytes" where
  "bytes_of s = map of_char s"

datatype sniffSig =
    htmlSig bytes
  | maskedSig bytes bytes bool string  \<comment> \<open>mask, pattern, skipWS, content type\<close>
  | exactSig bytes string
  | mp4Sig
  | textSig

definition isWS :: "byte \<Rightarrow> bool" where
  "isWS b \<longleftrightarrow> b = 0x09 \<or> b = 0x0A \<or> b = 0x0C \<or> b = 0x0D \<or> b = 0x20"

definition isTT :: "byte \<Rightarrow> bool" where
  "isTT b \<longleftrightarrow> b = 0x20 \<or> b = 0x3E"

fun html_match :: "bytes \<Rightarrow> bytes \<Rightarrow> bool" where
  "html_match [] (d # ds) = isTT d"
| "html_match (b # h) (d # ds) =
     ((let db = (if 0x41 \<le> b \<and> b \<le> 0x5A then d AND 0xDF else d) in b = db) \<and> html_match h ds)"
| "html_match h [] = False"

definition box_size :: "bytes \<Rightarrow> int" where
  "box_size d = foldl (\<lambda>n b. n * 256 + uint b) 0 (take 4 d)"

definition mp4_match :: "bytes \<Rightarrow> bool" where
  "mp4_match d =
     (if length d < 12 then False
      else if int (length d) < box_size d \<or> box_size d mod 4 \<noteq> 0 then False
      else if take 4 (drop 4 d) \<noteq> bytes_of ''ftyp'' then False
      else list_ex (\<lambda>k. 8 + 4 * k \<noteq> 12 \<and> take 3 (drop (8 + 4 * k) d) = bytes_of ''mp4'')
             [0..<(nat (box_size d) - 8) div 4])"

definition binary_byte :: "byte \<Rightarrow> bool" where
  "binary_byte b \<longleftrightarrow>
     b \<le> 0x08 \<or> b = 0x0B \<or> (0x0E \<le> b \<and> b \<le> 0x1A) \<or> (0x1C \<le> b \<and> b \<le> 0x1F)"

text \<open>\<open>sig.match(data, firstNonWS)\<close>; the empty string of the source is \<open>None\<close> here.\<close>

fun sig_match :: "sniffSig \<Rightarrow> bytes \<Rightarrow> nat \<Rightarrow> string option" where
  "sig_match (htmlSig h) data n =
     (if html_match h (drop n data) then Some ''text/html; charset=utf-8'' else None)"
| "sig_match (maskedSig msk pat skipWS ct) data n =
     (let d = (if skipWS then drop n data else data) in
      if length pat \<le> length d \<and> map2 (AND) (take (length pat) d) msk = pat then Some ct else None)"
| "sig_match (exactSig p ct) data n = (if take (length p) data = p then Some ct else None)"
| "sig_match mp4Sig data n = (if mp4_match data then Some ''video/mp4'' else None)"
| "sig_match textSig data n =
     (if list_ex binary_byte (drop n data) then None else Some ''text/plain; charset=utf-8'')"

definition riff_mask :: "nat \<Rightarrow> bytes" where
  "riff_mask n = replicate 4 0xFF @ replicate 4 0 @ replicate n 0xFF"

definition sniffSignatures :: "sniffSig list" where
  "sniffSignatures =
     map (\<lambda>s. htmlSig (bytes_of s))
       [''<!DOCTYPE HTML'', ''<HTML'', ''<HEAD'', ''<SCRIPT'', ''<IFRAME'', ''<H1'', ''<DIV'',
        ''<FONT'', ''<TABLE'', ''<A'', ''<STYLE'', ''<TITLE'', ''<B'', ''<BODY'', ''<BR'', ''<P'', ''<!--'']
     @ [maskedSig (replicate 5 0xFF) (bytes_of ''<?xml'') True ''text/xml; charset=utf-8'',
        exactSig (bytes_of ''%PDF-'') ''application/pdf'',
        exactSig (bytes_of ''%!PS-Adobe-'') ''application/postscript'',
        maskedSig [0xFF, 0xFF, 0, 0] [0xFE, 0xFF, 0, 0] False ''text/plain; charset=utf-16be'',
        maskedSig [0xFF, 0xFF, 0, 0] [0xFF, 0xFE, 0, 0] False ''text/plain; charset=utf-16le'',
        maskedSig [0xFF, 0xFF, 0xFF, 0] [0xEF, 0xBB, 0xBF, 0] False ''text/plain; charset=utf-8'',
        exactSig [0, 0, 1, 0] ''image/x-icon'',
        exactSig [0, 0, 2, 0] ''image/x-icon'',
        exactSig (bytes_of ''BM'') ''image/bmp'',
        exactSig (bytes_of ''GIF87a'') ''image/gif'',
        exactSig (bytes_of ''GIF89a'') ''image/gif'',
        maskedSig (riff_mask 6) (bytes_of ''RIFF'' @ replicate 4 0 @ bytes_of ''WEBPVP'') False ''image/webp'',
        exactSig [0x89, 0x50, 0x4E, 0x47, 0x0D, 0x0A, 0x1A, 0x0A] ''image/png'',
        exactSig [0xFF, 0xD8, 0xFF] ''image/jpeg'',
        maskedSig (riff_mask 4) (bytes_of ''FORM'' @ replicate 4 0 @ bytes_of ''AIFF'') False ''audio/aiff'',
        maskedSig (replicate 3 0xFF) (bytes_of ''ID3'') False ''audio/mpeg'',
        maskedSig (replicate 5 0xFF) (bytes_of ''OggS'' @ [0]) False ''application/ogg'',
        maskedSig (replicate 8 0xFF) (bytes_of ''MThd'' @ [0, 0, 0, 6]) False ''audio/midi'',
        maskedSig (riff_mask 4) (bytes_of ''RIFF'' @ replicate 4 0 @ bytes_of ''AVI '') False ''video/avi'',
        maskedSig (riff_mask 4) (bytes_of ''RIFF'' @ replicate 4 0 @ bytes_of ''WAVE'') False ''audio/wave'',
        mp4Sig,
        exactSig [0x1A, 0x45, 0xDF, 0xA3] ''video/webm'',
        maskedSig (replicate 34 0 @ [0xFF, 0xFF]) (replicate 34 0 @ bytes_of ''LP'') False
          ''application/vnd.ms-fontobject'',
        exactSig [0, 1, 0, 0] ''font/ttf'',
        exactSig (bytes_of ''OTTO'') ''font/otf'',
        exactSig (bytes_of ''ttcf'') ''font/collection'',
        exactSig (bytes_of ''wOFF'') ''font/woff'',
        exactSig (bytes_of ''wOF2'') ''font/woff2'',
        exactSig [0x1F, 0x8B, 0x08] ''application/x-gzip'',
        exactSig (bytes_of ''PK'' @ [3, 4]) ''application/zip'',
        exactSig (bytes_of ''Rar!'' @ [0x1A, 0x07, 0x00]) ''application/x-rar-compressed'',
        exactSig (bytes_of ''Rar!'' @ [0x1A, 0x07, 0x01, 0x00]) ''application/x-rar-compressed'',
        exactSig [0x00, 0x61, 0x73, 0x6D] ''application/wasm'',
        textSig]"

fun first_match :: "sniffSig list \<Rightarrow> bytes \<Rightarrow> nat \<Rightarrow> string" where
  "first_match [] data n = ''application/octet-stream''"
| "first_match (sg # sgs) data n =
     (case sig_match sg data n of Some ct \<Rightarrow> ct | None \<Rightarrow> first_match sgs data n)"

definition sniffLen :: nat where
  "sniffLen = 512"

definition DetectContentType :: "bytes \<Rightarrow> string" where
  "DetectContentType content =
     (let data = take sniffLen content;
          firstNonWS = length (takeWhile isWS data)
      in first_match sniffSignatures data firstNonWS)"

section \<open>What the sniffer says of the formats with a magic number\<close>

lemma take_sniff:
  assumes "take n content = p" and "length p = n" and "n \<le> 512"
  shows "\<exists>rest. take sniffLen content = p @ rest"
proof
  have "take n (take sniffLen content) = p"
    using assms by (simp add: sniffLen_def min_def)
  then show "take sniffLen content = p @ drop n (take sniffLen content)"
    by (metis append_take_drop_id)
qed

lemma replicate_numeral: "replicate (numeral k) x = x # replicate (pred_numeral k) x"
  by (simp add: numeral_eq_Suc)

lemmas sniff_simps = replicate_numeral DetectContentType_def Let_def isWS_def sniffSignatures_def bytes_of_def riff_mask_def

lemma sniff_png:
  assumes "take 8 content = [0x89, 0x50, 0x4E, 0x47, 0x0D, 0x0A, 0x1A, 0x0A]"
  shows "DetectContentType content = ''image/png''"
proof -
  obtain rest where "take sniffLen content = [0x89, 0x50, 0x4E, 0x47, 0x0D, 0x0A, 0x1A, 0x0A] @ rest"
    using take_sniff [OF assms] by auto
  then show ?thesis by (simp add: sniff_simps)
qed

lemma sniff_jpeg:
  assumes "take 3 content = [0xFF, 0xD8, 0xFF]"
  shows "DetectContentType content = ''image/jpeg''"
proof -
  obtain rest where "take sniffLen content = [0xFF, 0xD8, 0xFF] @ rest"
    using take_sniff [OF assms] by auto
  then show ?thesis by (simp add: sniff_simps)
qed

lemma sniff_pdf:
  assumes "take 5 content = bytes_of ''%PDF-''"
  shows "DetectContentType content = ''application/pdf''"
proof -
  obtain rest where "take sniffLen content = bytes_of ''%PDF-'' @ rest"
    using take_sniff [OF assms] by (auto simp: bytes_of_def)
  then show ?thesis by (simp add: sniff_simps)
qed

section \<open>Everything the sniffer can say\<close>

fun sig_type :: "sniffSig \<Rightarrow> string" where
  "sig_type (htmlSig h) = ''text/html; charset=utf-8''"
| "sig_type (maskedSig msk pat skipWS ct) = ct"
| "sig_type (exactSig p ct) = ct"
| "sig_type mp4Sig = ''video/mp4''"
| "sig_type textSig = ''text/plain; charset=utf-8''"

definition sniffable :: "string list" where
  "sniffable = ''application/octet-stream'' # map sig_type sniffSignatures"

lemma sig_match_type: "sig_match sg data n = Some ct \<Longrightarrow> ct = sig_type sg"
  by (cases sg) (auto simp: Let_def split: if_splits)

lemma first_match_type: "first_match sgs data n \<in> insert ''application/octet-stream'' (sig_type ` set sgs)"
  by (induction sgs) (auto split: option.split dest: sig_match_type)

lemma DetectContentType_sniffable: "DetectContentType b \<in> set sniffable"
  using first_match_type [of sniffSignatures] by (auto simp: DetectContentType_def Let_def sniffable_def)

text \<open>So a test by prefix is a test for a few known types.\<close>

lemma sniffed_family:
  assumes "list_all (\<lambda>ct. HasPrefix ct fam \<longleftrightarrow> ct \<in> set cts) sniffable"
  shows "HasPrefix (DetectContentType b) fam \<longleftrightarrow> DetectContentType b \<in> set cts"
  using assms DetectContentType_sniffable by (auto simp: list_all_iff)

lemma sniffable_families:
  "list_all (\<lambda>ct. HasPrefix ct ''image/jpeg'' \<longleftrightarrow> ct \<in> set [''image/jpeg'']) sniffable"
  "list_all (\<lambda>ct. HasPrefix ct ''image/png'' \<longleftrightarrow> ct \<in> set [''image/png'']) sniffable"
  "list_all (\<lambda>ct. HasPrefix ct ''image/webp'' \<longleftrightarrow> ct \<in> set [''image/webp'']) sniffable"
  "list_all (\<lambda>ct. HasPrefix ct ''application/pdf'' \<longleftrightarrow> ct \<in> set [''application/pdf'']) sniffable"
  "list_all (\<lambda>ct. HasPrefix ct ''text/xml'' \<longleftrightarrow> ct \<in> set [''text/xml; charset=utf-8'']) sniffable"
  "list_all (\<lambda>ct. HasPrefix ct ''text/plain'' \<longleftrightarrow> ct \<in> set [''text/plain; charset=utf-8'', ''text/plain; charset=utf-16be'', ''text/plain; charset=utf-16le'']) sniffable"
  "list_all (\<lambda>ct. HasPrefix ct ''application/xml'' \<longleftrightarrow> ct \<in> set []) sniffable"
  "list_all (\<lambda>ct. HasPrefix ct ''text/csv'' \<longleftrightarrow> ct \<in> set []) sniffable"
  by code_simp+

lemma sniffed_families:
  "HasPrefix (DetectContentType b) ''image/jpeg'' \<longleftrightarrow> DetectContentType b = ''image/jpeg''"
  "HasPrefix (DetectContentType b) ''image/png'' \<longleftrightarrow> DetectContentType b = ''image/png''"
  "HasPrefix (DetectContentType b) ''image/webp'' \<longleftrightarrow> DetectContentType b = ''image/webp''"
  "HasPrefix (DetectContentType b) ''application/pdf'' \<longleftrightarrow> DetectContentType b = ''application/pdf''"
  "HasPrefix (DetectContentType b) ''text/xml'' \<longleftrightarrow> DetectContentType b = ''text/xml; charset=utf-8''"
  "HasPrefix (DetectContentType b) ''text/plain'' \<longleftrightarrow> DetectContentType b \<in>
     {''text/plain; charset=utf-8'', ''text/plain; charset=utf-16be'', ''text/plain; charset=utf-16le''}"
  "\<not> HasPrefix (DetectContentType b) ''application/xml''"
  "\<not> HasPrefix (DetectContentType b) ''text/csv''"
  using sniffable_families [THEN sniffed_family, of b] by (simp_all only: list.set insert_iff empty_iff simp_thms)

end
