(* ===== verification/Media_Service.thy ===== *)
theory Media_Service
  imports Media_Repository Go_Std
begin

text \<open>
  The use cases (\<^verbatim>\<open>internal/application/media/service.go\<close>, \<^verbatim>\<open>dto.go\<close>): upload with file
  type and size validation and the idempotency key, get, download, list, and the three
  deletes. The lemmas are proved over the contract of the Repository port.
\<close>

section \<open>Helpers of the package\<close>

text \<open>
  The loop of \<open>dedupeIDs\<close>: \<open>seen\<close> holds the keys the Go map has with value \<open>true\<close>, \<open>dedup\<close>
  is the slice built so far.
\<close>

fun dedupe_loop :: "uuid list \<Rightarrow> uuid set \<Rightarrow> uuid list \<Rightarrow> uuid list" where
  "dedupe_loop dedup seen [] = dedup"
| "dedupe_loop dedup seen (i # ids) =
     (if i \<in> seen then dedupe_loop dedup seen ids
      else dedupe_loop (dedup @ [i]) (insert i seen) ids)"

definition dedupeIDs :: "uuid list \<Rightarrow> uuid list" where
  "dedupeIDs ids = dedupe_loop [] {} ids"

record allowedType =
  canonicalMIME :: string
  sniffFamilies :: "string list"

definition allowedExtensions :: "string \<rightharpoonup> allowedType" where
  "allowedExtensions = map_of
     [(''.jpg'', \<lparr>canonicalMIME = ''image/jpeg'', sniffFamilies = [''image/jpeg'']\<rparr>),
      (''.jpeg'', \<lparr>canonicalMIME = ''image/jpeg'', sniffFamilies = [''image/jpeg'']\<rparr>),
      (''.png'', \<lparr>canonicalMIME = ''image/png'', sniffFamilies = [''image/png'']\<rparr>),
      (''.webp'', \<lparr>canonicalMIME = ''image/webp'', sniffFamilies = [''image/webp'']\<rparr>),
      (''.heic'', \<lparr>canonicalMIME = ''image/heic'', sniffFamilies = []\<rparr>),
      (''.pdf'', \<lparr>canonicalMIME = ''application/pdf'', sniffFamilies = [''application/pdf'']\<rparr>),
      (''.xml'', \<lparr>canonicalMIME = ''application/xml'',
                  sniffFamilies = [''text/xml'', ''text/plain'', ''application/xml'']\<rparr>),
      (''.txt'', \<lparr>canonicalMIME = ''text/plain'', sniffFamilies = [''text/plain'']\<rparr>),
      (''.csv'', \<lparr>canonicalMIME = ''text/csv'', sniffFamilies = [''text/plain'', ''text/csv'']\<rparr>)]"

fun match_family :: "string \<Rightarrow> string \<Rightarrow> string list \<Rightarrow> error + string" where
  "match_family mime sniffed [] = Inl ErrUnsupportedMIME"
| "match_family mime sniffed (family # families) =
     (if HasPrefix sniffed family then Inr mime else match_family mime sniffed families)"

definition canonicalContentType :: "string \<Rightarrow> bytes \<Rightarrow> error + string" where
  "canonicalContentType filename content =
     (let ext = ToLower (Ext filename) in
      case allowedExtensions ext of
        None \<Rightarrow> Inl ErrUnsupportedMIME
      | Some allowed \<Rightarrow>
          if length (sniffFamilies allowed) = 0 then Inr (canonicalMIME allowed)
          else match_family (canonicalMIME allowed) (DetectContentType content) (sniffFamilies allowed))"

section \<open>The service\<close>

text \<open>
  \<open>maxListIDs\<close> is \<^verbatim>\<open>pagination.MaxLimit\<close> of the shared library, a parameter here.
\<close>

record 'w Service =
  media :: "'w MediaRepo"
  maxUploadSizeBytes :: int
  maxListIDs :: nat

definition NewService :: "nat \<Rightarrow> 'w MediaRepo \<Rightarrow> int \<Rightarrow> 'w Service" where
  "NewService maxLimit repo maxBytes =
     \<lparr> media = repo, maxUploadSizeBytes = maxBytes, maxListIDs = maxLimit \<rparr>"

record UploadInput =
  in_UserID :: uuid
  in_ClientMediaID :: "uuid option"
  in_OriginalFilename :: string
  in_Content :: bytes

record UploadResult =
  res_Media :: Media
  res_AlreadyExisted :: bool

text \<open>\<open>fresh\<close> is what \<^verbatim>\<open>uuid.New()\<close> returns, \<open>now\<close> the clock reading of \<open>New\<close>.\<close>

definition Service_Upload ::
    "'w Service \<Rightarrow> uuid \<Rightarrow> timestamp \<Rightarrow> ctx \<Rightarrow> 'w \<Rightarrow> UploadInput \<Rightarrow> (error + UploadResult) \<times> 'w" where
  "Service_Upload S fresh now x w inp =
     (if int (length (in_Content inp)) > maxUploadSizeBytes S then (Inl ErrFileTooLarge, w)
      else case canonicalContentType (in_OriginalFilename inp) (in_Content inp) of
        Inl err \<Rightarrow> (Inl err, w)
      | Inr contentType \<Rightarrow>
          let i = (case in_ClientMediaID inp of Some cid \<Rightarrow> cid | None \<Rightarrow> fresh);
              m = New now i (in_UserID inp) (in_OriginalFilename inp) contentType
                    (int (length (in_Content inp)))
          in case mr_Create (media S) x w m (in_Content inp) of
               (Inr _, w1) \<Rightarrow> (Inr \<lparr>res_Media = m, res_AlreadyExisted = False\<rparr>, w1)
             | (Inl err, w1) \<Rightarrow>
                 if errors_Is err ErrIDConflict \<and> in_ClientMediaID inp \<noteq> None
                 then (case mr_GetByID (media S) x w1 (in_UserID inp) i of
                         (Inr existing, w2) \<Rightarrow>
                           (Inr \<lparr>res_Media = existing, res_AlreadyExisted = True\<rparr>, w2)
                       | (Inl _, w2) \<Rightarrow> (Inl ErrMediaIDConflict, w2))
                 else (Inl (Wrapped ''media: upload'' err), w1))"

definition Service_Get :: "'w Service \<Rightarrow> ctx \<Rightarrow> 'w \<Rightarrow> uuid \<Rightarrow> uuid \<Rightarrow> (error + Media) \<times> 'w" where
  "Service_Get S x w userID mediaID = mr_GetByID (media S) x w userID mediaID"

definition Service_Download ::
    "'w Service \<Rightarrow> ctx \<Rightarrow> 'w \<Rightarrow> uuid \<Rightarrow> uuid \<Rightarrow> (error + Media \<times> bytes) \<times> 'w" where
  "Service_Download S x w userID mediaID = mr_GetContent (media S) x w userID mediaID"

text \<open>The two loops of \<open>List\<close>: index the rows by id, then pick them in the requested order.\<close>

fun index_by_id :: "(uuid \<rightharpoonup> Media) \<Rightarrow> Media list \<Rightarrow> (uuid \<rightharpoonup> Media)" where
  "index_by_id byID [] = byID"
| "index_by_id byID (m # ms) = index_by_id (byID(ID m \<mapsto> m)) ms"

fun pick_ordered :: "(uuid \<rightharpoonup> Media) \<Rightarrow> Media list \<Rightarrow> uuid list \<Rightarrow> Media list" where
  "pick_ordered byID ordered [] = ordered"
| "pick_ordered byID ordered (i # ids) =
     (case byID i of
        Some m \<Rightarrow> pick_ordered byID (ordered @ [m]) ids
      | None \<Rightarrow> pick_ordered byID ordered ids)"

definition Service_List ::
    "'w Service \<Rightarrow> ctx \<Rightarrow> 'w \<Rightarrow> uuid \<Rightarrow> uuid list \<Rightarrow> (error + Media list) \<times> 'w" where
  "Service_List S x w userID ids =
     (let dedup = dedupeIDs ids in
      if length dedup = 0 then (Inr [], w)
      else if length dedup > maxListIDs S then (Inl ErrTooManyIDs, w)
      else case mr_ListByIDs (media S) x w userID dedup of
             (Inl err, w1) \<Rightarrow> (Inl (Wrapped ''media: list by ids'' err), w1)
           | (Inr found, w1) \<Rightarrow>
               (Inr (pick_ordered (index_by_id Map.empty found) [] dedup), w1))"

definition Service_Delete :: "'w Service \<Rightarrow> ctx \<Rightarrow> 'w \<Rightarrow> uuid \<Rightarrow> uuid \<Rightarrow> (error + unit) \<times> 'w" where
  "Service_Delete S x w userID mediaID = mr_Delete (media S) x w userID mediaID"

definition Service_DeleteByIDs ::
    "'w Service \<Rightarrow> ctx \<Rightarrow> 'w \<Rightarrow> uuid \<Rightarrow> uuid list \<Rightarrow> (error + int) \<times> 'w" where
  "Service_DeleteByIDs S x w userID ids =
     (let dedup = dedupeIDs ids in
      if length dedup = 0 then (Inr 0, w)
      else if length dedup > maxListIDs S then (Inl ErrTooManyIDs, w)
      else mr_DeleteByIDs (media S) x w userID dedup)"

definition Service_DeleteAllMine :: "'w Service \<Rightarrow> ctx \<Rightarrow> 'w \<Rightarrow> uuid \<Rightarrow> (error + int) \<times> 'w" where
  "Service_DeleteAllMine S x w userID = mr_DeleteAllByUser (media S) x w userID"

section \<open>Lemmas on the helpers\<close>

lemma dedupe_loop_eq:
  "dedupe_loop dedup seen ids =
     dedup @ dedupe_loop [] seen ids"
proof (induction ids arbitrary: dedup seen)
  case (Cons i ids)
  show ?case
    using Cons.IH [of dedup seen] Cons.IH [of "dedup @ [i]" "insert i seen"]
      Cons.IH [of "[i]" "insert i seen"]
    by simp
qed simp

lemma dedupe_loop_set: "set (dedupe_loop [] seen ids) = {i \<in> set ids. i \<notin> seen}"
proof (induction ids arbitrary: seen)
  case (Cons i ids)
  show ?case
    using Cons.IH [of seen] Cons.IH [of "insert i seen"] dedupe_loop_eq [of "[i]" "insert i seen" ids]
    by auto
qed simp

lemma dedupe_loop_distinct: "distinct (dedupe_loop [] seen ids)"
proof (induction ids arbitrary: seen)
  case (Cons i ids)
  show ?case
    using Cons.IH [of seen] Cons.IH [of "insert i seen"] dedupe_loop_eq [of "[i]" "insert i seen" ids]
      dedupe_loop_set [of "insert i seen" ids]
    by auto
qed simp

lemma set_dedupeIDs [simp]: "set (dedupeIDs ids) = set ids"
  by (simp add: dedupeIDs_def dedupe_loop_set)

lemma distinct_dedupeIDs [simp]: "distinct (dedupeIDs ids)"
  by (simp add: dedupeIDs_def dedupe_loop_distinct)

lemma length_dedupeIDs: "length (dedupeIDs ids) = card (set ids)"
  by (metis distinct_card distinct_dedupeIDs set_dedupeIDs)

lemma dedupeIDs_Nil_iff [simp]: "dedupeIDs ids = [] \<longleftrightarrow> ids = []"
  by (metis set_dedupeIDs set_empty)

text \<open>
  Reference for the order: keep the first occurrence of each id. The loop of the source
  computes \<open>rev (remdups (rev ids))\<close>.
\<close>

lemma dedupe_loop_snoc:
  "dedupe_loop [] seen (ids @ [i]) =
     (if i \<in> seen \<or> i \<in> set ids then dedupe_loop [] seen ids else dedupe_loop [] seen ids @ [i])"
proof (induction ids arbitrary: seen)
  case (Cons j ids)
  show ?case
    using Cons.IH [of seen] Cons.IH [of "insert j seen"]
      dedupe_loop_eq [of "[j]" "insert j seen" "ids @ [i]"] dedupe_loop_eq [of "[j]" "insert j seen" ids]
    by auto
qed simp

lemma dedupeIDs_eq: "dedupeIDs ids = rev (remdups (rev ids))"
  by (induction ids rule: rev_induct) (auto simp: dedupeIDs_def dedupe_loop_snoc)

lemma index_by_id_other: "i \<notin> ID ` set ms \<Longrightarrow> index_by_id byID ms i = byID i"
  by (induction ms arbitrary: byID) auto

lemma index_by_id_eq:
  "distinct (map ID ms) \<Longrightarrow>
   index_by_id byID ms i = (case lookup_by ID ms i of None \<Rightarrow> byID i | Some m \<Rightarrow> Some m)"
proof (induction ms arbitrary: byID)
  case (Cons a ms)
  then have IH: "index_by_id (byID(ID a \<mapsto> a)) ms i =
      (case lookup_by ID ms i of None \<Rightarrow> (byID(ID a \<mapsto> a)) i | Some m \<Rightarrow> Some m)" by simp
  from Cons.prems have "lookup_by ID ms (ID a) = None" by (simp add: lookup_by_None_iff)
  with IH show ?case by (cases "i = ID a") (simp_all split: option.splits)
qed simp

lemma pick_ordered_eq:
  "pick_ordered byID ordered ids =
     ordered @ map (\<lambda>i. the (byID i)) (filter (\<lambda>i. byID i \<noteq> None) ids)"
  by (induction ids arbitrary: ordered) (auto split: option.splits)

lemma match_family_ok:
  "match_family mime sniffed fs = Inr ct \<longleftrightarrow> ct = mime \<and> (\<exists>f \<in> set fs. HasPrefix sniffed f)"
  by (induction fs) auto

lemma match_family_err:
  "match_family mime sniffed fs = Inl e \<longleftrightarrow> e = ErrUnsupportedMIME \<and> (\<forall>f \<in> set fs. \<not> HasPrefix sniffed f)"
  by (induction fs) auto

lemma canonicalContentType_ok:
  assumes "canonicalContentType f b = Inr ct"
  obtains a where "allowedExtensions (ToLower (Ext f)) = Some a" "ct = canonicalMIME a"
    "sniffFamilies a = [] \<or> (\<exists>fam \<in> set (sniffFamilies a). HasPrefix (DetectContentType b) fam)"
  using assms
  by (auto simp: canonicalContentType_def Let_def match_family_ok split: option.splits if_splits)

lemma canonicalContentType_err: "canonicalContentType f b = Inl e \<Longrightarrow> e = ErrUnsupportedMIME"
  by (auto simp: canonicalContentType_def Let_def match_family_err split: option.splits if_splits)

section \<open>The use cases over the Repository contract\<close>

context media_repo
begin

text \<open>Which way an upload went, with what it left behind.\<close>

lemma upload_cases:
  assumes S: "ok c" "media S = repo c" and inv: "inv w"
    and call: "Service_Upload S fresh now x w inp = (r, w')"
    and i: "i = (case in_ClientMediaID inp of Some cid \<Rightarrow> cid | None \<Rightarrow> fresh)"
  obtains (too_large) "r = Inl ErrFileTooLarge" "w' = w"
      "int (length (in_Content inp)) > maxUploadSizeBytes S"
  | (bad_type) "r = Inl ErrUnsupportedMIME" "w' = w"
      "canonicalContentType (in_OriginalFilename inp) (in_Content inp) = Inl ErrUnsupportedMIME"
  | (created) m where "r = Inr \<lparr>res_Media = m, res_AlreadyExisted = False\<rparr>"
      "int (length (in_Content inp)) \<le> maxUploadSizeBytes S"
      "canonicalContentType (in_OriginalFilename inp) (in_Content inp) = Inr (ContentType m)"
      "m = New now i (in_UserID inp) (in_OriginalFilename inp) (ContentType m)
             (int (length (in_Content inp)))"
      "mr_Create (repo c) x w m (in_Content inp) = (Inr (), w')"
  | (replay) m m0 e w1 where "r = Inr \<lparr>res_Media = m, res_AlreadyExisted = True\<rparr>"
      "in_ClientMediaID inp = Some i" "ID m0 = i"
      "mr_Create (repo c) x w m0 (in_Content inp) = (Inl e, w1)" "errors_Is e ErrIDConflict"
      "mr_GetByID (repo c) x w1 (in_UserID inp) i = (Inr m, w')"
  | (conflict) m0 e e2 w1 where "r = Inl ErrMediaIDConflict"
      "in_ClientMediaID inp = Some i" "ID m0 = i"
      "mr_Create (repo c) x w m0 (in_Content inp) = (Inl e, w1)" "errors_Is e ErrIDConflict"
      "mr_GetByID (repo c) x w1 (in_UserID inp) i = (Inl e2, w')"
  | (failed) m0 e where "r = Inl (Wrapped ''media: upload'' e)" "ID m0 = i"
      "mr_Create (repo c) x w m0 (in_Content inp) = (Inl e, w')"
      "errors_Is e ErrIDConflict \<Longrightarrow> in_ClientMediaID inp = None"
proof -
  let ?ct = "canonicalContentType (in_OriginalFilename inp) (in_Content inp)"
  show thesis
  proof (cases "int (length (in_Content inp)) > maxUploadSizeBytes S \<or> (\<exists>e. ?ct = Inl e)")
    case True
    with call canonicalContentType_err [of "in_OriginalFilename inp" "in_Content inp"] too_large bad_type
    show thesis by (auto simp: Service_Upload_def split: if_splits)
  next
    case False
    then obtain ct where ct: "?ct = Inr ct" and le: "int (length (in_Content inp)) \<le> maxUploadSizeBytes S"
      by (cases ?ct) auto
    let ?m = "New now i (in_UserID inp) (in_OriginalFilename inp) ct (int (length (in_Content inp)))"
    obtain q w1 where q: "mr_Create (repo c) x w ?m (in_Content inp) = (q, w1)" by fastforce
    obtain g w2 where g: "mr_GetByID (repo c) x w1 (in_UserID inp) i = (g, w2)" by fastforce
    have eq: "(r, w') = (case q of Inr _ \<Rightarrow> (Inr \<lparr>res_Media = ?m, res_AlreadyExisted = False\<rparr>, w1)
        | Inl err \<Rightarrow> if errors_Is err ErrIDConflict \<and> in_ClientMediaID inp \<noteq> None
            then (case g of Inr ex \<Rightarrow> (Inr \<lparr>res_Media = ex, res_AlreadyExisted = True\<rparr>, w2)
                  | Inl _ \<Rightarrow> (Inl ErrMediaIDConflict, w2))
            else (Inl (Wrapped ''media: upload'' err), w1))"
      using call ct le q g S(2)
      by (cases q; cases g) (auto simp: Service_Upload_def Let_def i [symmetric] split: if_splits)
    show thesis
    proof (cases q)
      case (Inr u)
      with eq ct le q created [of ?m] show thesis by simp
    next
      case (Inl err)
      show thesis
      proof (cases "errors_Is err ErrIDConflict \<and> in_ClientMediaID inp \<noteq> None")
        case True
        then have i': "in_ClientMediaID inp = Some i" using i by auto
        from True Inl eq q g i' show thesis
          by (cases g) (auto intro: replay [OF _ i', of _ ?m err w1] conflict [OF _ i', of ?m err w1])
      next
        case False
        with Inl eq q show thesis by (intro failed [of err ?m]) auto
      qed
    qed
  qed
qed

lemma upload_created:
  assumes S: "ok c" "media S = repo c" and inv: "inv w"
    and call: "Service_Upload S fresh now x w inp = (Inr res, w')"
    and new: "\<not> res_AlreadyExisted res"
  shows "inserted (rows w) (res_Media res) (rows w') \<and>
         content c w (ID (res_Media res)) = None \<and>
         content c w' = (content c w)(ID (res_Media res) \<mapsto> in_Content inp) \<and>
         UserID (res_Media res) = in_UserID inp \<and>
         OriginalFilename (res_Media res) = in_OriginalFilename inp \<and>
         SizeBytes (res_Media res) = int (length (in_Content inp)) \<and>
         SizeBytes (res_Media res) \<le> maxUploadSizeBytes S \<and>
         canonicalContentType (in_OriginalFilename inp) (in_Content inp) = Inr (ContentType (res_Media res)) \<and>
         ID (res_Media res) = (case in_ClientMediaID inp of Some cid \<Rightarrow> cid | None \<Rightarrow> fresh)"
  using S inv call refl
proof (cases rule: upload_cases)
  case (created m)
  from created(4) have sel: "ID m = (case in_ClientMediaID inp of Some cid \<Rightarrow> cid | None \<Rightarrow> fresh)"
    "UserID m = in_UserID inp" "OriginalFilename m = in_OriginalFilename inp"
    "SizeBytes m = int (length (in_Content inp))"
    by (metis New_sel)+
  with create_ok [OF S(1) inv created(5)] created(1-3) show ?thesis by simp
qed (use new in auto)

lemma upload_replay:
  assumes S: "ok c" "media S = repo c" and inv: "inv w"
    and call: "Service_Upload S fresh now x w inp = (Inr res, w')"
    and old: "res_AlreadyExisted res"
  shows "\<exists>i. in_ClientMediaID inp = Some i \<and> visible (rows w) (in_UserID inp) i (res_Media res) \<and>
             rows w' = rows w \<and> (\<forall>j d. content c w j = Some d \<longrightarrow> content c w' j = Some d)"
  using S inv call refl
proof (cases rule: upload_cases)
  case (replay m m0 e w1)
  from create_any [OF S(1) inv replay(4)] have inv1: "inv w1"
    and keeps: "\<forall>j d. content c w j = Some d \<longrightarrow> content c w1 j = Some d" by auto
  from create_conflict [OF S(1) inv replay(4,5)] have "rows w1 = rows w" by blast
  with get_ok [OF inv1 replay(6)] get_frame [OF inv1 replay(6)] keeps replay(1,2)
  show ?thesis by (auto simp del: option.case_eq_if)
qed (use old in auto)

text \<open>An upload, whatever its outcome, changes no row that is there and no content that is stored.\<close>

lemma upload_frame:
  assumes S: "ok c" "media S = repo c" and inv: "inv w"
    and call: "Service_Upload S fresh now x w inp = (r, w')"
  shows "inv w' \<and> (\<forall>i m. rows w i = Some m \<longrightarrow> rows w' i = Some m) \<and>
         (\<forall>i d. content c w i = Some d \<longrightarrow> content c w' i = Some d)"
proof -
  have keep: "inv v \<and> (\<forall>i m. rows w i = Some m \<longrightarrow> rows v i = Some m) \<and>
      (\<forall>i d. content c w i = Some d \<longrightarrow> content c v i = Some d)"
    if "mr_Create (repo c) x w m0 b = (q, v)" for m0 b q v
    using create_any [OF S(1) inv that] by (auto simp: inserted_def)
  from S inv call refl show ?thesis
  proof (cases rule: upload_cases)
    case (created m)
    from keep [OF created(5)] show ?thesis .
  next
    case (replay m m0 e w1)
    with keep [OF replay(4)] get_frame [OF _ replay(6)] show ?thesis by metis
  next
    case (conflict m0 e e2 w1)
    with keep [OF conflict(4)] get_frame [OF _ conflict(6)] show ?thesis by metis
  next
    case (failed m0 e)
    from keep [OF failed(3)] show ?thesis .
  qed (use inv in auto)
qed

lemma list_spec:
  assumes S: "media S = repo c" and inv: "inv w"
    and call: "Service_List S x w u ids = (Inr ms, w')"
  shows "map ID ms = filter (\<lambda>i. \<exists>m. visible (rows w) u i m) (dedupeIDs ids) \<and>
         (\<forall>m \<in> set ms. visible (rows w) u (ID m) m) \<and> rows w' = rows w"
proof (cases "ids = []")
  case True
  with call show ?thesis by (simp add: Service_List_def Let_def dedupeIDs_def)
next
  case False
  with call S obtain found where f: "mr_ListByIDs (repo c) x w u (dedupeIDs ids) = (Inr found, w')"
    and ms: "ms = pick_ordered (index_by_id Map.empty found) [] (dedupeIDs ids)"
    by (auto simp: Service_List_def Let_def split: if_splits prod.splits sum.splits)
  from list_ok [OF inv f] have d: "distinct (map ID found)"
    and found: "\<And>m. m \<in> set found \<longleftrightarrow> ID m \<in> set ids \<and> visible (rows w) u (ID m) m" by auto
  let ?ix = "index_by_id Map.empty found"
  have ix: "?ix i = Some m \<longleftrightarrow> i \<in> set ids \<and> visible (rows w) u i m \<and> ID m = i" for i m
    using lookup_by_Some_iff [of ID found i m] d found
    by (auto simp: index_by_id_eq [OF d] keyed_def split: option.splits)
  have vis_id: "visible (rows w) u i m \<Longrightarrow> i \<in> set ids \<Longrightarrow> ID m = i" for i m
  proof -
    assume "visible (rows w) u i m" "i \<in> set ids"
    show "ID m = i" using \<open>visible (rows w) u i m\<close> row_id [OF inv] by (auto simp: visible_def)
  qed
  let ?sel = "filter (\<lambda>i. \<exists>m. visible (rows w) u i m) (dedupeIDs ids)"
  have "filter (\<lambda>i. ?ix i \<noteq> None) (dedupeIDs ids) = ?sel"
    by (rule filter_cong) (use ix vis_id in \<open>auto\<close>)
  then have ms': "ms = map (\<lambda>i. the (?ix i)) ?sel" by (simp add: ms pick_ordered_eq)
  have sel: "visible (rows w) u i (the (?ix i)) \<and> ID (the (?ix i)) = i" if "i \<in> set ?sel" for i
  proof -
    from that obtain m where "visible (rows w) u i m" "i \<in> set ids" by auto
    with ix [of i m] vis_id [of i m] show ?thesis by simp
  qed
  have "map ID ms = ?sel"
    unfolding ms' map_map by (rule map_idI) (use sel in simp)
  moreover have "\<forall>m \<in> set ms. visible (rows w) u (ID m) m" unfolding ms' using sel by simp
  ultimately show ?thesis using list_frame [OF inv f] by blast
qed

end

end
