(* ===== verification/Service_Properties.thy ===== *)
theory Service_Properties
  imports Storage_Properties Media_Service
begin

text \<open>
  What the use cases guarantee on the wired service: PostgreSQL rows, the S3 store, and the
  service over both. The statements come from the lemmas proved over the Repository contract,
  through its interpretation on the wired repository.
\<close>

definition wired_service :: "nat \<Rightarrow> uuid_lib \<times> 's Store \<Rightarrow> int \<Rightarrow> (db, 's) world Service" where
  "wired_service maxLimit c maxBytes = NewService maxLimit (wired_iface c) maxBytes"

lemma wired_service_sel [simp]:
  "media (wired_service n c k) = wired_iface c" "maxUploadSizeBytes (wired_service n c k) = k"
  "maxListIDs (wired_service n c k) = n"
  by (simp_all add: wired_service_def NewService_def)

lemmas service_defs =
  Service_Upload_def Service_Get_def Service_Download_def Service_List_def Service_Delete_def
  Service_DeleteByIDs_def Service_DeleteAllMine_def

abbreviation demo_service :: "(ctx \<Rightarrow> bool) \<Rightarrow> (db, mem_bucket) world Service" where
  "demo_service F \<equiv> wired_service 100 (demo_config F) 1024"

definition demo_upload :: "uuid \<Rightarrow> uuid option \<Rightarrow> UploadInput" where
  "demo_upload u i = \<lparr>in_UserID = u, in_ClientMediaID = i, in_OriginalFilename = ''a.txt'', in_Content = demo_content\<rparr>"

lemma demo_ext:
  "ToLower (Ext ''invoice.pdf'') = ''.pdf''" "ToLower (Ext ''a.txt'') = ''.txt''" "ToLower (Ext ''a.PNG'') = ''.png''"
  by code_simp+

lemma demo_sniff: "DetectContentType demo_content = ''text/plain; charset=utf-8''"
  by code_simp

lemma demo_type [simp]: "canonicalContentType ''a.txt'' demo_content = Inr ''text/plain''"
  by (simp add: canonicalContentType_def demo_ext demo_sniff allowedExtensions_def HasPrefix_def)

lemma demo_upload_sel [simp]:
  "in_UserID (demo_upload u i) = u" "in_ClientMediaID (demo_upload u i) = i"
  "in_OriginalFilename (demo_upload u i) = ''a.txt''" "in_Content (demo_upload u i) = demo_content"
  by (simp_all add: demo_upload_def)

section \<open>File types\<close>

text \<open>
  Claim C27. Exactly which files are accepted, and as what: the extension, compared without
  case, is one of nine; the type is the server's own for that extension, never the client's; and
  the bytes sniff as exactly the type of that image or as PDF, as plain text in one of three
  encodings for \<open>.txt\<close> and \<open>.csv\<close>, as that or as XML for \<open>.xml\<close>. Only \<open>.heic\<close> is taken
  without a look at the bytes. Nothing else is accepted, and nothing of this is refused.
\<close>

theorem accepted_types:
  "canonicalContentType f b = Inr ct \<longleftrightarrow>
     (ToLower (Ext f), ct) = (''.heic'', ''image/heic'') \<or>
     (ToLower (Ext f), ct, DetectContentType b) \<in>
       {(''.jpg'', ''image/jpeg'', ''image/jpeg''), (''.jpeg'', ''image/jpeg'', ''image/jpeg''),
        (''.png'', ''image/png'', ''image/png''), (''.webp'', ''image/webp'', ''image/webp''),
        (''.pdf'', ''application/pdf'', ''application/pdf''),
        (''.txt'', ''text/plain'', ''text/plain; charset=utf-8''),
        (''.txt'', ''text/plain'', ''text/plain; charset=utf-16be''),
        (''.txt'', ''text/plain'', ''text/plain; charset=utf-16le''),
        (''.csv'', ''text/csv'', ''text/plain; charset=utf-8''),
        (''.csv'', ''text/csv'', ''text/plain; charset=utf-16be''),
        (''.csv'', ''text/csv'', ''text/plain; charset=utf-16le''),
        (''.xml'', ''application/xml'', ''text/xml; charset=utf-8''),
        (''.xml'', ''application/xml'', ''text/plain; charset=utf-8''),
        (''.xml'', ''application/xml'', ''text/plain; charset=utf-16be''),
        (''.xml'', ''application/xml'', ''text/plain; charset=utf-16le'')}"
proof -
  let ?e = "ToLower (Ext f)"
  consider "?e = ''.jpg''"
    | "?e = ''.jpeg''"
    | "?e = ''.png''"
    | "?e = ''.webp''"
    | "?e = ''.heic''"
    | "?e = ''.pdf''"
    | "?e = ''.xml''"
    | "?e = ''.txt''"
    | "?e = ''.csv''"
    | "?e \<notin> {''.jpg'', ''.jpeg'', ''.png'', ''.webp'', ''.heic'', ''.pdf'', ''.xml'', ''.txt'', ''.csv''}"
    by blast
  then show ?thesis
    by cases (simp_all add: canonicalContentType_def allowedExtensions_def match_family_ok sniffed_families eq_commute [of ct]
        conj_disj_distribL)
qed

text \<open>
  A file is what its name says: content that starts with the PNG signature is
  accepted under \<open>.png\<close> only (and under \<open>.heic\<close>, which is not sniffed), whatever follows and
  whatever the rest of the name; likewise the PDF signature under \<open>.pdf\<close>.
\<close>

theorem signature_must_match_name:
  assumes "take 8 b = [0x89, 0x50, 0x4E, 0x47, 0x0D, 0x0A, 0x1A, 0x0A] \<and> ext = ''.png'' \<and> ct = ''image/png'' \<or>
           take 5 b = bytes_of ''%PDF-'' \<and> ext = ''.pdf'' \<and> ct = ''application/pdf''"
  shows "canonicalContentType f b =
           (if ToLower (Ext f) = ext then Inr ct
            else if ToLower (Ext f) = ''.heic'' then Inr ''image/heic''
            else Inl ErrUnsupportedMIME)"
proof -
  from assms have sniffed: "DetectContentType b = ct" and ct: "ext = ''.png'' \<and> ct = ''image/png'' \<or>
      ext = ''.pdf'' \<and> ct = ''application/pdf''"
    by (auto intro: sniff_png sniff_pdf)
  show ?thesis
    unfolding canonicalContentType_def Let_def sniffed allowedExtensions_def
    using ct by (elim disjE conjE) (simp_all add: HasPrefix_def)
qed

theorem signature_must_match_name_witness:
  "canonicalContentType ''invoice.pdf'' [0x89, 0x50, 0x4E, 0x47, 0x0D, 0x0A, 0x1A, 0x0A, 0, 0] = Inl ErrUnsupportedMIME"
  using signature_must_match_name [of "[0x89, 0x50, 0x4E, 0x47, 0x0D, 0x0A, 0x1A, 0x0A, 0, 0]" "''.png''" "''image/png''"
      "''invoice.pdf''"] demo_ext
  by simp

section \<open>Upload\<close>

text \<open>
  What is refused is refused before anything is stored: a file larger than the
  limit is answered with \<open>ErrFileTooLarge\<close>, one whose type is not accepted with
  \<open>ErrUnsupportedMIME\<close>, and neither call changes any state.
\<close>

theorem upload_refusals:
  "(int (length (in_Content inp)) > maxUploadSizeBytes S \<longrightarrow>
      Service_Upload S fresh now x w inp = (Inl ErrFileTooLarge, w)) \<and>
   (int (length (in_Content inp)) \<le> maxUploadSizeBytes S \<longrightarrow>
      isl (canonicalContentType (in_OriginalFilename inp) (in_Content inp)) \<longrightarrow>
      Service_Upload S fresh now x w inp = (Inl ErrUnsupportedMIME, w))"
  using canonicalContentType_err [of "in_OriginalFilename inp" "in_Content inp"]
  by (auto simp: Service_Upload_def isl_def)

theorem upload_refusals_witness:
  "Service_Upload (wired_service 100 (demo_config (\<lambda>_. False)) 1) 9 0 RequestCtx
     (demo_world (demo_db [] [] []) empty_bucket) (demo_upload 7 None) =
   (Inl ErrFileTooLarge, demo_world (demo_db [] [] []) empty_bucket)"
  using upload_refusals [of "wired_service 100 (demo_config (\<lambda>_. False)) 1" "demo_upload 7 None" 9 0 RequestCtx]
  by (simp add: demo_upload_def)

text \<open>
  Claim C12. A successful new upload stores the file: the row returned is the caller's, under
  the client's id if one was given, with the file's name, size (within the limit) and the
  checked type; the row and exactly the uploaded bytes are stored where there was neither,
  and nothing else changes.
\<close>

theorem upload_stores:
  assumes "store_ok c" and "world_inv w"
    and "Service_Upload (wired_service n c k) fresh now x w inp = (Inr res, w')"
    and "\<not> res_AlreadyExisted res"
  shows "inserted (world_rows w) (res_Media res) (world_rows w') \<and>
         world_content c w (ID (res_Media res)) = None \<and>
         world_content c w' = (world_content c w)(ID (res_Media res) \<mapsto> in_Content inp) \<and>
         ID (res_Media res) = (case in_ClientMediaID inp of Some cid \<Rightarrow> cid | None \<Rightarrow> fresh) \<and>
         UserID (res_Media res) = in_UserID inp \<and>
         OriginalFilename (res_Media res) = in_OriginalFilename inp \<and>
         SizeBytes (res_Media res) = int (length (in_Content inp)) \<and>
         SizeBytes (res_Media res) \<le> k \<and>
         canonicalContentType (in_OriginalFilename inp) (in_Content inp) = Inr (ContentType (res_Media res))"
  using wired_media.upload_created [OF assms(1) wired_service_sel(1) assms(2,3,4)]
  unfolding wired_service_sel by blast

lemma demo_upload_run:
  "fst (Service_Upload (demo_service (\<lambda>_. False)) 9 0 RequestCtx (demo_world (demo_db [] [] []) empty_bucket)
     (demo_upload 7 (Some 1))) = Inr \<lparr>res_Media = demo_media 1 7, res_AlreadyExisted = False\<rparr>"
  by (simp add: Service_Upload_def demo_run demo_media_def)

theorem upload_stores_witness:
  "world_content (demo_config (\<lambda>_. False)) (snd (Service_Upload (demo_service (\<lambda>_. False)) 9 0 RequestCtx
     (demo_world (demo_db [] [] []) empty_bucket) (demo_upload 7 (Some 1)))) 1 = Some demo_content"
  using upload_stores [of "demo_config (\<lambda>_. False)" "demo_world (demo_db [] [] []) empty_bucket" 100 1024 9 0 RequestCtx
      "demo_upload 7 (Some 1)", OF _ _ prod_eqI, OF _ _ trans [OF demo_upload_run fst_conv [symmetric]] snd_conv [symmetric]]
  by (simp add: world_inv_def)

text \<open>
  Claim C13. Retrying an upload is safe: a call that reports \<open>AlreadyExisted\<close> had a client
  id, returns the row that id already had, which is the caller's own and not deleted, and
  changes no row and no stored content.
\<close>

theorem upload_replay_safe:
  assumes "store_ok c" and "world_inv w"
    and "Service_Upload (wired_service n c k) fresh now x w inp = (Inr res, w')"
    and "res_AlreadyExisted res"
  shows "(\<exists>i. in_ClientMediaID inp = Some i \<and> world_rows w i = Some (res_Media res) \<and>
              UserID (res_Media res) = in_UserID inp \<and> DeletedAt (res_Media res) = None) \<and>
         world_rows w' = world_rows w \<and>
         (\<forall>j d. world_content c w j = Some d \<longrightarrow> world_content c w' j = Some d)"
  using wired_media.upload_replay [OF assms(1) wired_service_sel(1) assms(2,3,4)]
  by (auto simp: visible_def)

lemma demo_replay_run:
  "Service_Upload (demo_service (\<lambda>_. False)) 9 0 RequestCtx (demo_world (demo_db [demo_media 1 7] [] []) (demo_bucket [1] []))
     (demo_upload 7 (Some 1)) =
   (Inr \<lparr>res_Media = demo_media 1 7, res_AlreadyExisted = True\<rparr>, demo_world (demo_db [demo_media 1 7] [] []) (demo_bucket [1] []))"
  by (simp add: Service_Upload_def demo_run demo_world_def)

theorem upload_replay_safe_witness:
  "\<exists>i. in_ClientMediaID (demo_upload 7 (Some 1)) = Some i \<and>
       world_rows (demo_world (demo_db [demo_media 1 7] [] []) (demo_bucket [1] [])) i = Some (demo_media 1 7)"
  using upload_replay_safe [OF _ _ demo_replay_run] by (simp add: world_inv_def)

text \<open>
  An id whose content is stored but that has no row (the cleanup after a failed
  upload failed) can never be uploaded again: its owner is told that the id belongs to
  someone else, although nobody has a row with it.
\<close>

theorem orphan_blocks_id:
  "Service_Upload (demo_service (\<lambda>_. False)) 9 0 RequestCtx (demo_world (demo_db [] [] []) (demo_bucket [1] []))
     (demo_upload 7 (Some 1)) =
   (Inl ErrMediaIDConflict, demo_world (demo_db [] [] []) (demo_bucket [1] []))"
  by (simp add: Service_Upload_def demo_run demo_world_def)

text \<open>
  A database failure during the replay check is reported as a conflict: the caller
  retries the upload of their own, fully stored file, the lookup fails for any reason, and the
  answer is \<open>ErrMediaIDConflict\<close>.
\<close>

theorem lookup_failure_reported_as_conflict:
  "fst (Service_Upload (demo_service (\<lambda>_. False)) 9 0 RequestCtx
     (demo_world (demo_db [demo_media 1 7] [] [LostBefore ''timeout'']) (demo_bucket [1] [])) (demo_upload 7 (Some 1))) =
   Inl ErrMediaIDConflict"
  by (simp add: Service_Upload_def demo_run)

text \<open>Content that appears during an upload is the bytes of that upload, under its id.\<close>

lemma create_new_content:
  assumes "store_ok c" and "Repository_Create (wired_repo c) x w m b = (r, w')"
    and "store_content c (blob_st w) i = None" and "store_content c (blob_st w') i = Some b'"
  shows "b' = b"
  using assms(1) wired assms(2)
proof (cases rule: s3_pg.create_cases)
  case (compensated e s1 err d1 q)
  from s3_store.delete_result [OF assms(1) compensated(6)] compensated(3) assms(3,4) show ?thesis
    by (auto split: if_splits)
qed (use assms(3,4) in \<open>auto split: if_splits\<close>)

text \<open>An upload for an id with another user's row is refused, and the row stays.\<close>

lemma upload_of_foreign_id:
  assumes "store_ok c" and "world_inv w" and "Service_Upload (wired_service n c k) fresh now x w inp = (r, w')"
    and "in_ClientMediaID inp = Some i" and "world_rows w i = Some row" and "UserID row \<noteq> in_UserID inp"
    and "world_content c w i = None"
  shows "isl r \<and> world_inv w' \<and> world_rows w' i = Some row \<and>
         (\<forall>b. world_content c w' i = Some b \<longrightarrow> b = in_Content inp)"
proof -
  from wired_media.upload_frame [OF assms(1) wired_service_sel(1) assms(2,3)] assms(5)
  have kept: "world_inv w'" "world_rows w' i = Some row" by blast+
  have new: "b = in_Content inp"
    if "mr_Create (wired_iface c) x w m0 (in_Content inp) = (q, v)" "world_content c v i = Some b" for m0 q v b
    using that create_new_content [OF assms(1), of x w m0 "in_Content inp" q v i b] assms(7)
    by (simp add: world_content_def iface_simps)
  have i: "i = (case in_ClientMediaID inp of Some cid \<Rightarrow> cid | None \<Rightarrow> fresh)" using assms(4) by simp
  from assms(1) wired_service_sel(1) assms(2,3) i show ?thesis
  proof (cases rule: wired_media.upload_cases)
    case (created m)
    from created(4) i have "ID m = i" by (metis New_sel(1))
    with wired_media.create_ok [OF assms(1,2) created(5)] assms(5) show ?thesis by (simp add: inserted_def)
  next
    case (replay m m0 e w1)
    from wired_media.create_any [OF assms(1,2) replay(4)] have "world_inv w1" by blast
    from wired_media.get_ok [OF this replay(6)] wired_media.create_conflict [OF assms(1,2) replay(4,5)] assms(5,6)
    show ?thesis by (auto simp: visible_def)
  next
    case (conflict m0 e e2 w1)
    from wired_media.create_any [OF assms(1,2) conflict(4)] have "world_inv w1" by blast
    from wired_media.get_frame [OF this conflict(6)] new [OF conflict(4)] kept conflict(1) show ?thesis by simp
  next
    case (failed m0 e)
    with new [OF failed(3)] kept show ?thesis by simp
  qed (use kept assms(7) in simp_all)
qed

text \<open>
  Claim C40. A lost reply to the insert can hand one user the content of another. Whenever an
  upload is reported as failed although its row was committed, and its cleanup removed the
  content: if then another user uploads any content under that id, they are refused; but if some
  content is there afterwards (the cleanup of the refused upload failed), it is their bytes, and
  as soon as database and S3 answer, the first user's download returns them as the first user's
  file.
\<close>

theorem lost_insert_reply_exposes_content:
  assumes "store_ok (L, S)" and "world_inv w"
    and "Repository_Create (wired_repo (L, S)) x w m b = (Inl e, w1)"
    and "world_rows w1 \<noteq> world_rows w" and "world_content (L, S) w1 (ID m) = None"
    and "Service_Upload (wired_service n (L, S) k) fresh now x2 w1 inp = (r2, w2)"
    and "in_ClientMediaID inp = Some (ID m)" and "in_UserID inp \<noteq> UserID m"
    and "world_content (L, S) w2 (ID m) \<noteq> None"
    and "db_faults (meta_st w2) = []" and "s3_answers (client S) y"
  shows "isl r2 \<and> (\<exists>row. same_file m row \<and>
           fst (Service_Download (wired_service n (L, S) k) y w2 (UserID m) (ID m)) = Inr (row, in_Content inp))"
proof -
  have "mr_Create (wired_iface (L, S)) x w m b = (Inl e, w1)" using assms(3) by (simp add: iface_simps)
  from wired_media.create_any [OF assms(1,2) this] assms(4)
  obtain row where inv1: "world_inv w1" and row: "world_rows w1 (ID m) = Some row" "same_file m row"
    by (auto simp: inserted_def)
  from row(2) have own: "UserID row = UserID m" "DeletedAt row = None" by (auto simp: same_file_def)
  with upload_of_foreign_id [OF assms(1) inv1 assms(6,7) row(1) _ assms(5)] assms(8,9)
  have r2: "isl r2" and inv2: "db_inv (meta_st w2)" and row2: "media_rows (meta_st w2) (ID m) = Some row"
    and b2: "store_content (L, S) (blob_st w2) (ID m) = Some (in_Content inp)"
    by (auto simp: world_inv_def world_rows_def world_content_def)
  from Store_Get_answered [OF assms(11) b2] obtain s' where "Store_Get L S y (blob_st w2) (ID m) = (Inr (in_Content inp), s')"
    by (metis prod.collapse)
  with GetByID_exact [OF inv2 assms(10), of y "UserID m" "ID m"] row2 own row(2) r2 show ?thesis
    by (simp add: Service_Download_def iface_simps Repository_GetContent_def)
qed

theorem lost_insert_reply_exposes_content_witness:
  "case snd (Repository_Create (wired_repo (demo_config (\<lambda>x. \<not> cancellable x))) RequestCtx
          (demo_world (demo_db [] [] [LostAfter ''connection reset'']) (demo_bucket [] [Answered, NotReached]))
          (demo_media 9 7) demo_content) of w1 \<Rightarrow>
   \<exists>row. same_file (demo_media 9 7) row \<and>
     fst (Service_Download (demo_service (\<lambda>x. \<not> cancellable x)) RequestCtx
       (snd (Service_Upload (demo_service (\<lambda>x. \<not> cancellable x)) 0 0 RequestCtx w1
          ((demo_upload 8 (Some 9))\<lparr>in_Content := [0x42, 0x43, 0x44]\<rparr>))) 7 9) = Inr (row, [0x42, 0x43, 0x44])"
proof -
  let ?F = "\<lambda>x. \<not> cancellable x"
  let ?w = "demo_world (demo_db [] [] [LostAfter ''connection reset'']) (demo_bucket [] [Answered, NotReached])"
  let ?inp = "(demo_upload 8 (Some 9))\<lparr>in_Content := [0x42, 0x43, 0x44]\<rparr>"
  obtain r1 w1 where first: "Repository_Create (wired_repo (demo_config ?F)) RequestCtx ?w (demo_media 9 7) demo_content = (r1, w1)"
    by fastforce
  obtain r2 w2 where second: "Service_Upload (demo_service ?F) 0 0 RequestCtx w1 ?inp = (r2, w2)" by fastforce
  have "DetectContentType [0x42, 0x43, 0x44] = ''text/plain; charset=utf-8''" by code_simp
  then have ct: "canonicalContentType ''a.txt'' [0x42, 0x43, 0x44] = Inr ''text/plain''"
    by (simp add: canonicalContentType_def demo_ext allowedExtensions_def HasPrefix_def)
  have lost: "\<exists>e. r1 = Inl e" "world_rows w1 \<noteq> world_rows ?w" "world_content (demo_config ?F) w1 9 = None"
    using first by (auto simp: demo_run demo_media_def world_defs media_rows_def stored_row_def fun_eq_iff)
  moreover have "world_content (demo_config ?F) w2 9 \<noteq> None" "db_faults (meta_st w2) = []"
    using first second ct by (auto simp: Service_Upload_def demo_run demo_media_def world_defs stored_row_def)
  moreover have "world_inv ?w" by (simp add: world_inv_def)
  ultimately show ?thesis
    using lost_insert_reply_exposes_content [of mem_uuid "mem_store ?F" ?w RequestCtx "demo_media 9 7" demo_content _ w1
        100 1024 0 0 RequestCtx ?inp r2 w2 RequestCtx] first second by (auto simp: mem_s3_answers)
qed

section \<open>Ownership\<close>

text \<open>
  Claim C14. Users are isolated: no upload and no delete by one user, whatever ids it names and
  whether it succeeds or fails, changes the row of another user's file, or its content if it has
  any. (A row without content breaks the storage contract; only for such a row can another
  user's upload put content, as shown above.)
\<close>

theorem users_isolated:
  assumes "store_ok c" and "world_inv w"
    and "Service_Upload (wired_service n c k) fresh now x w inp = (ru, w') \<and> in_UserID inp = u \<or>
         Service_Delete (wired_service n c k) x w u i = (ra, w') \<or>
         Service_DeleteByIDs (wired_service n c k) x w u is = (rn, w') \<or>
         Service_DeleteAllMine (wired_service n c k) x w u = (rn, w')"
    and "world_rows w j = Some m" and "UserID m \<noteq> u"
  shows "world_rows w' j = Some m \<and>
         (world_content c w' j = world_content c w j \<or>
          world_content c w j = None \<and> Service_Upload (wired_service n c k) fresh now x w inp = (ru, w'))"
proof -
  from assms(4,5) have j: "j \<notin> owned_ids (world_rows w) u" by (auto simp: owned_ids_def)
  have del: ?thesis if "mr_Delete (wired_iface c) x w u i = (ra, w') \<or>
      mr_DeleteByIDs (wired_iface c) x w u is' = (rn, w') \<or> mr_DeleteAllByUser (wired_iface c) x w u = (rn, w')" for is'
    using wired_media.delete_others [OF assms(1,2) that] j assms(4) by simp
  from assms(3) show ?thesis
  proof (elim disjE conjE)
    assume up: "Service_Upload (wired_service n c k) fresh now x w inp = (ru, w')"
    from wired_media.upload_frame [OF assms(1) wired_service_sel(1) assms(2) up]
    have "world_rows w' j = Some m" "\<And>b. world_content c w j = Some b \<Longrightarrow> world_content c w' j = Some b"
      using assms(4) by blast+
    with up show ?thesis by (cases "world_content c w j") auto
  next
    assume "Service_Delete (wired_service n c k) x w u i = (ra, w')"
    with del [of "is"] show ?thesis by (simp add: Service_Delete_def)
  next
    assume "Service_DeleteByIDs (wired_service n c k) x w u is = (rn, w')"
    with del [of "dedupeIDs is"] assms(4) show ?thesis
      by (auto simp: Service_DeleteByIDs_def Let_def split: if_splits)
  next
    assume "Service_DeleteAllMine (wired_service n c k) x w u = (rn, w')"
    with del [of "is"] show ?thesis by (simp add: Service_DeleteAllMine_def)
  qed
qed

theorem users_isolated_witness:
  "world_rows (snd (Service_DeleteByIDs (demo_service (\<lambda>_. False)) RequestCtx
      (demo_world (demo_db [demo_media 1 7, demo_media 2 8] [] []) (demo_bucket [1, 2] [])) 7 [2, 1, 2])) 2 = Some (demo_media 2 8)"
  using users_isolated [of "demo_config (\<lambda>_. False)"
      "demo_world (demo_db [demo_media 1 7, demo_media 2 8] [] []) (demo_bucket [1, 2] [])" 100 1024 9 0 RequestCtx
      "demo_upload 7 None" _ _ 7 1 _ "[2, 1, 2]" _ 2 "demo_media 2 8",
      OF _ _ disjI2, OF _ _ disjI2, OF _ _ disjI1, OF _ _ prod.collapse [symmetric]]
  by (simp add: world_defs media_rows_def)

section \<open>Listing, downloading, deleting\<close>

text \<open>
  \<open>List\<close> on a reachable database answers with the caller's files among the
  requested ids, each once, in the order of first mention; ids that are unknown, deleted or
  someone else's are left out. Only more than \<open>maxListIDs\<close> distinct ids are an error, and
  nothing changes.
\<close>

theorem list_in_order:
  assumes "world_inv w" and "db_faults (meta_st w) = []"
  shows "if card (set ids) > n then Service_List (wired_service n c k) x w u ids = (Inl ErrTooManyIDs, w)
         else \<exists>ms. Service_List (wired_service n c k) x w u ids = (Inr ms, w) \<and>
                map ID ms = filter (\<lambda>i. \<exists>m. visible (world_rows w) u i m) (rev (remdups (rev ids))) \<and>
                (\<forall>m \<in> set ms. visible (world_rows w) u (ID m) m)"
proof (cases "card (set ids) > n")
  case True
  then show ?thesis by (auto simp: Service_List_def Let_def length_dedupeIDs)
next
  case False
  have "\<exists>found. mr_ListByIDs (wired_iface c) x w u js = (Inr found, w)" for js
    using assms(2)
    by (simp add: iface_simps Repository_ListByIDs_def MediaRepository_ListByIDs_def run_stmt_def
        settle_def select_media_def)
  then obtain found where "mr_ListByIDs (wired_iface c) x w u (dedupeIDs ids) = (Inr found, w)" by blast
  with False have "\<exists>ms. Service_List (wired_service n c k) x w u ids = (Inr ms, w)"
    by (simp add: Service_List_def Let_def length_dedupeIDs)
  then obtain ms where ms: "Service_List (wired_service n c k) x w u ids = (Inr ms, w)" by blast
  with wired_media.list_spec [OF wired_service_sel(1) assms(1) ms] False
  show ?thesis by (simp add: dedupeIDs_eq)
qed

theorem list_in_order_witness:
  "\<exists>ms. Service_List (demo_service (\<lambda>_. False)) RequestCtx
      (demo_world (demo_db [demo_media 1 7, demo_media 2 8, demo_media 3 7] [] []) (demo_bucket [] [])) 7 [3, 2, 1, 3] =
      (Inr ms, demo_world (demo_db [demo_media 1 7, demo_media 2 8, demo_media 3 7] [] []) (demo_bucket [] [])) \<and>
    map ID ms = [3, 1]"
proof -
  let ?w = "demo_world (demo_db [demo_media 1 7, demo_media 2 8, demo_media 3 7] [] []) (demo_bucket [] [])"
  have vis: "filter (\<lambda>i. \<exists>m. visible (world_rows ?w) 7 i m) (rev (remdups (rev [3, 2, 1, 3]))) = [3, 1]"
    by (simp add: visible_def world_defs media_rows_def)
  have few: "\<not> card (set [3, 2, 1, 3 :: uuid]) > 100" by (simp add: card_insert_if)
  show ?thesis
    using list_in_order [of ?w 100 "[3, 2, 1, 3]" "demo_config (\<lambda>_. False)" 1024 RequestCtx 7] few
    unfolding vis by (auto simp: world_inv_def)
qed

text \<open>
  \<open>DeleteByIDs\<close> on a reachable database deletes the caller's files among the
  requested ids, each at most once, and reports exactly how many it deleted; more than
  \<open>maxListIDs\<close> distinct ids are refused without deleting anything.
\<close>

theorem delete_by_ids_counts:
  assumes "world_inv w" and "db_faults (meta_st w) = []"
  shows "if card (set ids) > n then Service_DeleteByIDs (wired_service n c k) x w u ids = (Inl ErrTooManyIDs, w)
         else \<exists>w'. Service_DeleteByIDs (wired_service n c k) x w u ids =
                 (Inr (int (card (set ids \<inter> owned_ids (world_rows w) u))), w') \<and>
               world_rows w' = removed (world_rows w) (set ids \<inter> owned_ids (world_rows w) u)"
proof (cases "card (set ids) > n")
  case True
  then show ?thesis by (auto simp: Service_DeleteByIDs_def Let_def length_dedupeIDs)
next
  case False
  show ?thesis
  proof (cases "ids = []")
    case True
    then show ?thesis by (simp add: Service_DeleteByIDs_def Let_def dedupeIDs_def)
  next
    case ne: False
    have call: "Service_DeleteByIDs (wired_service n c k) x w u ids =
        mr_DeleteByIDs (wired_iface c) x w u (dedupeIDs ids)"
      using False ne by (simp add: Service_DeleteByIDs_def Let_def length_dedupeIDs)
    obtain r w' where r: "mr_DeleteByIDs (wired_iface c) x w u (dedupeIDs ids) = (Inr r, w')"
      using assms(2) ne
      by (auto simp: iface_simps Repository_DeleteByIDs_def MediaRepository_DeleteByIDs_def run_stmt_def
          settle_def delete_and_enqueue_def Let_def)
    from wired_media.delete_ids_ok [OF assms(1) r] False call r show ?thesis by simp
  qed
qed

theorem delete_by_ids_counts_witness:
  "fst (Service_DeleteByIDs (demo_service (\<lambda>_. False)) RequestCtx
     (demo_world (demo_db [demo_media 1 7, demo_media 2 8] [] []) (demo_bucket [1, 2] [])) 7 [2, 1, 1, 5]) = Inr 1"
proof -
  let ?w = "demo_world (demo_db [demo_media 1 7, demo_media 2 8] [] []) (demo_bucket [1, 2] [])"
  have "set [2, 1, 1, 5] \<inter> owned_ids (world_rows ?w) 7 = {1}"
    by (auto simp: owned_ids_def world_defs media_rows_def)
  with delete_by_ids_counts [of ?w 100 "[2, 1, 1, 5]" "demo_config (\<lambda>_. False)" 1024 RequestCtx 7]
  show ?thesis by (auto simp: world_inv_def)
qed

text \<open>
  Under the storage contract a download never fails for want of content: when the
  database and S3 answer, the owner gets the row and the stored bytes, as many as the row
  says, and anyone else gets \<open>ErrNotFound\<close>.
\<close>

theorem download_complete:
  assumes "store_ok (L, S)" and "world_inv w" and "db_faults (meta_st w) = []"
    and "s3_answers (client S) x"
    and "stored (world_rows w) (world_content (L, S) w)"
  shows "case world_rows w i of
           None \<Rightarrow> fst (Service_Download (wired_service n (L, S) k) x w u i) = Inl ErrNotFound
         | Some m \<Rightarrow>
             if UserID m = u \<and> DeletedAt m = None
             then (\<exists>b. fst (Service_Download (wired_service n (L, S) k) x w u i) = Inr (m, b) \<and>
                       world_content (L, S) w i = Some b \<and> SizeBytes m = int (length b))
             else fst (Service_Download (wired_service n (L, S) k) x w u i) = Inl ErrNotFound"
proof -
  note get = GetByID_exact [OF assms(2) [unfolded world_inv_def] assms(3), of x u i]
  show ?thesis
  proof (cases "world_rows w i")
    case None
    with get show ?thesis by (simp add: Service_Download_def iface_simps Repository_GetContent_def world_rows_def)
  next
    case (Some m)
    show ?thesis
    proof (cases "UserID m = u \<and> DeletedAt m = None")
      case True
      from assms(5) Some obtain b where b: "world_content (L, S) w i = Some b" "SizeBytes m = int (length b)"
        by (auto simp: stored_def)
      from Store_Get_answered [OF assms(4) b(1) [unfolded world_content_def]]
      obtain s' where "Store_Get L S x (blob_st w) i = (Inr b, s')" by (metis prod.collapse)
      with get Some True b show ?thesis
        by (simp add: Service_Download_def iface_simps Repository_GetContent_def world_rows_def)
    next
      case False
      with get Some show ?thesis
        by (auto simp: Service_Download_def iface_simps Repository_GetContent_def world_rows_def)
    qed
  qed
qed

theorem download_complete_witness:
  "\<exists>b. fst (Service_Download (demo_service (\<lambda>_. False)) RequestCtx
          (demo_world (demo_db [demo_media 1 7] [] []) (demo_bucket [1] [])) 7 1) = Inr (demo_media 1 7, b)"
  using download_complete [of mem_uuid "mem_store (\<lambda>_. False)" "demo_world (demo_db [demo_media 1 7] [] []) (demo_bucket [1] [])"
      RequestCtx 100 1024 7 1]
  by (simp add: world_defs media_rows_def mem_s3_answers stored_def)

lemma upload_download:
  assumes "store_ok (L, S)" and "world_inv w"
    and "Service_Upload (wired_service n (L, S) k) fresh now x w inp = (Inr res, w')"
    and "\<not> res_AlreadyExisted res"
    and "db_faults (meta_st w') = []" and "s3_answers (client S) y"
  shows "\<exists>m. fst (Service_Download (wired_service n (L, S) k) y w' (in_UserID inp) (ID (res_Media res))) =
                 Inr (m, in_Content inp) \<and> same_file (res_Media res) m"
proof -
  let ?i = "ID (res_Media res)"
  note up = wired_media.upload_created [OF assms(1) wired_service_sel(1) assms(2,3,4)]
  have inv: "db_inv (meta_st w')"
    using wired_media.upload_frame [OF assms(1) wired_service_sel(1) assms(2,3)] by (simp add: world_inv_def)
  from up obtain m where m: "media_rows (meta_st w') ?i = Some m" "same_file (res_Media res) m"
    by (auto simp: inserted_def world_rows_def)
  from up have own: "UserID (res_Media res) = in_UserID inp"
    and b: "store_content (L, S) (blob_st w') ?i = Some (in_Content inp)"
    by (auto simp: world_content_def fun_eq_iff split: if_splits)
  from m own have m': "UserID m = in_UserID inp" "DeletedAt m = None" by (auto simp: same_file_def)
  from Store_Get_answered [OF assms(6) b] obtain s' where "Store_Get L S y (blob_st w') ?i = (Inr (in_Content inp), s')"
    by (metis prod.collapse)
  with GetByID_exact [OF inv assms(5), of y "in_UserID inp" ?i] m m' show ?thesis
    by (simp add: Service_Download_def iface_simps Repository_GetContent_def)
qed

text \<open>
  Round trip through the service: what was just uploaded is downloaded unchanged,
  by its owner, with the same description.
\<close>

theorem upload_download_roundtrip:
  assumes "store_ok (L, S)" and "world_inv w"
    and "Service_Upload (wired_service n (L, S) k) fresh now x w inp = (Inr res, w')"
    and "\<not> res_AlreadyExisted res"
    and "db_faults (meta_st w') = []" and "s3_answers (client S) y"
  shows "\<exists>m. fst (Service_Download (wired_service n (L, S) k) y w' (in_UserID inp) (ID (res_Media res))) =
                 Inr (m, in_Content inp) \<and> same_file (res_Media res) m"
  using assms by (rule upload_download)

theorem upload_download_roundtrip_witness:
  "\<exists>m. fst (Service_Download (demo_service (\<lambda>_. False)) RequestCtx
     (snd (Service_Upload (demo_service (\<lambda>_. False)) 9 0 RequestCtx (demo_world (demo_db [] [] []) empty_bucket)
        (demo_upload 7 (Some 1)))) 7 1) = Inr (m, demo_content)"
proof -
  let ?up = "Service_Upload (demo_service (\<lambda>_. False)) 9 0 RequestCtx (demo_world (demo_db [] [] []) empty_bucket)
        (demo_upload 7 (Some 1))"
  have run: "?up = (Inr \<lparr>res_Media = demo_media 1 7, res_AlreadyExisted = False\<rparr>, snd ?up)"
    using demo_upload_run by (simp add: prod_eq_iff)
  have quiet: "db_faults (meta_st (snd ?up)) = []" by (simp add: Service_Upload_def demo_run)
  show ?thesis
    using upload_download_roundtrip [OF _ _ run _ quiet, of RequestCtx] by (auto simp: world_inv_def mem_s3_answers)
qed

end
