(* ===== verification/Http_Media.thy ===== *)
theory Http_Media
  imports Media_Service "HOL-Library.AList"
begin

text \<open>
  The HTTP handlers of the media endpoints (\<^verbatim>\<open>internal/transport/http/media\<close>): requests
  and their validation, responses, and every handler over the service. A handler takes the
  request and the state and returns what it writes and the state it leaves. The helpers of
  the shared library that write responses (\<^verbatim>\<open>httpx\<close>) are not part of the repository: a call
  of one of them is a constructor of the response type.
\<close>

section \<open>Libraries\<close>

text \<open>
  \<open>CodeInvalidBody\<close>, \<open>CodeMissingAuthorization\<close> and \<open>DownloadURL\<close> are of the shared
  library. \<open>quoteRune\<close> is what Go's \<^verbatim>\<open>%q\<close> does at a byte outside ASCII, which depends on the
  Unicode tables: how many bytes it consumes, and what it writes.
\<close>

record http_lib =
  lib_uuid :: uuid_lib
  CodeInvalidBody :: string
  CodeMissingAuthorization :: string
  DownloadURL :: "string \<Rightarrow> uuid \<Rightarrow> string"
  quoteRune :: "string \<Rightarrow> nat \<times> string"

section \<open>Responses\<close>

record Response =
  resp_ID :: uuid
  resp_OriginalFilename :: string
  resp_ContentType :: string
  resp_SizeBytes :: int
  resp_Status :: string
  resp_ImageURL :: string
  resp_CreatedAt :: timestamp
  resp_UpdatedAt :: timestamp

record ListResponse =
  Items :: "Response list"

datatype json = MediaJSON Response | ListJSON ListResponse | StatusJSON string

type_synonym field_errors = "(string \<times> string) list"

text \<open>
  What a handler writes: \<open>httpx.WriteJSON\<close>, \<open>httpx.WriteError\<close>, \<open>httpx.WriteValidationError\<close>,
  \<open>httpx.WriteInternalError\<close>, a bare status, or headers and raw content.
\<close>

datatype response =
    WriteJSON nat json
  | WriteError nat string string
  | WriteValidationError field_errors
  | WriteInternalError error
  | WriteHeader nat
  | WriteContent nat "(string \<times> string) list" bytes

definition newResponse :: "http_lib \<Rightarrow> Media \<Rightarrow> string \<Rightarrow> Response" where
  "newResponse lib m publicBaseURL =
     \<lparr> resp_ID = ID m,
       resp_OriginalFilename = OriginalFilename m,
       resp_ContentType = ContentType m,
       resp_SizeBytes = SizeBytes m,
       resp_Status = Status m,
       resp_ImageURL = DownloadURL lib publicBaseURL (ID m),
       resp_CreatedAt = CreatedAt m,
       resp_UpdatedAt = UpdatedAt m \<rparr>"

fun newListResponse :: "http_lib \<Rightarrow> Media list \<Rightarrow> string \<Rightarrow> Response list" where
  "newListResponse lib [] publicBaseURL = []"
| "newListResponse lib (m # items) publicBaseURL =
     newResponse lib m publicBaseURL # newListResponse lib items publicBaseURL"

section \<open>Requests\<close>

text \<open>
  A parsed multipart form: the values of its plain fields, and for the part \<open>file\<close> its file
  name and what reading it gives (\<open>None\<close> when there is no such part or it cannot be opened).
\<close>

record form =
  form_Value :: "string \<Rightarrow> string list"
  form_file :: "(string \<times> (error + bytes)) option"

text \<open>
  A request: the user that \<open>RequireAuth\<close> put into the context, the path parameters chi
  extracted, the query (and whether it is malformed), and its body as the multipart parser
  sees it: how many bytes the parser reads before it is finished with the body, and what it
  then reports, which may depend on the memory limit it is given.
\<close>

record request =
  UserIDFromContext :: "uuid option"
  URLParam :: "string \<Rightarrow> string"
  URL_Query :: "string \<Rightarrow> string list"
  query_malformed :: bool
  body_consumed :: int
  body_form :: "int \<Rightarrow> string + form"

definition CodeMediaNotFound :: string where "CodeMediaNotFound = ''media_not_found''"
definition CodeInvalidMediaID :: string where "CodeInvalidMediaID = ''invalid_media_id''"
definition CodeUnsupportedFileType :: string where "CodeUnsupportedFileType = ''unsupported_file_type''"
definition CodeFileTooLarge :: string where "CodeFileTooLarge = ''file_too_large''"
definition CodeMediaIDConflict :: string where "CodeMediaIDConflict = ''media_id_conflict''"
definition CodeFileRequired :: string where "CodeFileRequired = ''file_required''"
definition CodeMediaIDInvalid :: string where "CodeMediaIDInvalid = ''media_id_invalid''"
definition CodeIDsInvalid :: string where "CodeIDsInvalid = ''ids_invalid''"
definition CodeIDsTooMany :: string where "CodeIDsTooMany = ''ids_too_many''"

lemmas code_defs = CodeMediaNotFound_def CodeInvalidMediaID_def CodeUnsupportedFileType_def
  CodeFileTooLarge_def CodeMediaIDConflict_def CodeFileRequired_def CodeMediaIDInvalid_def
  CodeIDsInvalid_def CodeIDsTooMany_def

text \<open>
  \<open>ParseMultipartForm\<close> on a body behind \<open>MaxBytesReader\<close> with this limit (a negative limit
  counts as zero): reading past the limit fails with \<open>MaxBytesError\<close>; a malformed query is
  reported last. \<open>FormValue\<close> takes the first value, and the query's values come before those
  of the form.
\<close>

definition ParseMultipartForm :: "int \<Rightarrow> int \<Rightarrow> request \<Rightarrow> error + form" where
  "ParseMultipartForm limit maxMemory r =
     (if body_consumed r > max 0 limit then Inl (Wrapped ''multipart: NextPart'' MaxBytesError)
      else case body_form r maxMemory of
             Inl msg \<Rightarrow> Inl (OtherError msg)
           | Inr f \<Rightarrow> if query_malformed r then Inl (OtherError ''invalid URL query'') else Inr f)"

definition FormValue :: "request \<Rightarrow> form \<Rightarrow> string \<Rightarrow> string" where
  "FormValue r f key = (case URL_Query r key @ form_Value f key of [] \<Rightarrow> '''' | v # _ \<Rightarrow> v)"

record UploadRequest =
  ur_MediaID :: string

definition UploadRequest_Validate :: "uuid_lib \<Rightarrow> UploadRequest \<Rightarrow> field_errors" where
  "UploadRequest_Validate L r =
     (let flds = [] in
      if ur_MediaID r \<noteq> '''' then
        (case uuid_Parse L (ur_MediaID r) of
           None \<Rightarrow> AList.update ''mediaId'' CodeMediaIDInvalid flds
         | Some _ \<Rightarrow> flds)
      else flds)"

record IDsQuery =
  IDs :: "string list"

fun validate_ids :: "uuid_lib \<Rightarrow> field_errors \<Rightarrow> string list \<Rightarrow> field_errors" where
  "validate_ids L flds [] = flds"
| "validate_ids L flds (i # ids) =
     (case uuid_Parse L i of
        None \<Rightarrow> AList.update ''ids'' CodeIDsInvalid flds
      | Some _ \<Rightarrow> validate_ids L flds ids)"

definition IDsQuery_Validate :: "uuid_lib \<Rightarrow> IDsQuery \<Rightarrow> field_errors" where
  "IDsQuery_Validate L q = validate_ids L [] (IDs q)"

text \<open>
  \<open>decodeAndValidate\<close>: \<open>decoded\<close> is what the JSON decoder returns for the body. The result is
  the response written, or \<open>None\<close> where the source returns \<open>true\<close>.
\<close>

definition decodeAndValidate :: "http_lib \<Rightarrow> string + 'a \<Rightarrow> ('a \<Rightarrow> field_errors) \<Rightarrow> response option" where
  "decodeAndValidate lib decoded Validate =
     (case decoded of
        Inl _ \<Rightarrow> Some (WriteError 400 (CodeInvalidBody lib) ''request body must be valid JSON'')
      | Inr dst \<Rightarrow>
          let flds = Validate dst in
          if length flds > 0 then Some (WriteValidationError flds) else None)"

text \<open>\<open>ids[i], _ = uuid.Parse(raw)\<close>: a value that does not parse gives the nil UUID.\<close>

definition parse_or_nil :: "uuid_lib \<Rightarrow> string \<Rightarrow> uuid" where
  "parse_or_nil L raw = (case uuid_Parse L raw of Some u \<Rightarrow> u | None \<Rightarrow> 0)"

section \<open>Quoting a file name\<close>

text \<open>
  Go's \<^verbatim>\<open>%q\<close> on a string: quotes and backslashes are escaped, printable ASCII is copied,
  other ASCII becomes one of the short escapes or \<^verbatim>\<open>\xNN\<close>, and everything outside ASCII is
  up to \<open>quoteRune\<close>.
\<close>

definition hex_digit :: "nat \<Rightarrow> char" where
  "hex_digit n = (if n < 10 then char_of (48 + n) else char_of (87 + n))"

definition quote_ascii :: "char \<Rightarrow> string" where
  "quote_ascii ch =
     (let n = code ch in
      if ch = CHR 0x22 \<or> ch = CHR 0x5C then [CHR 0x5C, ch]
      else if 32 \<le> n \<and> n < 127 then [ch]
      else if n = 7 then [CHR 0x5C, CHR ''a'']
      else if n = 8 then [CHR 0x5C, CHR ''b'']
      else if n = 12 then [CHR 0x5C, CHR ''f'']
      else if n = 10 then [CHR 0x5C, CHR ''n'']
      else if n = 13 then [CHR 0x5C, CHR ''r'']
      else if n = 9 then [CHR 0x5C, CHR ''t'']
      else if n = 11 then [CHR 0x5C, CHR ''v'']
      else [CHR 0x5C, CHR ''x'', hex_digit (n div 16), hex_digit (n mod 16)])"

function quote_loop :: "(string \<Rightarrow> nat \<times> string) \<Rightarrow> string \<Rightarrow> string" where
  "quote_loop rune [] = []"
| "quote_loop rune (ch # cs) =
     (if code ch < 128 then quote_ascii ch @ quote_loop rune cs
      else snd (rune (ch # cs)) @ quote_loop rune (drop (fst (rune (ch # cs)) - 1) cs))"
  by pat_completeness auto
termination
  by (relation "measure (\<lambda>(_, cs). length cs)") (auto simp: less_Suc_eq_le)

definition Quote :: "(string \<Rightarrow> nat \<times> string) \<Rightarrow> string \<Rightarrow> string" where
  "Quote rune s = CHR 0x22 # quote_loop rune s @ [CHR 0x22]"

text \<open>\<^verbatim>\<open>strconv.Itoa\<close> of a length.\<close>

fun Itoa :: "nat \<Rightarrow> string" where
  "Itoa n = (if n < 10 then [hex_digit n] else Itoa (n div 10) @ [hex_digit (n mod 10)])"

declare Itoa.simps [simp del]

section \<open>Handlers\<close>

record 'w Handler =
  service :: "'w Service"
  h_maxUploadSizeBytes :: int
  publicBaseURL :: string

definition NewHandler :: "'w Service \<Rightarrow> int \<Rightarrow> string \<Rightarrow> 'w Handler" where
  "NewHandler svc maxBytes baseURL =
     \<lparr> service = svc, h_maxUploadSizeBytes = maxBytes, publicBaseURL = baseURL \<rparr>"

definition multipartOverheadBytes :: int where
  "multipartOverheadBytes = 64 * 1024"

definition requireUserID :: "http_lib \<Rightarrow> request \<Rightarrow> response + uuid" where
  "requireUserID lib r =
     (case UserIDFromContext r of
        None \<Rightarrow> Inl (WriteError 401 (CodeMissingAuthorization lib) ''missing authentication'')
      | Some userID \<Rightarrow> Inr userID)"

definition pathMediaID :: "http_lib \<Rightarrow> request \<Rightarrow> response + uuid" where
  "pathMediaID lib r =
     (case uuid_Parse (lib_uuid lib) (URLParam r ''mediaId'') of
        None \<Rightarrow> Inl (WriteError 400 CodeInvalidMediaID ''media id must be a valid UUID'')
      | Some i \<Rightarrow> Inr i)"

definition writeMultipartError :: "http_lib \<Rightarrow> error \<Rightarrow> response" where
  "writeMultipartError lib err =
     (if errors_As_MaxBytes err
      then WriteError 413 CodeFileTooLarge ''file exceeds the maximum allowed size''
      else WriteError 400 (CodeInvalidBody lib) ''request must be valid multipart/form-data'')"

definition writeServiceError :: "error \<Rightarrow> response" where
  "writeServiceError err =
     (if errors_Is err ErrNotFound then WriteError 404 CodeMediaNotFound ''media not found''
      else if errors_Is err ErrUnsupportedMIME
        then WriteError 415 CodeUnsupportedFileType ''unsupported file type''
      else if errors_Is err ErrFileTooLarge
        then WriteError 413 CodeFileTooLarge ''file exceeds the maximum allowed size''
      else if errors_Is err ErrMediaIDConflict
        then WriteError 409 CodeMediaIDConflict ''media id already used by another upload''
      else if errors_Is err ErrTooManyIDs then WriteValidationError [(''ids'', CodeIDsTooMany)]
      else WriteInternalError err)"

definition Handler_Upload ::
    "http_lib \<Rightarrow> 'w Handler \<Rightarrow> uuid \<Rightarrow> timestamp \<Rightarrow> ctx \<Rightarrow> 'w \<Rightarrow> request \<Rightarrow> response \<times> 'w" where
  "Handler_Upload lib h fresh now x w r =
     (case requireUserID lib r of
        Inl resp \<Rightarrow> (resp, w)
      | Inr userID \<Rightarrow>
          (case ParseMultipartForm (int64 (h_maxUploadSizeBytes h + multipartOverheadBytes))
                  (h_maxUploadSizeBytes h) r of
             Inl err \<Rightarrow> (writeMultipartError lib err, w)
           | Inr f \<Rightarrow>
               let req = \<lparr> ur_MediaID = FormValue r f ''mediaId'' \<rparr>;
                   flds = UploadRequest_Validate (lib_uuid lib) req
               in (case form_file f of
                     None \<Rightarrow> (WriteValidationError (AList.update ''file'' CodeFileRequired flds), w)
                   | Some (filename, reading) \<Rightarrow>
                       if length flds > 0 then (WriteValidationError flds, w)
                       else (case reading of
                               Inl err \<Rightarrow> (writeMultipartError lib err, w)
                             | Inr content \<Rightarrow>
                                 let clientMediaID =
                                       (if ur_MediaID req \<noteq> ''''
                                        then Some (parse_or_nil (lib_uuid lib) (ur_MediaID req)) else None)
                                 in (case Service_Upload (service h) fresh now x w
                                            \<lparr> in_UserID = userID, in_ClientMediaID = clientMediaID,
                                              in_OriginalFilename = filename, in_Content = content \<rparr> of
                                       (Inl err, w1) \<Rightarrow> (writeServiceError err, w1)
                                     | (Inr result, w1) \<Rightarrow>
                                         (WriteJSON (if res_AlreadyExisted result then 200 else 201)
                                            (MediaJSON (newResponse lib (res_Media result) (publicBaseURL h))), w1))))))"

definition Handler_Get ::
    "http_lib \<Rightarrow> 'w Handler \<Rightarrow> ctx \<Rightarrow> 'w \<Rightarrow> request \<Rightarrow> response \<times> 'w" where
  "Handler_Get lib h x w r =
     (case requireUserID lib r of
        Inl resp \<Rightarrow> (resp, w)
      | Inr userID \<Rightarrow>
          (case pathMediaID lib r of
             Inl resp \<Rightarrow> (resp, w)
           | Inr mediaID \<Rightarrow>
               (case Service_Get (service h) x w userID mediaID of
                  (Inl err, w1) \<Rightarrow> (writeServiceError err, w1)
                | (Inr got, w1) \<Rightarrow>
                    (WriteJSON 200 (MediaJSON (newResponse lib got (publicBaseURL h))), w1))))"

definition Handler_Download ::
    "http_lib \<Rightarrow> 'w Handler \<Rightarrow> ctx \<Rightarrow> 'w \<Rightarrow> request \<Rightarrow> response \<times> 'w" where
  "Handler_Download lib h x w r =
     (case requireUserID lib r of
        Inl resp \<Rightarrow> (resp, w)
      | Inr userID \<Rightarrow>
          (case pathMediaID lib r of
             Inl resp \<Rightarrow> (resp, w)
           | Inr mediaID \<Rightarrow>
               (case Service_Download (service h) x w userID mediaID of
                  (Inl err, w1) \<Rightarrow> (writeServiceError err, w1)
                | (Inr (m, content), w1) \<Rightarrow>
                    (WriteContent 200
                       [(''Content-Type'', ContentType m),
                        (''Content-Disposition'',
                         ''attachment; filename='' @ Quote (quoteRune lib) (OriginalFilename m)),
                        (''Content-Length'', Itoa (length content))]
                       content, w1))))"

definition Handler_List ::
    "http_lib \<Rightarrow> 'w Handler \<Rightarrow> ctx \<Rightarrow> 'w \<Rightarrow> request \<Rightarrow> response \<times> 'w" where
  "Handler_List lib h x w r =
     (case requireUserID lib r of
        Inl resp \<Rightarrow> (resp, w)
      | Inr userID \<Rightarrow>
          let q = \<lparr> IDs = URL_Query r ''ids'' \<rparr>;
              flds = IDsQuery_Validate (lib_uuid lib) q
          in if length flds > 0 then (WriteValidationError flds, w)
             else let ids = map (parse_or_nil (lib_uuid lib)) (IDs q)
                  in (case Service_List (service h) x w userID ids of
                        (Inl err, w1) \<Rightarrow> (writeServiceError err, w1)
                      | (Inr items, w1) \<Rightarrow>
                          (WriteJSON 200 (ListJSON \<lparr> Items = newListResponse lib items (publicBaseURL h) \<rparr>), w1)))"

definition Handler_Delete ::
    "http_lib \<Rightarrow> 'w Handler \<Rightarrow> ctx \<Rightarrow> 'w \<Rightarrow> request \<Rightarrow> response \<times> 'w" where
  "Handler_Delete lib h x w r =
     (case requireUserID lib r of
        Inl resp \<Rightarrow> (resp, w)
      | Inr userID \<Rightarrow>
          (case pathMediaID lib r of
             Inl resp \<Rightarrow> (resp, w)
           | Inr mediaID \<Rightarrow>
               (case Service_Delete (service h) x w userID mediaID of
                  (Inl err, w1) \<Rightarrow> (writeServiceError err, w1)
                | (Inr _, w1) \<Rightarrow> (WriteHeader 204, w1))))"

definition Handler_DeleteByIDs ::
    "http_lib \<Rightarrow> 'w Handler \<Rightarrow> ctx \<Rightarrow> 'w \<Rightarrow> request \<Rightarrow> response \<times> 'w" where
  "Handler_DeleteByIDs lib h x w r =
     (case requireUserID lib r of
        Inl resp \<Rightarrow> (resp, w)
      | Inr userID \<Rightarrow>
          let q = \<lparr> IDs = URL_Query r ''ids'' \<rparr>;
              flds = IDsQuery_Validate (lib_uuid lib) q
          in if length flds > 0 then (WriteValidationError flds, w)
             else let ids = map (parse_or_nil (lib_uuid lib)) (IDs q)
                  in (case Service_DeleteByIDs (service h) x w userID ids of
                        (Inl err, w1) \<Rightarrow> (writeServiceError err, w1)
                      | (Inr _, w1) \<Rightarrow> (WriteHeader 204, w1)))"

definition Handler_DeleteMine ::
    "http_lib \<Rightarrow> 'w Handler \<Rightarrow> ctx \<Rightarrow> 'w \<Rightarrow> request \<Rightarrow> response \<times> 'w" where
  "Handler_DeleteMine lib h x w r =
     (case requireUserID lib r of
        Inl resp \<Rightarrow> (resp, w)
      | Inr userID \<Rightarrow>
          (case Service_DeleteAllMine (service h) x w userID of
             (Inl err, w1) \<Rightarrow> (writeServiceError err, w1)
           | (Inr _, w1) \<Rightarrow> (WriteHeader 204, w1)))"

definition DeleteUserData ::
    "'w Handler \<Rightarrow> ctx \<Rightarrow> 'w \<Rightarrow> uuid \<Rightarrow> (error + unit) \<times> 'w" where
  "DeleteUserData h x w userID =
     (case Service_DeleteAllMine (service h) x w userID of
        (Inl err, w1) \<Rightarrow> (Inl err, w1)
      | (Inr _, w1) \<Rightarrow> (Inr (), w1))"

lemmas handler_defs = Handler_Upload_def Handler_Get_def Handler_Download_def Handler_List_def
  Handler_Delete_def Handler_DeleteByIDs_def Handler_DeleteMine_def

section \<open>Lemmas\<close>

lemma validate_ids_empty_iff:
  "validate_ids L [] ids = [] \<longleftrightarrow> (\<forall>i \<in> set ids. uuid_Parse L i \<noteq> None)"
  by (induction ids) (auto split: option.splits)

lemma validate_ids_bad:
  "\<exists>i \<in> set ids. uuid_Parse L i = None \<Longrightarrow> validate_ids L [] ids = [(''ids'', CodeIDsInvalid)]"
  by (induction ids) (auto split: option.splits)

lemma newListResponse_eq: "newListResponse lib ms url = map (\<lambda>m. newResponse lib m url) ms"
  by (induction ms) auto

text \<open>A response with a media body comes from the service, called with the parts of the request.\<close>

lemma Handler_Upload_json:
  assumes call: "Handler_Upload lib h fresh now x w r = (WriteJSON st (MediaJSON resp), w')"
  obtains u f filename content cid result where "UserIDFromContext r = Some u"
    "body_form r (h_maxUploadSizeBytes h) = Inr f" "form_file f = Some (filename, Inr content)"
    "Service_Upload (service h) fresh now x w
       \<lparr> in_UserID = u, in_ClientMediaID = cid, in_OriginalFilename = filename, in_Content = content \<rparr> = (Inr result, w')"
    "st = (if res_AlreadyExisted result then 200 else 201)"
    "resp = newResponse lib (res_Media result) (publicBaseURL h)"
proof -
  let ?lim = "int64 (h_maxUploadSizeBytes h + multipartOverheadBytes)"
  note up = call [unfolded Handler_Upload_def]
  from up obtain u where u: "UserIDFromContext r = Some u"
    by (cases "UserIDFromContext r") (auto simp: requireUserID_def)
  from up u obtain f where f: "ParseMultipartForm ?lim (h_maxUploadSizeBytes h) r = Inr f"
    by (cases "ParseMultipartForm ?lim (h_maxUploadSizeBytes h) r")
      (auto simp: requireUserID_def writeMultipartError_def split: if_splits)
  then have bf: "body_form r (h_maxUploadSizeBytes h) = Inr f"
    by (auto simp: ParseMultipartForm_def split: if_splits sum.splits)
  from up u f obtain filename reading where part: "form_file f = Some (filename, reading)"
    by (cases "form_file f") (auto simp: requireUserID_def Let_def)
  from up u f part obtain content where reading: "reading = Inr content"
    by (cases reading) (auto simp: requireUserID_def Let_def writeMultipartError_def split: if_splits)
  define cid where "cid = (if FormValue r f ''mediaId'' \<noteq> [] then
      Some (parse_or_nil (lib_uuid lib) (FormValue r f ''mediaId'')) else None)"
  obtain q w1 where q: "Service_Upload (service h) fresh now x w
      \<lparr> in_UserID = u, in_ClientMediaID = cid, in_OriginalFilename = filename, in_Content = content \<rparr> = (q, w1)"
    by fastforce
  from up u f part reading q obtain result where "q = Inr result" "w1 = w'"
    "st = (if res_AlreadyExisted result then 200 else 201)"
    "resp = newResponse lib (res_Media result) (publicBaseURL h)"
    by (cases q) (auto simp: requireUserID_def Let_def writeServiceError_def cid_def split: if_splits)
  with u bf part reading q show thesis by (intro that) auto
qed

end
