(* ===== verification/Http_Router.thy ===== *)
theory Http_Router
  imports Http_Media
begin

text \<open>
  The router (\<^verbatim>\<open>internal/transport/http/router.go\<close>, \<^verbatim>\<open>health.go\<close>): the table of routes it
  registers, what each route runs, behind which authentication, and the request log. The
  libraries around it are parameters: which registered route chi selects for a request, the
  two authentication middlewares, and the response writer's status and byte counts.
\<close>

section \<open>Routes\<close>

datatype endpoint =
    Health | Ready | InternalDeleteUser
  | MediaUpload | MediaList | MediaGet | MediaDownload | MediaDelete | MediaDeleteByIDs | MediaDeleteMine

text \<open>A pattern is a list of segments, static ones and parameters in braces.\<close>

datatype segment = Static string | Param string

type_synonym route = "string \<times> segment list \<times> endpoint"

definition media_prefix :: "segment list" where
  "media_prefix = [Static ''api'', Static ''v1'', Static ''media'']"

definition routes :: "route list" where
  "routes =
     [(''GET'', [Static ''health''], Health),
      (''GET'', [Static ''ready''], Ready),
      (''DELETE'', [Static ''internal'', Static ''api'', Static ''v1'', Static ''users'', Param ''userID''],
       InternalDeleteUser),
      (''POST'', media_prefix @ [Static ''''], MediaUpload),
      (''GET'', media_prefix @ [Static ''''], MediaList),
      (''GET'', media_prefix @ [Param ''mediaId''], MediaGet),
      (''GET'', media_prefix @ [Param ''mediaId'', Static ''download''], MediaDownload),
      (''DELETE'', media_prefix @ [Param ''mediaId''], MediaDelete),
      (''DELETE'', media_prefix @ [Static ''''], MediaDeleteByIDs),
      (''DELETE'', media_prefix @ [Static ''mine''], MediaDeleteMine)]"

text \<open>The group \<open>r.Route("/api/v1/media", ...)\<close>, whose routes sit behind \<open>RequireAuth\<close>.\<close>

definition in_media_group :: "endpoint \<Rightarrow> bool" where
  "in_media_group e \<longleftrightarrow>
     e \<in> {MediaUpload, MediaList, MediaGet, MediaDownload, MediaDelete, MediaDeleteByIDs, MediaDeleteMine}"

text \<open>
  A path, split at its slashes, fits a pattern when static segments are equal to its own;
  a parameter takes any non-empty segment and binds it. A sub-router's root matches the path
  with and without the final slash.
\<close>

fun fits :: "segment list \<Rightarrow> string list \<Rightarrow> (string \<times> string) list option" where
  "fits [] [] = Some []"
| "fits [Static s] [] = (if s = '''' then Some [] else None)"
| "fits (Static s # ps) (c # cs) = (if s = c then fits ps cs else None)"
| "fits (Param p # ps) (c # cs) =
     (if c = '''' then None else map_option (\<lambda>bs. (p, c) # bs) (fits ps cs))"
| "fits _ _ = None"

text \<open>
  What the router relies on chi for: a selected route is registered for the method and fits
  the path with the parameters bound accordingly; some route is selected whenever one fits;
  and a static segment is preferred to a parameter, so a pattern without parameters that
  fits wins.
\<close>

type_synonym chi = "route list \<Rightarrow> string \<Rightarrow> string list \<Rightarrow> (endpoint \<times> (string \<times> string) list) option"

definition chi_documented :: "chi \<Rightarrow> bool" where
  "chi_documented chi \<longleftrightarrow>
     (\<forall>rs m path e bs. chi rs m path = Some (e, bs) \<longrightarrow>
        (\<exists>ps. (m, ps, e) \<in> set rs \<and> fits ps path = Some bs)) \<and>
     (\<forall>rs m path. (\<exists>ps e. (m, ps, e) \<in> set rs \<and> fits ps path \<noteq> None) \<longrightarrow> chi rs m path \<noteq> None) \<and>
     (\<forall>rs m path ps e. (m, ps, e) \<in> set rs \<longrightarrow> fits ps path = Some [] \<longrightarrow>
        (\<exists>ps'. (m, ps', fst (the (chi rs m path))) \<in> set rs \<and> fits ps' path = Some []))"

section \<open>Handlers of the router\<close>

definition HealthHandler :: response where
  "HealthHandler = WriteJSON 200 (StatusJSON ''ok'')"

text \<open>\<open>ping\<close> is \<^verbatim>\<open>db.Ping\<close> under the two-second deadline.\<close>

definition ReadyHandler :: "('w \<Rightarrow> (error + unit) \<times> 'w) \<Rightarrow> 'w \<Rightarrow> response \<times> 'w" where
  "ReadyHandler ping w =
     (case ping w of
        (Inl _, w1) \<Rightarrow> (WriteJSON 503 (StatusJSON ''unavailable''), w1)
      | (Inr _, w1) \<Rightarrow> (WriteJSON 200 (StatusJSON ''ok''), w1))"

definition deleteUserHandler ::
    "http_lib \<Rightarrow> 'w Handler \<Rightarrow> ctx \<Rightarrow> 'w \<Rightarrow> request \<Rightarrow> response \<times> 'w" where
  "deleteUserHandler lib h x w r =
     (case uuid_Parse (lib_uuid lib) (URLParam r ''userID'') of
        None \<Rightarrow> (WriteError 400 ''invalid_user_id'' ''invalid user id'', w)
      | Some i \<Rightarrow>
          (case DeleteUserData h x w i of
             (Inl _, w1) \<Rightarrow> (WriteError 500 ''cleanup_failed'' ''could not delete media'', w1)
           | (Inr _, w1) \<Rightarrow> (WriteHeader 204, w1)))"

section \<open>The router\<close>

text \<open>
  A request as it arrives: nothing is in its context yet and no path parameter is bound.
  \<open>split_path\<close> cuts the path at its slashes, after the leading one.
\<close>

record http_request =
  rq_Method :: string
  rq_Path :: string
  rq_Headers :: "(string \<times> string) list"
  rq_request :: request

fun split_slash :: "string \<Rightarrow> string \<Rightarrow> string list" where
  "split_slash acc [] = [rev acc]"
| "split_slash acc (c # cs) =
     (if c = CHR ''/'' then rev acc # split_slash [] cs else split_slash (c # acc) cs)"

definition split_path :: "string \<Rightarrow> string list" where
  "split_path p = (case p of [] \<Rightarrow> [] | c # cs \<Rightarrow> split_slash [] (if c = CHR ''/'' then cs else p))"

text \<open>
  \<open>RequireAuth\<close> either writes a response or passes the request on with the verified user
  in its context; \<open>internalAuth\<close> is \<^verbatim>\<open>internalauth.RequireAuth\<close> given the configured token,
  which either writes a response or passes the request on.
\<close>

record 'w router =
  rt_lib :: http_lib
  rt_chi :: chi
  rt_not_found :: response
  rt_RequireAuth :: "http_request \<Rightarrow> response + uuid"
  rt_internalAuth :: "string \<Rightarrow> http_request \<Rightarrow> response option"
  rt_ping :: "'w \<Rightarrow> (error + unit) \<times> 'w"
  rt_handler :: "'w Handler"
  rt_internalToken :: string

definition NewRouter ::
    "http_lib \<Rightarrow> chi \<Rightarrow> response \<Rightarrow> (http_request \<Rightarrow> response + uuid) \<Rightarrow>
     (string \<Rightarrow> http_request \<Rightarrow> response option) \<Rightarrow> ('w \<Rightarrow> (error + unit) \<times> 'w) \<Rightarrow>
     'w Handler \<Rightarrow> string list \<Rightarrow> 'w router" where
  "NewRouter lib chi notFound requireAuth internalAuth ping mediaHandler internalTokens =
     (let internalToken = (if length internalTokens > 0 then internalTokens ! 0 else '''') in
      \<lparr> rt_lib = lib, rt_chi = chi, rt_not_found = notFound, rt_RequireAuth = requireAuth,
        rt_internalAuth = internalAuth, rt_ping = ping, rt_handler = mediaHandler,
        rt_internalToken = internalToken \<rparr>)"

text \<open>The handler of a route of the media group.\<close>

fun media_endpoint ::
    "endpoint \<Rightarrow> http_lib \<Rightarrow> 'w Handler \<Rightarrow> uuid \<Rightarrow> timestamp \<Rightarrow> ctx \<Rightarrow> 'w \<Rightarrow> request \<Rightarrow> (response \<times> 'w) option" where
  "media_endpoint MediaUpload lib h fresh now x w r = Some (Handler_Upload lib h fresh now x w r)"
| "media_endpoint MediaList lib h fresh now x w r = Some (Handler_List lib h x w r)"
| "media_endpoint MediaGet lib h fresh now x w r = Some (Handler_Get lib h x w r)"
| "media_endpoint MediaDownload lib h fresh now x w r = Some (Handler_Download lib h x w r)"
| "media_endpoint MediaDelete lib h fresh now x w r = Some (Handler_Delete lib h x w r)"
| "media_endpoint MediaDeleteByIDs lib h fresh now x w r = Some (Handler_DeleteByIDs lib h x w r)"
| "media_endpoint MediaDeleteMine lib h fresh now x w r = Some (Handler_DeleteMine lib h x w r)"
| "media_endpoint _ lib h fresh now x w r = None"

definition bind_params :: "(string \<times> string) list \<Rightarrow> request \<Rightarrow> request" where
  "bind_params bs r = r\<lparr>URLParam := (\<lambda>p. case map_of bs p of Some v \<Rightarrow> v | None \<Rightarrow> '''')\<rparr>"

definition ServeHTTP ::
    "'w router \<Rightarrow> uuid \<Rightarrow> timestamp \<Rightarrow> ctx \<Rightarrow> 'w \<Rightarrow> http_request \<Rightarrow> response \<times> 'w" where
  "ServeHTTP R fresh now x w req =
     (case rt_chi R routes (rq_Method req) (split_path (rq_Path req)) of
        None \<Rightarrow> (rt_not_found R, w)
      | Some (e, bs) \<Rightarrow>
          let r = (bind_params bs (rq_request req))\<lparr>UserIDFromContext := None\<rparr> in
          if in_media_group e then
            (case rt_RequireAuth R req of
               Inl resp \<Rightarrow> (resp, w)
             | Inr u \<Rightarrow>
                 (case media_endpoint e (rt_lib R) (rt_handler R) fresh now x w
                         (r\<lparr>UserIDFromContext := Some u\<rparr>) of
                    Some out \<Rightarrow> out
                  | None \<Rightarrow> (rt_not_found R, w)))
          else if e = Health then (HealthHandler, w)
          else if e = Ready then ReadyHandler (rt_ping R) w
          else (case rt_internalAuth R (rt_internalToken R) req of
                  Some resp \<Rightarrow> (resp, w)
                | None \<Rightarrow> deleteUserHandler (rt_lib R) (rt_handler R) x w r))"

text \<open>
  The request log: one line per request with its method, path, status and bytes written;
  \<open>wstatus\<close> and \<open>wbytes\<close> are the wrapped response writer's counts. The duration and the
  request id of the line are left out.
\<close>

definition requestLogger ::
    "(response \<Rightarrow> nat) \<Rightarrow> (response \<Rightarrow> nat) \<Rightarrow> ('w \<Rightarrow> http_request \<Rightarrow> response \<times> 'w) \<Rightarrow>
     'w \<times> (string \<times> string \<times> nat \<times> nat) list \<Rightarrow> http_request \<Rightarrow>
     response \<times> 'w \<times> (string \<times> string \<times> nat \<times> nat) list" where
  "requestLogger wstatus wbytes nxt st req =
     (case nxt (fst st) req of
        (resp, w1) \<Rightarrow> (resp, w1, snd st @ [(rq_Method req, rq_Path req, wstatus resp, wbytes resp)]))"

section \<open>Lemmas\<close>

lemma media_endpoint_group: "in_media_group e \<longleftrightarrow> media_endpoint e lib h fresh now x w r \<noteq> None"
  by (cases e) (simp_all add: in_media_group_def)

lemma bind_params_sel [simp]:
  "UserIDFromContext (bind_params bs r) = UserIDFromContext r" "URL_Query (bind_params bs r) = URL_Query r"
  "URLParam (bind_params bs r) p = (case map_of bs p of Some v \<Rightarrow> v | None \<Rightarrow> '''')"
  "body_form (bind_params bs r) = body_form r" "body_consumed (bind_params bs r) = body_consumed r"
  "query_malformed (bind_params bs r) = query_malformed r"
  by (simp_all add: bind_params_def)

end
