(* ===== verification/Http_Properties.thy ===== *)
theory Http_Properties
  imports Service_Properties Http_Router
begin

text \<open>
  What a client of the HTTP interface can rely on: authentication, ownership, the upload and
  download exchange, validation, and the response headers.
\<close>

section \<open>Concrete libraries for the witnesses\<close>

definition demo_lib :: http_lib where
  "demo_lib =
     \<lparr> lib_uuid = mem_uuid, CodeInvalidBody = ''invalid_body'',
       CodeMissingAuthorization = ''missing_authorization'',
       DownloadURL = (\<lambda>base i. base @ ''/api/v1/media/'' @ uuid_String mem_uuid i @ ''/download''),
       quoteRune = (\<lambda>s. (1, case s of [] \<Rightarrow> [] | ch # _ \<Rightarrow>
                       [CHR 0x5C, CHR ''x'', hex_digit (code ch div 16), hex_digit (code ch mod 16)])) \<rparr>"

lemma demo_lib_sel [simp]:
  "lib_uuid demo_lib = mem_uuid" "CodeInvalidBody demo_lib = ''invalid_body''"
  "CodeMissingAuthorization demo_lib = ''missing_authorization''"
  by (simp_all add: demo_lib_def)

definition demo_handler :: "(db, mem_bucket) world Handler" where
  "demo_handler = NewHandler (demo_service (\<lambda>_. False)) 1024 ''https://api''"

definition demo_request :: "uuid \<Rightarrow> string \<Rightarrow> string list \<Rightarrow> request" where
  "demo_request u mid ids =
     \<lparr> UserIDFromContext = Some u, URLParam = (\<lambda>_. mid),
       URL_Query = (\<lambda>k. if k = ''ids'' then ids else []), query_malformed = False,
       body_consumed = 300,
       body_form = (\<lambda>_. Inr \<lparr> form_Value = (\<lambda>_. []), form_file = Some (''a.txt'', Inr demo_content) \<rparr>) \<rparr>"

lemma demo_request_sel [simp]:
  "UserIDFromContext (demo_request u p ids) = Some u" "URLParam (demo_request u p ids) k = p"
  "URL_Query (demo_request u p ids) ''ids'' = ids" "URL_Query (demo_request u p ids) ''mediaId'' = []"
  "query_malformed (demo_request u p ids) = False" "body_consumed (demo_request u p ids) = 300"
  "body_form (demo_request u p ids) k2 =
     Inr \<lparr> form_Value = (\<lambda>_. []), form_file = Some (''a.txt'', Inr demo_content) \<rparr>"
  by (simp_all add: demo_request_def)

lemma demo_handler_sel [simp]:
  "service demo_handler = demo_service (\<lambda>_. False)" "h_maxUploadSizeBytes demo_handler = 1024"
  "publicBaseURL demo_handler = ''https://api''"
  by (simp_all add: demo_handler_def NewHandler_def)

definition wired_handler :: "nat \<Rightarrow> uuid_lib \<times> 's Store \<Rightarrow> int \<Rightarrow> string \<Rightarrow> (db, 's) world Handler" where
  "wired_handler n c k url = NewHandler (wired_service n c k) k url"

lemma wired_handler_sel [simp]:
  "service (wired_handler n c k url) = wired_service n c k"
  "h_maxUploadSizeBytes (wired_handler n c k url) = k" "publicBaseURL (wired_handler n c k url) = url"
  by (simp_all add: wired_handler_def NewHandler_def)

section \<open>Ownership over HTTP\<close>

text \<open>A delete that selects no row leaves the database as it is.\<close>

lemma Delete_none:
  assumes "db_inv d" and "db_faults d = []" and "i \<notin> owned_ids (media_rows d) u"
  shows "MediaRepository_Delete x d u i = (Inl ErrNotFound, d)"
proof -
  have no: "\<forall>m \<in> set (media_tbl d). \<not> (ID m = i \<and> UserID m = u)"
    using assms(1,3) by (auto simp: owned_ids_def media_rows_Some)
  then have "filter (\<lambda>m. ID m = i \<and> UserID m = u) (media_tbl d) = []"
    by (simp add: filter_empty_conv)
  moreover have "filter (\<lambda>m. \<not> (ID m = i \<and> UserID m = u)) (media_tbl d) = media_tbl d"
    using no by (simp add: filter_id_conv)
  ultimately show ?thesis
    using assms(2) by (simp add: MediaRepository_Delete_def run_stmt_def settle_def delete_and_enqueue_def Let_def)
qed

text \<open>
  Claim C29. Another user's file cannot be told from one that does not exist: asked for an id
  whose row, if there is one, is not the caller's, \<open>GET\<close>, \<open>GET .../download\<close> and \<open>DELETE\<close>
  answer with exactly the same 404, and change nothing.
\<close>

theorem foreign_looks_missing:
  assumes "world_inv w" and "db_faults (meta_st w) = []"
    and "UserIDFromContext r = Some u" and "uuid_Parse (lib_uuid lib) (URLParam r ''mediaId'') = Some i"
    and "\<forall>m. world_rows w i = Some m \<longrightarrow> UserID m \<noteq> u"
    and "H \<in> {Handler_Get, Handler_Download, Handler_Delete}"
  shows "H lib (wired_handler n c k url) x w r = (WriteError 404 ''media_not_found'' ''media not found'', w)"
proof -
  note inv = assms(1) [unfolded world_inv_def]
  from GetByID_exact [OF inv assms(2), of x u i] assms(5)
  have get: "MediaRepository_GetByID x (meta_st w) u i = (Inl ErrNotFound, meta_st w)"
    by (auto simp: world_rows_def split: option.splits)
  from assms(5) have "i \<notin> owned_ids (media_rows (meta_st w)) u" by (auto simp: owned_ids_def world_rows_def)
  with Delete_none [OF inv assms(2)] have del: "MediaRepository_Delete x (meta_st w) u i = (Inl ErrNotFound, meta_st w)"
    by blast
  have same: "w\<lparr>meta_st := meta_st w\<rparr> = w" by simp
  from assms(6) show ?thesis
    using assms(3,4) get del
    by (auto simp: Handler_Get_def Handler_Download_def Handler_Delete_def requireUserID_def pathMediaID_def
        Service_Get_def Service_Download_def Service_Delete_def iface_simps Repository_GetByID_def
        Repository_GetContent_def Repository_Delete_def writeServiceError_def code_defs)
qed

theorem foreign_looks_missing_witness:
  "Handler_Delete demo_lib (wired_handler 100 (demo_config (\<lambda>_. False)) 1024 '''') RequestCtx
     (demo_world (demo_db [demo_media 2 8] [] []) (demo_bucket [2] [])) (demo_request 7 (uuid_String mem_uuid 2) []) =
   (WriteError 404 ''media_not_found'' ''media not found'', demo_world (demo_db [demo_media 2 8] [] []) (demo_bucket [2] []))"
  by (rule foreign_looks_missing [of _ _ 7 _ 2]) (simp_all add: world_defs media_rows_def)

section \<open>Upload and download over HTTP\<close>

text \<open>
  End to end: when \<open>POST\<close> answers 201, a \<open>GET .../download\<close> of the id in the
  answer by the same user returns exactly the bytes of the posted file, with the type and the
  file name of the answer in its headers and their number as the content length, as long as
  the database and S3 answer.
\<close>

theorem http_upload_download:
  assumes "store_ok (L, S)" and "world_inv w"
    and "UserIDFromContext r = Some u"
    and "Handler_Upload lib (wired_handler n (L, S) k url) fresh now x w r = (WriteJSON 201 (MediaJSON resp), w')"
    and "UserIDFromContext r2 = Some u"
    and "uuid_Parse (lib_uuid lib) (URLParam r2 ''mediaId'') = Some (resp_ID resp)"
    and "db_faults (meta_st w') = []" and "s3_answers (client S) y"
  shows "\<exists>f filename content. body_form r k = Inr f \<and> form_file f = Some (filename, Inr content) \<and>
           resp_OriginalFilename resp = filename \<and> resp_SizeBytes resp = int (length content) \<and>
           int (length content) \<le> k \<and>
           fst (Handler_Download lib (wired_handler n (L, S) k url) y w' r2) =
             WriteContent 200
               [(''Content-Type'', resp_ContentType resp),
                (''Content-Disposition'', ''attachment; filename='' @ Quote (quoteRune lib) filename),
                (''Content-Length'', Itoa (length content))]
               content"
proof -
  obtain u' f filename content cid result where u': "UserIDFromContext r = Some u'"
    and form: "body_form r k = Inr f" "form_file f = Some (filename, Inr content)"
    and up: "Service_Upload (wired_service n (L, S) k) fresh now x w
      \<lparr> in_UserID = u', in_ClientMediaID = cid, in_OriginalFilename = filename, in_Content = content \<rparr> = (Inr result, w')"
    and st: "201 = (if res_AlreadyExisted result then 200 else 201 :: nat)"
    and resp: "resp = newResponse lib (res_Media result) url"
    using assms(4) by (rule Handler_Upload_json) simp
  from st have new: "\<not> res_AlreadyExisted result" by (auto split: if_splits)
  from u' assms(3) have u: "u' = u" by simp
  note created = wired_media.upload_created [OF assms(1) wired_service_sel(1) assms(2) up new]
  from upload_download [OF assms(1,2) up new assms(7,8)] obtain m where
    dl: "fst (Service_Download (wired_service n (L, S) k) y w' u (ID (res_Media result))) = Inr (m, content)"
    and same: "same_file (res_Media result) m"
    using u by auto
  then obtain w2 where "Service_Download (wired_service n (L, S) k) y w' u (ID (res_Media result)) = (Inr (m, content), w2)"
    by (metis prod.collapse)
  with assms(5,6) resp same created form show ?thesis
    by (auto simp: Handler_Download_def requireUserID_def pathMediaID_def newResponse_def same_file_def)
qed

abbreviation demo_wired :: "(db, mem_bucket) world Handler" where
  "demo_wired \<equiv> wired_handler 100 (demo_config (\<lambda>_. False)) 1024 ''https://api''"

lemma demo_post:
  "fst (Handler_Upload demo_lib demo_wired 9 0 RequestCtx (demo_world (demo_db [] [] []) empty_bucket) (demo_request 7 [] [])) =
     WriteJSON 201 (MediaJSON (newResponse demo_lib (demo_media 9 7) ''https://api''))"
  "db_faults (meta_st (snd (Handler_Upload demo_lib demo_wired 9 0 RequestCtx (demo_world (demo_db [] [] []) empty_bucket)
     (demo_request 7 [] [])))) = []"
  by (simp_all add: Handler_Upload_def requireUserID_def ParseMultipartForm_def FormValue_def UploadRequest_Validate_def
      multipartOverheadBytes_def Service_Upload_def demo_run demo_media_def)

theorem http_upload_download_witness:
  "fst (Handler_Download demo_lib demo_wired RequestCtx
     (snd (Handler_Upload demo_lib demo_wired 9 0 RequestCtx (demo_world (demo_db [] [] []) empty_bucket) (demo_request 7 [] [])))
     (demo_request 7 (uuid_String mem_uuid 9) [])) =
   WriteContent 200
     [(''Content-Type'', ''text/plain''),
      (''Content-Disposition'', ''attachment; filename='' @ Quote (quoteRune demo_lib) ''a.txt''),
      (''Content-Length'', Itoa 2)] demo_content"
proof -
  let ?up = "Handler_Upload demo_lib demo_wired 9 0 RequestCtx (demo_world (demo_db [] [] []) empty_bucket) (demo_request 7 [] [])"
  have up: "?up = (WriteJSON 201 (MediaJSON (newResponse demo_lib (demo_media 9 7) ''https://api'')), snd ?up)"
    using demo_post(1) by (metis prod.collapse)
  from http_upload_download [OF _ _ _ up _ _ demo_post(2), of 7 "demo_request 7 (uuid_String mem_uuid 9) []" RequestCtx]
  show ?thesis by (auto simp: world_inv_def mem_s3_answers newResponse_def)
qed

section \<open>Validation\<close>

text \<open>
  Claim C33. \<open>GET /media?ids=\<close> and \<open>DELETE /media?ids=\<close> with any id that is not a UUID are
  refused as a whole, naming the field, before the service is asked: nothing is listed or
  deleted.
\<close>

theorem invalid_ids_refused:
  assumes "UserIDFromContext r = Some u"
    and "\<exists>raw \<in> set (URL_Query r ''ids''). uuid_Parse (lib_uuid lib) raw = None"
    and "H \<in> {Handler_List, Handler_DeleteByIDs}"
  shows "H lib h x w r = (WriteValidationError [(''ids'', ''ids_invalid'')], w)"
  using assms validate_ids_bad [OF assms(2)]
  by (auto simp: Handler_List_def Handler_DeleteByIDs_def requireUserID_def IDsQuery_Validate_def Let_def code_defs)

theorem invalid_ids_refused_witness:
  "Handler_DeleteByIDs demo_lib demo_wired RequestCtx (demo_world (demo_db [demo_media 1 7] [] []) (demo_bucket [1] []))
     (demo_request 7 [] [uuid_String mem_uuid 1, ''nonsense'']) =
   (WriteValidationError [(''ids'', ''ids_invalid'')], demo_world (demo_db [demo_media 1 7] [] []) (demo_bucket [1] []))"
  by (rule invalid_ids_refused [of _ 7]) simp_all

section \<open>The download header\<close>

text \<open>
  A quoted string that cannot be left early: every quote inside is preceded by the backslash
  that escapes it, and no backslash is left over at the end.
\<close>

fun well_quoted :: "string \<Rightarrow> bool" where
  "well_quoted [] \<longleftrightarrow> True"
| "well_quoted [ch] \<longleftrightarrow> ch \<noteq> CHR 0x22 \<and> ch \<noteq> CHR 0x5C"
| "well_quoted (ch # ch' # cs) \<longleftrightarrow>
     (if ch = CHR 0x5C then well_quoted cs else ch \<noteq> CHR 0x22 \<and> well_quoted (ch' # cs))"

definition visible_char :: "char \<Rightarrow> bool" where
  "visible_char ch \<longleftrightarrow> 32 \<le> code ch \<and> code ch \<noteq> 127"

text \<open>
  What the header relies on for text outside ASCII: a printable rune is copied, any other is
  written as an escape, so nothing written is a control character or an unescaped quote.
\<close>

definition rune_documented :: "(string \<Rightarrow> nat \<times> string) \<Rightarrow> bool" where
  "rune_documented rune \<longleftrightarrow> (\<forall>s. well_quoted (snd (rune s)) \<and> list_all visible_char (snd (rune s)))"

lemma well_quoted_append: "well_quoted a \<Longrightarrow> well_quoted b \<Longrightarrow> well_quoted (a @ b)"
proof (induction a rule: well_quoted.induct)
  case (2 ch)
  then show ?case by (cases b) auto
next
  case (3 ch ch' cs)
  then show ?case by (auto split: if_splits)
qed simp

lemma code_char_of [simp]: "n < 256 \<Longrightarrow> code (char_of n) = n"
  by (simp add: code_def)

lemma hex_digit_code: "n < 16 \<Longrightarrow> code (hex_digit n) = (if n < 10 then 48 + n else 87 + n)"
  by (simp add: hex_digit_def)

lemma code_eq_iff: "ch = ch' \<longleftrightarrow> code ch = code ch'"
  by (simp add: code_def)

lemma hex_digit_range: "n < 16 \<Longrightarrow> 48 \<le> code (hex_digit n) \<and> code (hex_digit n) < 127 \<and> code (hex_digit n) \<noteq> 92"
  by (auto simp: hex_digit_code)

lemma quote_ascii_ok:
  assumes "code ch < 128"
  shows "well_quoted (quote_ascii ch) \<and> list_all visible_char (quote_ascii ch)"
proof -
  have "code ch div 16 < 16" "code ch mod 16 < 16" using assms by auto
  from hex_digit_range [OF this(1)] hex_digit_range [OF this(2)] show ?thesis
    using assms by (auto simp: quote_ascii_def Let_def visible_char_def code_eq_iff [of "hex_digit _"] code_def)
qed

lemma quote_loop_ok:
  assumes "rune_documented rune"
  shows "well_quoted (quote_loop rune s) \<and> list_all visible_char (quote_loop rune s)"
  using assms
  by (induction rune s rule: quote_loop.induct)
    (auto simp: quote_ascii_ok rune_documented_def intro!: well_quoted_append)

text \<open>
  Claim C31. The file name of a download cannot break out of its header: whatever name was
  uploaded, the \<open>Content-Disposition\<close> value holds no control character, so no line break, and
  the name stands between quotes that no character of it can close.
\<close>

theorem filename_cannot_escape_header:
  assumes "rune_documented (quoteRune lib)"
    and "Handler_Download lib h x w r = (WriteContent st headers content, w')"
  shows "\<exists>name. map_of headers ''Content-Disposition'' =
                  Some (''attachment; filename='' @ CHR 0x22 # name @ [CHR 0x22]) \<and>
                well_quoted name \<and> list_all visible_char name"
proof -
  from assms(2) obtain fn where "map_of headers ''Content-Disposition'' =
      Some (''attachment; filename='' @ Quote (quoteRune lib) fn)"
    by (auto simp: Handler_Download_def requireUserID_def pathMediaID_def writeServiceError_def
        split: option.splits sum.splits prod.splits if_splits)
  with quote_loop_ok [OF assms(1), of fn] show ?thesis by (auto simp: Quote_def)
qed

lemma demo_rune: "rune_documented (quoteRune demo_lib)"
proof -
  define esc where "esc ch = [CHR 0x5C, CHR ''x'', hex_digit (code ch div 16), hex_digit (code ch mod 16)]" for ch
  have "code ch div 16 < 16" "code ch mod 16 < 16" for ch
    by (auto simp: code_def less_mult_imp_div_less)
  then have "well_quoted (esc ch) \<and> list_all visible_char (esc ch)" for ch
    using hex_digit_range [of "code ch div 16"] hex_digit_range [of "code ch mod 16"]
    by (auto simp: esc_def visible_char_def code_eq_iff [of "hex_digit _"] code_def)
  moreover have "snd (quoteRune demo_lib s) = (case s of [] \<Rightarrow> [] | ch # _ \<Rightarrow> esc ch)" for s
    by (simp add: demo_lib_def esc_def split: list.split)
  ultimately show ?thesis by (simp add: rune_documented_def split: list.splits)
qed

lemma demo_itoa: "Itoa 2 = ''2''"
  by code_simp

definition demo_evil :: Media where
  "demo_evil = New 0 1 7 [CHR ''a'', CHR 0x22, CHR 0x0D, CHR 0x0A, CHR 0x5C] ''text/plain'' 2"

lemma demo_download:
  "Handler_Download demo_lib demo_wired RequestCtx (demo_world (demo_db [demo_evil] [] []) (demo_bucket [1] []))
     (demo_request 7 (uuid_String mem_uuid 1) []) =
   (WriteContent 200 [(''Content-Type'', ''text/plain''),
      (''Content-Disposition'', ''attachment; filename='' @
         [CHR 0x22, CHR ''a'', CHR 0x5C, CHR 0x22, CHR 0x5C, CHR ''r'', CHR 0x5C, CHR ''n'', CHR 0x5C, CHR 0x5C, CHR 0x22]),
      (''Content-Length'', ''2'')] demo_content, demo_world (demo_db [demo_evil] [] []) (demo_bucket [1] []))"
  by (simp add: Handler_Download_def requireUserID_def pathMediaID_def Service_Download_def demo_run demo_evil_def
      demo_world_def Quote_def quote_ascii_def code_def demo_itoa [simplified])

theorem filename_cannot_escape_header_witness:
  "\<exists>name. map_of [(''Content-Type'', ''text/plain''),
      (''Content-Disposition'', ''attachment; filename='' @
         [CHR 0x22, CHR ''a'', CHR 0x5C, CHR 0x22, CHR 0x5C, CHR ''r'', CHR 0x5C, CHR ''n'', CHR 0x5C, CHR 0x5C, CHR 0x22]),
      (''Content-Length'', ''2'')] ''Content-Disposition'' =
     Some (''attachment; filename='' @ CHR 0x22 # name @ [CHR 0x22]) \<and> well_quoted name"
  using filename_cannot_escape_header [OF demo_rune demo_download] by blast

section \<open>Routing\<close>

definition demo_chi :: chi where
  "demo_chi rs m path =
     (case find (\<lambda>(m', ps, e). m' = m \<and> fits ps path = Some []) rs of
        Some (_, _, e) \<Rightarrow> Some (e, [])
      | None \<Rightarrow>
          (case find (\<lambda>(m', ps, e). m' = m \<and> fits ps path \<noteq> None) rs of
             Some (_, ps, e) \<Rightarrow> Some (e, the (fits ps path))
           | None \<Rightarrow> None))"

lemma demo_chi_static:
  fixes rs :: "route list"
  assumes "(m, ps, e) \<in> set rs" "fits ps path = Some []"
  shows "\<exists>ps' e'. (m, ps', e') \<in> set rs \<and> fits ps' path = Some [] \<and> demo_chi rs m path = Some (e', [])"
proof (cases "find (\<lambda>(m', ps, e). m' = m \<and> fits ps path = Some []) rs")
  case None
  with assms show ?thesis by (fastforce simp: find_None_iff)
next
  case (Some t)
  obtain m' ps' e' where t: "t = (m', ps', e')" by (cases t)
  with Some have "(m', ps', e') \<in> set rs" "m' = m" "fits ps' path = Some []"
    by (auto simp: find_Some_iff in_set_conv_nth)
  with Some t show ?thesis by (auto simp: demo_chi_def)
qed

lemma demo_chi_documented: "chi_documented demo_chi"
  unfolding chi_documented_def
proof (intro conjI allI impI)
  fix rs m path e bs assume "demo_chi rs m path = Some (e, bs)"
  then show "\<exists>ps. (m, ps, e) \<in> set rs \<and> fits ps path = Some bs"
    by (fastforce simp: demo_chi_def find_Some_iff in_set_conv_nth split: option.splits)
next
  fix rs :: "route list" and m path assume "\<exists>ps e. (m, ps, e) \<in> set rs \<and> fits ps path \<noteq> None"
  then show "demo_chi rs m path \<noteq> None"
    by (fastforce simp: demo_chi_def find_None_iff split: option.splits)
next
  fix rs :: "route list" and m path ps e assume "(m, ps, e) \<in> set rs" "fits ps path = Some []"
  then show "\<exists>ps'. (m, ps', fst (the (demo_chi rs m path))) \<in> set rs \<and> fits ps' path = Some []"
    using demo_chi_static by (metis fst_conv option.sel)
qed

definition demo_router :: "(db, mem_bucket) world router" where
  "demo_router = NewRouter demo_lib demo_chi (WriteError 404 ''not_found'' '''')
     (\<lambda>req. if (''Authorization'', ''Bearer 7'') \<in> set (rq_Headers req) then Inr 7
            else Inl (WriteError 401 ''missing_authorization'' ''''))
     (\<lambda>token req. if (''X-Internal-Token'', token) \<in> set (rq_Headers req) then None
                  else Some (WriteError 401 ''unauthorized'' ''''))
     (\<lambda>w. (Inr (), w)) demo_handler [''s3cret'']"

lemma demo_router_sel [simp]:
  "rt_chi demo_router = demo_chi" "rt_lib demo_router = demo_lib" "rt_handler demo_router = demo_handler"
  "rt_RequireAuth demo_router req = (if (''Authorization'', ''Bearer 7'') \<in> set (rq_Headers req) then Inr 7
            else Inl (WriteError 401 ''missing_authorization'' ''''))"
  "rt_internalAuth demo_router t req = (if (''X-Internal-Token'', t) \<in> set (rq_Headers req) then None
                  else Some (WriteError 401 ''unauthorized'' ''''))"
  "rt_ping demo_router w = (Inr (), w)"
  by (simp_all add: demo_router_def NewRouter_def Let_def)

text \<open>
  Claim C30. Without credentials there is no effect and nothing to see: a request that both
  authentications turn away, whatever its method and path, changes nothing, and the answer is
  theirs, the router's "not found", or that of the health and readiness probes.
\<close>

theorem no_credentials_no_effect:
  assumes "rt_RequireAuth R req = Inl unauthorized"
    and "rt_internalAuth R (rt_internalToken R) req = Some forbidden"
    and "snd (rt_ping R w) = w"
  shows "\<exists>resp. ServeHTTP R fresh now x w req = (resp, w) \<and>
           resp \<in> {unauthorized, forbidden, rt_not_found R, WriteJSON 200 (StatusJSON ''ok''),
                   WriteJSON 503 (StatusJSON ''unavailable'')}"
proof (cases "rt_chi R routes (rq_Method req) (split_path (rq_Path req))")
  case None
  then show ?thesis by (simp add: ServeHTTP_def)
next
  case (Some eb)
  then show ?thesis
    using assms by (cases eb) (auto simp: ServeHTTP_def Let_def HealthHandler_def ReadyHandler_def split: prod.splits sum.splits)
qed

theorem no_credentials_no_effect_witness:
  "\<exists>resp. ServeHTTP demo_router 9 0 RequestCtx (demo_world (demo_db [demo_media 1 7] [] []) (demo_bucket [1] []))
     \<lparr> rq_Method = ''DELETE'', rq_Path = ''/api/v1/media/mine'', rq_Headers = [], rq_request = demo_request 7 [] [] \<rparr> =
     (resp, demo_world (demo_db [demo_media 1 7] [] []) (demo_bucket [1] []))"
  using no_credentials_no_effect [of demo_router "\<lparr> rq_Method = ''DELETE'', rq_Path = ''/api/v1/media/mine'', rq_Headers = [],
      rq_request = demo_request 7 [] [] \<rparr>" _ _ "demo_world (demo_db [demo_media 1 7] [] []) (demo_bucket [1] [])" 9 0 RequestCtx]
  by auto

text \<open>The route without parameters wins.\<close>

lemma mine_route:
  assumes "chi_documented chi"
  obtains bs where "chi routes ''DELETE'' [''api'', ''v1'', ''media'', ''mine''] = Some (MediaDeleteMine, bs)"
proof -
  let ?p = "[''api'', ''v1'', ''media'', ''mine'']"
  have "(''DELETE'', media_prefix @ [Static ''mine''], MediaDeleteMine) \<in> set routes" by (simp add: routes_def)
  moreover have "fits (media_prefix @ [Static ''mine'']) ?p = Some []" by (simp add: media_prefix_def)
  ultimately have "\<exists>ps'. (''DELETE'', ps', fst (the (chi routes ''DELETE'' ?p))) \<in> set routes \<and> fits ps' ?p = Some []"
    and "chi routes ''DELETE'' ?p \<noteq> None"
    using assms unfolding chi_documented_def by blast+
  then obtain e bs ps where sel: "chi routes ''DELETE'' ?p = Some (e, bs)"
    and ps: "(''DELETE'', ps, e) \<in> set routes" "fits ps ?p = Some []" by auto
  from ps have "e = MediaDeleteMine" by (auto simp: routes_def media_prefix_def split: if_splits)
  with sel show thesis by (intro that) simp
qed

text \<open>
  \<open>DELETE /api/v1/media/mine\<close> always runs \<open>DeleteMine\<close> for the authenticated user:
  the parameter route registered before it never shadows it.
\<close>

theorem mine_not_shadowed:
  assumes "chi_documented (rt_chi R)"
    and "rq_Method req = ''DELETE''" and "rq_Path req = ''/api/v1/media/mine''"
    and "rt_RequireAuth R req = Inr u"
  shows "\<exists>r. UserIDFromContext r = Some u \<and>
             ServeHTTP R fresh now x w req = Handler_DeleteMine (rt_lib R) (rt_handler R) x w r"
proof -
  obtain bs where "rt_chi R routes ''DELETE'' [''api'', ''v1'', ''media'', ''mine''] = Some (MediaDeleteMine, bs)"
    using mine_route [OF assms(1)] .
  with assms(2-4) show ?thesis
    by (intro exI [of _ "(bind_params bs (rq_request req))\<lparr>UserIDFromContext := Some u\<rparr>"])
      (simp add: ServeHTTP_def Let_def in_media_group_def split_path_def)
qed

theorem mine_not_shadowed_witness:
  "\<exists>r. UserIDFromContext r = Some 7 \<and>
     ServeHTTP demo_router 9 0 RequestCtx (demo_world (demo_db [demo_media 1 7] [] []) (demo_bucket [1] []))
       \<lparr> rq_Method = ''DELETE'', rq_Path = ''/api/v1/media/mine'', rq_Headers = [(''Authorization'', ''Bearer 7'')],
         rq_request = demo_request 7 [] [] \<rparr> =
     Handler_DeleteMine demo_lib demo_handler RequestCtx (demo_world (demo_db [demo_media 1 7] [] []) (demo_bucket [1] [])) r"
  using mine_not_shadowed [of demo_router "\<lparr> rq_Method = ''DELETE'', rq_Path = ''/api/v1/media/mine'',
      rq_Headers = [(''Authorization'', ''Bearer 7'')], rq_request = demo_request 7 [] [] \<rparr>" 7] demo_chi_documented
  by simp

end
