(* ===== verification/Service_Config.thy ===== *)
theory Service_Config
  imports Media_Prelude Media_Domain
begin

text \<open>
  The configuration (\<^verbatim>\<open>internal/config/config.go\<close>): environment variables with defaults, and
  the parsers of the Go standard library it uses. The environment is the map that
  \<^verbatim>\<open>os.LookupEnv\<close> reads.
\<close>

type_synonym env = "string \<rightharpoonup> string"

section \<open>Parsers of the standard library\<close>

definition is_digit :: "char \<Rightarrow> bool" where
  "is_digit ch \<longleftrightarrow> 48 \<le> (of_char ch :: nat) \<and> (of_char ch :: nat) \<le> 57"

definition digit :: "char \<Rightarrow> int" where
  "digit ch = of_char ch - 48"

text \<open>\<^verbatim>\<open>strconv.ParseInt(v, 10, 64)\<close>: an optional sign and decimal digits, in the range of an \<open>int64\<close>.\<close>

fun parse_digits :: "int \<Rightarrow> string \<Rightarrow> int option" where
  "parse_digits acc [] = Some acc"
| "parse_digits acc (ch # cs) = (if is_digit ch then parse_digits (acc * 10 + digit ch) cs else None)"

definition ParseInt :: "string \<Rightarrow> int option" where
  "ParseInt s =
     (let neg = (s \<noteq> [] \<and> hd s = CHR ''-'');
          body = (if s \<noteq> [] \<and> (hd s = CHR ''-'' \<or> hd s = CHR ''+'') then tl s else s)
      in if body = [] then None
         else case parse_digits 0 body of
                None \<Rightarrow> None
              | Some n \<Rightarrow>
                  if neg then (if n \<le> 2 ^ 63 then Some (- n) else None)
                  else (if n < 2 ^ 63 then Some n else None))"

definition ParseBool :: "string \<Rightarrow> bool option" where
  "ParseBool s =
     (if s \<in> {''1'', ''t'', ''T'', ''true'', ''TRUE'', ''True''} then Some True
      else if s \<in> {''0'', ''f'', ''F'', ''false'', ''FALSE'', ''False''} then Some False
      else None)"

text \<open>
  \<^verbatim>\<open>time.ParseDuration\<close>: an optional sign and a sequence of decimal numbers with units.
  \<open>leadingInt\<close> and \<open>leadingFraction\<close> read the digits before and after the point; the
  contribution of a fraction, which Go computes in floating point, is the argument \<open>frac\<close>.
\<close>

fun leadingInt :: "int \<Rightarrow> string \<Rightarrow> (int \<times> string) option" where
  "leadingInt x [] = Some (x, [])"
| "leadingInt x (ch # cs) =
     (if \<not> is_digit ch then Some (x, ch # cs)
      else if x > 2 ^ 63 div 10 then None
      else let x' = x * 10 + digit ch in if x' > 2 ^ 63 then None else leadingInt x' cs)"

fun leadingFraction :: "int \<Rightarrow> int \<Rightarrow> bool \<Rightarrow> string \<Rightarrow> int \<times> int \<times> string" where
  "leadingFraction x scale overflow [] = (x, scale, [])"
| "leadingFraction x scale overflow (ch # cs) =
     (if \<not> is_digit ch then (x, scale, ch # cs)
      else if overflow \<or> x > (2 ^ 63 - 1) div 10 then leadingFraction x scale True cs
      else let y = x * 10 + digit ch in
           if y > 2 ^ 63 then leadingFraction x scale True cs
           else leadingFraction y (scale * 10) False cs)"

definition unitMap :: "string \<rightharpoonup> int" where
  "unitMap = map_of
     [(''ns'', 1), (''us'', 1000), ([CHR 0xC2, CHR 0xB5, CHR ''s''], 1000),
      ([CHR 0xCE, CHR 0xBC, CHR ''s''], 1000), (''ms'', 1000000), (''s'', second),
      (''m'', minute), (''h'', 60 * minute)]"

definition number_char :: "char \<Rightarrow> bool" where
  "number_char ch \<longleftrightarrow> ch = CHR ''.'' \<or> is_digit ch"

text \<open>One number with its unit, and the loop over them; \<open>fuel\<close> bounds the rounds by the length.\<close>

definition duration_part :: "(int \<Rightarrow> int \<Rightarrow> int \<Rightarrow> int) \<Rightarrow> string \<Rightarrow> (int \<times> string) option" where
  "duration_part frac s =
     (if \<not> number_char (hd s) then None
      else case leadingInt 0 s of
        None \<Rightarrow> None
      | Some (v, s1) \<Rightarrow>
          let pre = (length s1 \<noteq> length s);
              dot = (s1 \<noteq> [] \<and> hd s1 = CHR ''.'');
              (f, scale, s2) = (if dot then leadingFraction 0 1 False (tl s1) else (0, 1, s1));
              post = (dot \<and> length s2 \<noteq> length (tl s1));
              u = takeWhile (\<lambda>ch. \<not> number_char ch) s2;
              s3 = dropWhile (\<lambda>ch. \<not> number_char ch) s2
          in if \<not> pre \<and> \<not> post then None
             else if u = [] then None
             else case unitMap u of
               None \<Rightarrow> None
             | Some unit \<Rightarrow>
                 if v > 2 ^ 63 div unit then None
                 else let v1 = v * unit + (if f > 0 then frac f unit scale else 0) in
                      if v1 > 2 ^ 63 then None else Some (v1, s3))"

fun duration_loop :: "(int \<Rightarrow> int \<Rightarrow> int \<Rightarrow> int) \<Rightarrow> nat \<Rightarrow> int \<Rightarrow> string \<Rightarrow> int option" where
  "duration_loop frac fuel d [] = Some d"
| "duration_loop frac 0 d s = None"
| "duration_loop frac (Suc fuel) d s =
     (case duration_part frac s of
        None \<Rightarrow> None
      | Some (v, s') \<Rightarrow> if d + v > 2 ^ 63 then None else duration_loop frac fuel (d + v) s')"

definition ParseDuration :: "(int \<Rightarrow> int \<Rightarrow> int \<Rightarrow> int) \<Rightarrow> string \<Rightarrow> duration option" where
  "ParseDuration frac s =
     (let neg = (s \<noteq> [] \<and> hd s = CHR ''-'');
          body = (if s \<noteq> [] \<and> (hd s = CHR ''-'' \<or> hd s = CHR ''+'') then tl s else s)
      in if body = ''0'' then Some 0
         else if body = [] then None
         else case duration_loop frac (length body) 0 body of
                None \<Rightarrow> None
              | Some d \<Rightarrow>
                  if neg then Some (int64 (- d))
                  else if d > 2 ^ 63 - 1 then None else Some d)"

section \<open>The configuration\<close>

definition getEnv :: "env \<Rightarrow> string \<Rightarrow> string \<Rightarrow> string" where
  "getEnv E key fallback =
     (case E key of Some v \<Rightarrow> if v \<noteq> '''' then v else fallback | None \<Rightarrow> fallback)"

definition getDuration :: "(int \<Rightarrow> int \<Rightarrow> int \<Rightarrow> int) \<Rightarrow> env \<Rightarrow> string \<Rightarrow> duration \<Rightarrow> duration" where
  "getDuration frac E key fallback =
     (case E key of
        None \<Rightarrow> fallback
      | Some v \<Rightarrow> if v = '''' then fallback
                 else case ParseDuration frac v of None \<Rightarrow> fallback | Some d \<Rightarrow> d)"

definition getInt64 :: "env \<Rightarrow> string \<Rightarrow> int \<Rightarrow> int" where
  "getInt64 E key fallback =
     (case E key of
        None \<Rightarrow> fallback
      | Some v \<Rightarrow> if v = '''' then fallback
                 else case ParseInt v of None \<Rightarrow> fallback | Some n \<Rightarrow> n)"

definition getBool :: "env \<Rightarrow> string \<Rightarrow> bool \<Rightarrow> bool" where
  "getBool E key fallback =
     (case E key of
        None \<Rightarrow> fallback
      | Some v \<Rightarrow> if v = '''' then fallback
                 else case ParseBool v of None \<Rightarrow> fallback | Some b \<Rightarrow> b)"

record ServiceConfig =
  Env :: string
  HTTPPort :: string
  HTTPReadTimeout :: duration
  HTTPWriteTimeout :: duration
  HTTPIdleTimeout :: duration
  HTTPShutdownTimeout :: duration
  DatabaseURL :: string
  DatabaseConnectTimeout :: duration
  RedisAddr :: string
  RedisConnectTimeout :: duration
  LogLevel :: string
  AuthJWKSURL :: string
  InternalServiceToken :: string
  PublicBaseURL :: string
  MaxUploadSizeBytes :: int
  StorageBucket :: string
  StorageRegion :: string
  StorageConnectTimeout :: duration
  StorageEndpoint :: string
  StorageForcePathStyle :: bool
  BlobDeletionWorkerInterval :: duration

definition load_values :: "(int \<Rightarrow> int \<Rightarrow> int \<Rightarrow> int) \<Rightarrow> env \<Rightarrow> ServiceConfig" where
  "load_values frac E =
     \<lparr> Env = getEnv E ''APP_ENV'' ''development'',
       HTTPPort = getEnv E ''HTTP_PORT'' ''8080'',
       HTTPReadTimeout = getDuration frac E ''HTTP_READ_TIMEOUT'' (5 * second),
       HTTPWriteTimeout = getDuration frac E ''HTTP_WRITE_TIMEOUT'' (10 * second),
       HTTPIdleTimeout = getDuration frac E ''HTTP_IDLE_TIMEOUT'' (60 * second),
       HTTPShutdownTimeout = getDuration frac E ''HTTP_SHUTDOWN_TIMEOUT'' (15 * second),
       DatabaseURL = getEnv E ''DATABASE_URL'' '''',
       DatabaseConnectTimeout = getDuration frac E ''DATABASE_CONNECT_TIMEOUT'' (5 * second),
       RedisAddr = getEnv E ''REDIS_ADDR'' '''',
       RedisConnectTimeout = getDuration frac E ''REDIS_CONNECT_TIMEOUT'' (5 * second),
       LogLevel = getEnv E ''LOG_LEVEL'' ''info'',
       AuthJWKSURL = getEnv E ''AUTH_JWKS_URL'' '''',
       InternalServiceToken = getEnv E ''INTERNAL_SERVICE_TOKEN'' '''',
       PublicBaseURL = getEnv E ''PUBLIC_BASE_URL'' '''',
       MaxUploadSizeBytes = getInt64 E ''MAX_UPLOAD_SIZE_BYTES'' (15 * 1024 * 1024),
       StorageBucket = getEnv E ''STORAGE_BUCKET'' '''',
       StorageRegion = getEnv E ''STORAGE_REGION'' '''',
       StorageConnectTimeout = getDuration frac E ''STORAGE_CONNECT_TIMEOUT'' (5 * second),
       StorageEndpoint = getEnv E ''STORAGE_ENDPOINT'' '''',
       StorageForcePathStyle = getBool E ''STORAGE_FORCE_PATH_STYLE'' False,
       BlobDeletionWorkerInterval = getDuration frac E ''BLOB_DELETION_WORKER_INTERVAL'' (5 * second) \<rparr>"

definition Load :: "(int \<Rightarrow> int \<Rightarrow> int \<Rightarrow> int) \<Rightarrow> env \<Rightarrow> error + ServiceConfig" where
  "Load frac E =
     (let cfg = load_values frac E in
      if DatabaseURL cfg = '''' then Inl (OtherError ''config: DATABASE_URL is required'')
      else if RedisAddr cfg = '''' then Inl (OtherError ''config: REDIS_ADDR is required'')
      else if AuthJWKSURL cfg = '''' then Inl (OtherError ''config: AUTH_JWKS_URL is required'')
      else if PublicBaseURL cfg = '''' then Inl (OtherError ''config: PUBLIC_BASE_URL is required'')
      else if StorageBucket cfg = '''' then Inl (OtherError ''config: STORAGE_BUCKET is required'')
      else if StorageRegion cfg = '''' then Inl (OtherError ''config: STORAGE_REGION is required'')
      else Inr cfg)"

section \<open>Lemmas\<close>

text \<open>Every round of \<open>ParseDuration\<close> consumes text, so the length of the text is fuel enough.\<close>

lemma leadingInt_length: "leadingInt x s = Some (v, s') \<Longrightarrow> length s' \<le> length s"
  by (induction x s rule: leadingInt.induct) (auto simp: Let_def split: if_splits)

lemma leadingFraction_length: "leadingFraction x sc ov s = (v, sc', s') \<Longrightarrow> length s' \<le> length s"
  by (induction x sc ov s rule: leadingFraction.induct) (auto simp: Let_def split: if_splits)

lemma duration_part_length:
  assumes "duration_part frac s = Some (v, s')"
  shows "length s' < length s"
proof -
  from assms obtain w s1 where s1: "leadingInt 0 s = Some (w, s1)"
    by (auto simp: duration_part_def split: if_splits option.splits)
  obtain f scale s2 where s2: "(if s1 \<noteq> [] \<and> hd s1 = CHR ''.'' then leadingFraction 0 1 False (tl s1) else (0, 1, s1)) = (f, scale, s2)"
    by (metis prod_cases3)
  let ?P = "\<lambda>ch. \<not> number_char ch"
  from assms s1 s2 have u: "takeWhile ?P s2 \<noteq> []" and s': "s' = dropWhile ?P s2"
    by (auto simp: duration_part_def Let_def split: if_splits option.splits)
  have "length s2 = length (takeWhile ?P s2) + length s'"
    unfolding s' by (metis length_append takeWhile_dropWhile_id)
  then have "length s' < length s2" using u by simp
  moreover have "length s2 \<le> length s1"
    using s2 leadingFraction_length [of 0 1 False "tl s1" f scale s2] by (cases s1) (auto split: if_splits)
  ultimately show ?thesis using leadingInt_length [OF s1] by simp
qed

lemma duration_loop_fuel:
  "length s \<le> fuel \<Longrightarrow> duration_loop frac fuel d s = duration_loop frac (length s) d s"
proof (induction "length s" arbitrary: s fuel d rule: less_induct)
  case less
  show ?case
  proof (cases s)
    case (Cons ch cs)
    with less.prems obtain g where g: "fuel = Suc g" by (cases fuel) auto
    show ?thesis
    proof (cases "duration_part frac s")
      case (Some p)
      obtain v s' where p: "p = (v, s')" by (cases p)
      with Some have len: "length s' < length s" by (simp add: duration_part_length)
      with g less.prems Cons have le: "length s' \<le> g" "length s' \<le> length cs" by auto
      from less.hyps [OF len le(1)] less.hyps [OF len le(2)] Some p g Cons show ?thesis by simp
    qed (use g Cons in simp)
  qed simp
qed

lemma getEnv_empty_iff: "getEnv E key [] = [] \<longleftrightarrow> E key = None \<or> E key = Some []"
  by (auto simp: getEnv_def split: option.splits)

lemma ParseInt_range: "ParseInt s = Some n \<Longrightarrow> - (2 ^ 63) \<le> n \<and> n < 2 ^ 63"
proof -
  have dig: "is_digit ch \<Longrightarrow> 0 \<le> digit ch" for ch
    using of_nat_of_char [of ch, where 'a = int] by (simp add: is_digit_def digit_def)
  have nonneg: "parse_digits acc t = Some k \<Longrightarrow> 0 \<le> acc \<Longrightarrow> 0 \<le> k" for acc t k
    by (induction acc t rule: parse_digits.induct) (auto dest: dig split: if_splits)
  assume "ParseInt s = Some n"
  then show ?thesis
    using nonneg [of 0] by (fastforce simp: ParseInt_def Let_def split: if_splits option.splits)
qed

lemma getInt64_range:
  "- (2 ^ 63) \<le> fallback \<and> fallback < 2 ^ 63 \<Longrightarrow>
   - (2 ^ 63) \<le> getInt64 E key fallback \<and> getInt64 E key fallback < 2 ^ 63"
  using ParseInt_range by (auto simp: getInt64_def split: option.splits)

end
