(* ===== verification/Server_Main.thy ===== *)
theory Server_Main
  imports Service_Config Blob_Worker Http_Router
begin

text \<open>
  The server program (\<^verbatim>\<open>cmd/server\<close>): how the components are wired, and the life cycle of the
  process from reading its configuration to its exit status.
\<close>

section \<open>The server\<close>

text \<open>The part of \<^verbatim>\<open>server.Config\<close> besides the handler.\<close>

record server_config =
  Addr :: string
  ReadTimeout :: duration
  WriteTimeout :: duration
  IdleTimeout :: duration

text \<open>What \<open>run\<close> builds once everything is connected: the worker with its interval, and the router.\<close>

record 's app =
  app_worker :: "(db, 's) Worker"
  app_interval :: duration
  app_router :: "(db, 's) world router"
  app_server :: server_config

definition storage_config :: "ServiceConfig \<Rightarrow> Config" where
  "storage_config cfg =
     \<lparr> cfg_Bucket = StorageBucket cfg, cfg_Region = StorageRegion cfg, cfg_Endpoint = StorageEndpoint cfg,
       cfg_AccessKeyID = '''', cfg_SecretAccessKey = '''', cfg_ForcePathStyle = StorageForcePathStyle cfg \<rparr>"

text \<open>\<open>Ping\<close> of the pool, as a statement without effect.\<close>

definition pool_ping :: "(db, 's) world \<Rightarrow> (error + unit) \<times> (db, 's) world" where
  "pool_ping w = (case run_stmt (meta_st w) (\<lambda>d. Inr ((), d)) of (r, d) \<Rightarrow> (r, w\<lparr>meta_st := d\<rparr>))"

definition wire ::
    "nat \<Rightarrow> http_lib \<Rightarrow> chi \<Rightarrow> response \<Rightarrow> (http_request \<Rightarrow> response + uuid) \<Rightarrow>
     (string \<Rightarrow> http_request \<Rightarrow> response option) \<Rightarrow> ServiceConfig \<Rightarrow> 's Store \<Rightarrow> 's app" where
  "wire maxLimit lib chi notFound verifier internalAuth cfg blobStore =
     (let L = lib_uuid lib;
          blobs = Store_iface (L, blobStore);
          mediaRepo = Repository_New MediaRepository_iface None blobs;
          mediaService = NewService maxLimit (Repository_iface L mediaRepo) (MaxUploadSizeBytes cfg);
          mediaHandler = NewHandler mediaService (MaxUploadSizeBytes cfg) (PublicBaseURL cfg)
      in \<lparr> app_worker = \<lparr> queue = BlobDeletionRepository_iface, wblobs = blobs \<rparr>,
           app_interval = BlobDeletionWorkerInterval cfg,
           app_router = NewRouter lib chi notFound verifier internalAuth pool_ping mediaHandler
             [InternalServiceToken cfg],
           app_server =
             \<lparr> Addr = '':'' @ HTTPPort cfg, ReadTimeout = HTTPReadTimeout cfg,
               WriteTimeout = HTTPWriteTimeout cfg, IdleTimeout = HTTPIdleTimeout cfg \<rparr> \<rparr>)"

section \<open>The life cycle\<close>

text \<open>
  What \<open>run\<close> does on the way, in order: connections opened and closed, log lines, the worker
  goroutine started with its interval, the server goroutine started for its address (that it
  has got as far as listening is not recorded, and its log line is put where it starts), the context of the signals released.
\<close>

datatype resource = Pool | RedisClient

datatype event =
    Opened resource
  | Closed resource
  | LogInfo string
  | LogError string error
  | WorkerStarted duration
  | ServerStarted string
  | SignalsReleased

text \<open>
  The outcomes of the steps that other code takes: the connections (each under the timeout of
  the configuration; an error of the object store comes from \<open>blobstore.New\<close>), the server
  (\<open>Some r\<close> when it returned \<open>r\<close> by itself, \<open>None\<close> when the signal came first), and its
  graceful shutdown within a timeout.
\<close>

record ('pool, 'redis, 's) outcomes =
  open_db :: "duration \<Rightarrow> string \<Rightarrow> error + 'pool"
  open_redis :: "duration \<Rightarrow> string \<Rightarrow> string + 'redis"
  new_verifier :: "string \<Rightarrow> 'redis \<Rightarrow> string + (http_request \<Rightarrow> response + uuid)"
  open_store :: "duration \<Rightarrow> Config \<Rightarrow> error + 's Store"
  served :: "'s app \<Rightarrow> (string + unit) option"
  shutdown :: "duration \<Rightarrow> string + unit"

text \<open>
  \<open>run\<close>. The deferred calls of the source (\<open>stop\<close>, \<open>db.Close\<close>, \<open>redisClient.Close\<close>) are appended
  at each return, the last one deferred first.
\<close>

definition server_run ::
    "(int \<Rightarrow> int \<Rightarrow> int \<Rightarrow> int) \<Rightarrow> env \<Rightarrow> ('pool, 'redis, 's) outcomes \<Rightarrow>
     (ServiceConfig \<Rightarrow> (http_request \<Rightarrow> response + uuid) \<Rightarrow> 's Store \<Rightarrow> 's app) \<Rightarrow>
     (error + unit) \<times> event list" where
  "server_run frac E X build =
     (case Load frac E of
        Inl err \<Rightarrow> (Inl (Wrapped ''load config'' err), [])
      | Inr cfg \<Rightarrow>
      let defer1 = [SignalsReleased] in
      case open_db X (DatabaseConnectTimeout cfg) (DatabaseURL cfg) of
        Inl err \<Rightarrow> (Inl (Wrapped ''connect to database'' err), defer1)
      | Inr pool \<Rightarrow>
      let defer2 = Closed Pool # defer1; ev2 = [Opened Pool, LogInfo ''connected to database''] in
      case open_redis X (RedisConnectTimeout cfg) (RedisAddr cfg) of
        Inl e \<Rightarrow> (Inl (Wrapped ''connect to redis'' (OtherError e)), ev2 @ defer2)
      | Inr redisClient \<Rightarrow>
      let defer3 = Closed RedisClient # defer2; ev3 = ev2 @ [Opened RedisClient, LogInfo ''connected to redis''] in
      case new_verifier X (AuthJWKSURL cfg) redisClient of
        Inl e \<Rightarrow> (Inl (Wrapped ''build JWKS verifier'' (OtherError e)), ev3 @ defer3)
      | Inr verifier \<Rightarrow>
      case open_store X (StorageConnectTimeout cfg) (storage_config cfg) of
        Inl err \<Rightarrow> (Inl (Wrapped ''connect to object storage'' err), ev3 @ defer3)
      | Inr blobStore \<Rightarrow>
      let app = build cfg verifier blobStore;
          ev4 = ev3 @ [LogInfo ''connected to object storage'', WorkerStarted (app_interval app),
                  LogInfo ''starting http server'', ServerStarted (Addr (app_server app))] in
      case served X app of
        Some (Inl e) \<Rightarrow> (Inl (Wrapped ''run server'' (OtherError e)), ev4 @ defer3)
      | Some (Inr _) \<Rightarrow> (Inr (), ev4 @ defer3)
      | None \<Rightarrow>
      let ev5 = ev4 @ [LogInfo ''shutdown signal received''] in
      case shutdown X (HTTPShutdownTimeout cfg) of
        Inl e \<Rightarrow> (Inl (Wrapped ''graceful shutdown'' (OtherError e)), ev5 @ defer3)
      | Inr _ \<Rightarrow> (Inr (), ev5 @ [LogInfo ''server stopped cleanly''] @ defer3))"

text \<open>\<open>main\<close>: the exit status and the events.\<close>

definition server_main ::
    "(int \<Rightarrow> int \<Rightarrow> int \<Rightarrow> int) \<Rightarrow> env \<Rightarrow> ('pool, 'redis, 's) outcomes \<Rightarrow>
     (ServiceConfig \<Rightarrow> (http_request \<Rightarrow> response + uuid) \<Rightarrow> 's Store \<Rightarrow> 's app) \<Rightarrow> nat \<times> event list" where
  "server_main frac E X build =
     (case server_run frac E X build of
        (Inl err, ev) \<Rightarrow> (1, ev @ [LogError ''server exited with error'' err])
      | (Inr _, ev) \<Rightarrow> (0, ev))"

section \<open>Lemmas\<close>

text \<open>The server is wired as the properties of the other theories assume.\<close>

lemma wire_wired:
  fixes store :: "'s Store"
  defines "a maxLimit lib chi nf v ia cfg \<equiv> wire maxLimit lib chi nf v ia cfg store"
  shows "app_worker (a maxLimit lib chi nf v ia cfg) = wired_worker (lib_uuid lib, store)"
    and "service (rt_handler (app_router (a maxLimit lib chi nf v ia cfg))) =
           NewService maxLimit (wired_iface (lib_uuid lib, store)) (MaxUploadSizeBytes cfg)"
    and "rt_internalToken (app_router (a maxLimit lib chi nf v ia cfg)) = InternalServiceToken cfg"
  by (simp_all add: a_def wire_def Let_def wired_worker_def wired_iface_def wired_repo_def NewHandler_def NewRouter_def)

text \<open>The resources opened and closed, in order.\<close>

fun opened :: "event list \<Rightarrow> resource list" where
  "opened [] = []"
| "opened (Opened r # ev) = r # opened ev"
| "opened (_ # ev) = opened ev"

fun closed :: "event list \<Rightarrow> resource list" where
  "closed [] = []"
| "closed (Closed r # ev) = r # closed ev"
| "closed (_ # ev) = closed ev"

lemma opened_append [simp]: "opened (ev @ ev') = opened ev @ opened ev'"
  by (induction ev rule: opened.induct) auto

lemma closed_append [simp]: "closed (ev @ ev') = closed ev @ closed ev'"
  by (induction ev rule: closed.induct) auto

text \<open>An event that is not in a first part comes after all of it.\<close>

lemma after_prefix:
  assumes "A @ B = pre @ e # post" and "e \<notin> set A"
  shows "set A \<subseteq> set pre"
proof -
  from assms(1) obtain us where "A = pre @ us \<and> us @ B = e # post \<or> A @ us = pre \<and> B = us @ e # post"
    unfolding append_eq_append_conv2 by blast
  with assms(2) show ?thesis by (cases us) auto
qed

text \<open>The start-up: everything connected, and what the server is then built from.\<close>

definition starts ::
    "(int \<Rightarrow> int \<Rightarrow> int \<Rightarrow> int) \<Rightarrow> env \<Rightarrow> ('pool, 'redis, 's) outcomes \<Rightarrow> ServiceConfig \<Rightarrow>
     (http_request \<Rightarrow> response + uuid) \<Rightarrow> 's Store \<Rightarrow> bool" where
  "starts frac E X cfg verifier store \<longleftrightarrow>
     Load frac E = Inr cfg \<and>
     (\<exists>pool redis. open_db X (DatabaseConnectTimeout cfg) (DatabaseURL cfg) = Inr pool \<and>
        open_redis X (RedisConnectTimeout cfg) (RedisAddr cfg) = Inr redis \<and>
        new_verifier X (AuthJWKSURL cfg) redis = Inr verifier \<and>
        open_store X (StorageConnectTimeout cfg) (storage_config cfg) = Inr store)"

text \<open>Either a step of the start-up fails, or the server runs and its outcome decides.\<close>

lemma server_run_cases:
  assumes "server_run frac E X build = (r, ev)"
  obtains (failed) "\<And>cfg v st. \<not> starts frac E X cfg v st" "isl r"
      "ev \<in> {[], [SignalsReleased],
         [Opened Pool, LogInfo ''connected to database'', Closed Pool, SignalsReleased],
         [Opened Pool, LogInfo ''connected to database'', Opened RedisClient, LogInfo ''connected to redis'',
          Closed RedisClient, Closed Pool, SignalsReleased]}"
  | (ran) cfg v st more where "starts frac E X cfg v st"
      "ev = [Opened Pool, LogInfo ''connected to database'', Opened RedisClient, LogInfo ''connected to redis'',
         LogInfo ''connected to object storage'', WorkerStarted (app_interval (build cfg v st)),
         LogInfo ''starting http server'', ServerStarted (Addr (app_server (build cfg v st)))] @ more @
         [Closed RedisClient, Closed Pool, SignalsReleased]"
      "more \<in> {[], [LogInfo ''shutdown signal received''],
         [LogInfo ''shutdown signal received'', LogInfo ''server stopped cleanly'']}"
      "r = Inr () \<longleftrightarrow> served X (build cfg v st) = Some (Inr ()) \<or>
         served X (build cfg v st) = None \<and> shutdown X (HTTPShutdownTimeout cfg) = Inr ()"
proof (cases "\<exists>cfg v st. starts frac E X cfg v st")
  case True
  then obtain cfg v st where s: "starts frac E X cfg v st" by blast
  then obtain pool redis where up: "Load frac E = Inr cfg"
      "open_db X (DatabaseConnectTimeout cfg) (DatabaseURL cfg) = Inr pool"
      "open_redis X (RedisConnectTimeout cfg) (RedisAddr cfg) = Inr redis"
      "new_verifier X (AuthJWKSURL cfg) redis = Inr v"
      "open_store X (StorageConnectTimeout cfg) (storage_config cfg) = Inr st"
    unfolding starts_def by blast
  show thesis
    by (rule ran [OF s, of "case served X (build cfg v st) of Some _ \<Rightarrow> []
          | None \<Rightarrow> (case shutdown X (HTTPShutdownTimeout cfg) of
              Inl _ \<Rightarrow> [LogInfo ''shutdown signal received'']
            | Inr _ \<Rightarrow> [LogInfo ''shutdown signal received'', LogInfo ''server stopped cleanly''])"])
      (use assms in \<open>auto simp: server_run_def up Let_def split: option.splits sum.splits\<close>)
next
  case False
  then show thesis
    by (intro failed) (use assms in \<open>auto simp: server_run_def starts_def Let_def split: sum.splits\<close>)
qed

end
