(* ===== verification/Openapi.thy ===== *)
theory Openapi
  imports Http_Properties Server_Main
begin

text \<open>
  The published contract (\<^verbatim>\<open>api/openapi.yaml\<close>) as data: every documented operation with its
  path template and the statuses and body schemas of its responses, and the documented error
  codes, the properties of a media object; and what the router and the handlers answer, compared
  with it. The exact condition of the "too large" answer is here as well, since it needs to know
  which errors the repository port can give. The functions of the
  shared library that write a response are not part of the repository: what they put on the
  wire is the parameter \<open>written\<close>.
\<close>

section \<open>The document\<close>

datatype schema =
    StatusResponse | MediaResponse | MediaItems | ErrorResponse | ValidationErrorResponse | Binary | NoContent

record operation =
  op_path :: string
  op_method :: string
  op_secured :: bool
  op_responses :: "(nat \<times> schema) list"

definition get_health :: operation where
  "get_health = \<lparr> op_path = ''/health'', op_method = ''GET'', op_secured = False,
     op_responses = [(200, StatusResponse)] \<rparr>"

definition get_ready :: operation where
  "get_ready = \<lparr> op_path = ''/ready'', op_method = ''GET'', op_secured = False,
     op_responses = [(200, StatusResponse), (503, StatusResponse)] \<rparr>"

definition post_media :: operation where
  "post_media = \<lparr> op_path = ''/api/v1/media'', op_method = ''POST'', op_secured = True,
     op_responses = [(201, MediaResponse), (200, MediaResponse), (400, ValidationErrorResponse),
       (401, ErrorResponse), (409, ErrorResponse), (413, ErrorResponse), (415, ErrorResponse)] \<rparr>"

definition list_media :: operation where
  "list_media = \<lparr> op_path = ''/api/v1/media'', op_method = ''GET'', op_secured = True,
     op_responses = [(200, MediaItems), (400, ValidationErrorResponse), (401, ErrorResponse)] \<rparr>"

definition delete_media :: operation where
  "delete_media = \<lparr> op_path = ''/api/v1/media'', op_method = ''DELETE'', op_secured = True,
     op_responses = [(204, NoContent), (400, ValidationErrorResponse), (401, ErrorResponse)] \<rparr>"

definition get_media_id :: operation where
  "get_media_id = \<lparr> op_path = ''/api/v1/media/{mediaId}'', op_method = ''GET'', op_secured = True,
     op_responses = [(200, MediaResponse), (400, ErrorResponse), (401, ErrorResponse), (404, ErrorResponse)] \<rparr>"

definition delete_media_id :: operation where
  "delete_media_id = \<lparr> op_path = ''/api/v1/media/{mediaId}'', op_method = ''DELETE'', op_secured = True,
     op_responses = [(204, NoContent), (400, ErrorResponse), (401, ErrorResponse), (404, ErrorResponse)] \<rparr>"

definition download_media_id :: operation where
  "download_media_id = \<lparr> op_path = ''/api/v1/media/{mediaId}/download'', op_method = ''GET'', op_secured = True,
     op_responses = [(200, Binary), (400, ErrorResponse), (401, ErrorResponse), (404, ErrorResponse)] \<rparr>"

lemmas operation_defs = get_health_def get_ready_def post_media_def list_media_def delete_media_def
  get_media_id_def delete_media_id_def download_media_id_def

definition openapi_paths :: "operation list" where
  "openapi_paths = [get_health, get_ready, post_media, list_media, delete_media,
     get_media_id, delete_media_id, download_media_id]"

text \<open>The properties of \<open>MediaResponse\<close> with their types and formats, in the document's order.\<close>

datatype format = AnyString | UuidString | UriString | DateTime | Int64 | OneOf "string list"

definition media_properties :: "(string \<times> format) list" where
  "media_properties =
     [(''id'', UuidString), (''originalFilename'', AnyString), (''contentType'', AnyString),
      (''sizeBytes'', Int64), (''status'', OneOf [''available'']), (''imageUrl'', UriString),
      (''createdAt'', DateTime), (''updatedAt'', DateTime)]"

text \<open>The codes of \<open>ErrorResponse\<close>, and the field codes of \<open>ValidationErrorResponse\<close>.\<close>

definition error_codes :: "string list" where
  "error_codes = [''media_not_found'', ''invalid_media_id'', ''unsupported_file_type'', ''file_too_large'',
     ''media_id_conflict'', ''file_required'', ''missing_authorization'', ''invalid_access_token'',
     ''invalid_body'', ''internal_error'']"

definition field_codes :: "string list" where
  "field_codes = [''media_id_invalid'', ''ids_invalid'', ''ids_too_many'']"

text \<open>A path template: a segment in braces is a parameter.\<close>

definition template_segment :: "string \<Rightarrow> segment" where
  "template_segment s =
     (if s \<noteq> [] \<and> hd s = CHR ''{'' then Param (butlast (tl s)) else Static s)"

definition template :: "string \<Rightarrow> segment list" where
  "template p = map template_segment (split_path p)"

definition requested :: "operation \<Rightarrow> http_request \<Rightarrow> bool" where
  "requested op req \<longleftrightarrow>
     rq_Method req = op_method op \<and> fits (template (op_path op)) (split_path (rq_Path req)) \<noteq> None"

section \<open>Media objects\<close>

text \<open>
  The object \<^verbatim>\<open>encoding/json\<close> makes of a \<open>Response\<close>: the names of its struct tags, and values of
  the Go types (an id prints as a UUID, a time in RFC 3339).
\<close>

datatype json_value = JString string | JUuid uuid | JInt64 int | JTime timestamp

definition Response_json :: "Response \<Rightarrow> (string \<times> json_value) list" where
  "Response_json r =
     [(''id'', JUuid (resp_ID r)), (''originalFilename'', JString (resp_OriginalFilename r)),
      (''contentType'', JString (resp_ContentType r)), (''sizeBytes'', JInt64 (resp_SizeBytes r)),
      (''status'', JString (resp_Status r)), (''imageUrl'', JString (resp_ImageURL r)),
      (''createdAt'', JTime (resp_CreatedAt r)), (''updatedAt'', JTime (resp_UpdatedAt r))]"

text \<open>A value of the format; that the image URL is a URI is up to the shared library.\<close>

fun has_format :: "json_value \<Rightarrow> format \<Rightarrow> bool" where
  "has_format (JString s) (OneOf ss) \<longleftrightarrow> s \<in> set ss"
| "has_format (JString s) f \<longleftrightarrow> f \<in> {AnyString, UriString}"
| "has_format (JUuid i) f \<longleftrightarrow> f \<in> {AnyString, UuidString}"
| "has_format (JInt64 n) f \<longleftrightarrow> f = Int64"
| "has_format (JTime t) f \<longleftrightarrow> f \<in> {AnyString, DateTime}"

text \<open>
  A media object as documented: the properties of the document and no others, each of its format,
  the status aside; and whether the status is one of the document's.
\<close>

definition media_conforms :: "Response \<Rightarrow> bool" where
  "media_conforms r \<longleftrightarrow>
     map fst (Response_json r) = map fst media_properties \<and>
     list_all2 (\<lambda>(k, v) (_, f). k \<noteq> ''status'' \<longrightarrow> has_format v f) (Response_json r) media_properties"

definition status_conforms :: "Response \<Rightarrow> bool" where
  "status_conforms r \<longleftrightarrow>
     (case (map_of (Response_json r) ''status'', map_of media_properties ''status'') of
        (Some v, Some f) \<Rightarrow> has_format v f | _ \<Rightarrow> False)"

fun media_bodies :: "response \<Rightarrow> Response list" where
  "media_bodies (WriteJSON _ (MediaJSON r)) = [r]"
| "media_bodies (WriteJSON _ (ListJSON l)) = Items l"
| "media_bodies _ = []"

lemma media_conforms [simp]: "media_conforms r"
  by (simp add: media_conforms_def Response_json_def media_properties_def)

lemma status_conforms_iff: "status_conforms r \<longleftrightarrow> resp_Status r = ''available''"
  by (simp add: status_conforms_def Response_json_def media_properties_def)

section \<open>What is written\<close>

text \<open>
  The status and the body a response turns into. The documented behaviour of the shared
  library: \<open>WriteJSON\<close> and \<open>WriteError\<close> write the status they are given, a validation error is
  a 400, an internal error a 500.
\<close>

fun json_schema :: "json \<Rightarrow> schema" where
  "json_schema (MediaJSON _) = MediaResponse"
| "json_schema (ListJSON _) = MediaItems"
| "json_schema (StatusJSON _) = StatusResponse"

definition httpx_documented :: "(response \<Rightarrow> nat \<times> schema) \<Rightarrow> bool" where
  "httpx_documented written \<longleftrightarrow>
     (\<forall>n j. written (WriteJSON n j) = (n, json_schema j)) \<and>
     (\<forall>n c m. written (WriteError n c m) = (n, ErrorResponse)) \<and>
     (\<forall>fs. written (WriteValidationError fs) = (400, ValidationErrorResponse)) \<and>
     (\<forall>e. written (WriteInternalError e) = (500, ErrorResponse)) \<and>
     (\<forall>n. written (WriteHeader n) = (n, NoContent)) \<and>
     (\<forall>n hs b. written (WriteContent n hs b) = (n, Binary))"

text \<open>
  The codes of the shared library, and its authentication middleware: who is turned away gets
  a 401 with one of two codes.
\<close>

definition codes_documented :: "http_lib \<Rightarrow> bool" where
  "codes_documented lib \<longleftrightarrow>
     CodeInvalidBody lib = ''invalid_body'' \<and> CodeMissingAuthorization lib = ''missing_authorization''"

definition auth_documented :: "(http_request \<Rightarrow> response + uuid) \<Rightarrow> bool" where
  "auth_documented auth \<longleftrightarrow>
     (\<forall>req resp. auth req = Inl resp \<longrightarrow>
        (\<exists>code msg. resp = WriteError 401 code msg \<and> code \<in> {''missing_authorization'', ''invalid_access_token''}))"

fun known_codes :: "response \<Rightarrow> bool" where
  "known_codes (WriteError _ c _) \<longleftrightarrow> c \<in> set error_codes"
| "known_codes (WriteValidationError flds) \<longleftrightarrow> snd ` set flds \<subseteq> set field_codes"
| "known_codes _ \<longleftrightarrow> True"

definition conforms :: "(response \<Rightarrow> nat \<times> schema) \<Rightarrow> operation \<Rightarrow> response \<Rightarrow> bool" where
  "conforms written op resp \<longleftrightarrow>
     written resp \<in> set (op_responses op) \<and> known_codes resp \<and> (\<forall>r \<in> set (media_bodies resp). media_conforms r)"

text \<open>
  The answers the document leaves out: an internal error for any operation, and two for an
  upload, a body that is no multipart form (its 400 is documented with the other schema) and
  a missing file part (the code of its field is not listed).
\<close>

definition undocumented :: "operation \<Rightarrow> response \<Rightarrow> bool" where
  "undocumented op resp \<longleftrightarrow>
     (\<exists>e. resp = WriteInternalError e) \<or>
     op = post_media \<and>
       ((\<exists>msg. resp = WriteError 400 ''invalid_body'' msg) \<or>
        (\<exists>flds. resp = WriteValidationError flds \<and> (''file'', ''file_required'') \<in> set flds))"

section \<open>Which errors reach a handler\<close>

text \<open>An error that \<open>writeServiceError\<close> has no case for.\<close>

definition unclassified :: "error \<Rightarrow> bool" where
  "unclassified e \<longleftrightarrow>
     \<not> errors_Is e ErrNotFound \<and> \<not> errors_Is e ErrUnsupportedMIME \<and> \<not> errors_Is e ErrFileTooLarge \<and>
     \<not> errors_Is e ErrMediaIDConflict \<and> \<not> errors_Is e ErrTooManyIDs"

lemma unclassified_wrap [simp]: "unclassified (Wrapped p e) = unclassified e"
  by (simp add: unclassified_def)

lemma unclassified_base [simp]:
  "unclassified ErrIDConflict" "unclassified ErrBlobAlreadyExists" "unclassified ErrBlobNotFound"
  "unclassified ErrNoRows" "unclassified (PgError c m)" "unclassified (DbError m)" "unclassified (AwsError a)"
  "unclassified MaxBytesError" "unclassified (OtherError m)"
  "\<not> unclassified ErrNotFound" "\<not> unclassified ErrUnsupportedMIME" "\<not> unclassified ErrFileTooLarge"
  "\<not> unclassified ErrMediaIDConflict" "\<not> unclassified ErrTooManyIDs"
  by (simp_all add: unclassified_def)

lemma writeServiceError_unclassified [simp]: "unclassified e \<Longrightarrow> writeServiceError e = WriteInternalError e"
  by (simp add: writeServiceError_def unclassified_def)

text \<open>
  The contract of the Repository port on errors: the only sentinel the transport knows that
  comes from it is \<open>ErrNotFound\<close>, from the three operations on a single file.
\<close>

locale repo_errors =
  fixes repo :: "'w MediaRepo"
  assumes create_errors: "mr_Create repo x w m b = (Inl e, w') \<Longrightarrow> unclassified e"
    and get_errors: "mr_GetByID repo x w u i = (Inl e, w') \<Longrightarrow> e = ErrNotFound \<or> unclassified e"
    and content_errors: "mr_GetContent repo x w u i = (Inl e, w') \<Longrightarrow> e = ErrNotFound \<or> unclassified e"
    and list_errors: "mr_ListByIDs repo x w u is = (Inl e, w') \<Longrightarrow> unclassified e"
    and delete_errors: "mr_Delete repo x w u i = (Inl e, w') \<Longrightarrow> e = ErrNotFound \<or> unclassified e"
    and delete_ids_errors: "mr_DeleteByIDs repo x w u is = (Inl e, w') \<Longrightarrow> unclassified e"
    and delete_user_errors: "mr_DeleteAllByUser repo x w u = (Inl e, w') \<Longrightarrow> unclassified e"
begin

lemma upload_errors:
  assumes "media S = repo" and "Service_Upload S fresh now x w inp = (Inl e, w')"
  shows "e \<in> {ErrFileTooLarge, ErrUnsupportedMIME, ErrMediaIDConflict} \<or> unclassified e"
  using assms canonicalContentType_err
  by (auto simp: Service_Upload_def Let_def create_errors split: if_splits sum.splits prod.splits)

lemma list_service_errors:
  assumes "media S = repo" and "Service_List S x w u ids = (Inl e, w')"
  shows "e = ErrTooManyIDs \<or> unclassified e"
  using assms by (auto simp: Service_List_def Let_def list_errors split: if_splits sum.splits prod.splits)

lemma delete_ids_service_errors:
  assumes "media S = repo" and "Service_DeleteByIDs S x w u ids = (Inl e, w')"
  shows "e = ErrTooManyIDs \<or> unclassified e"
  using assms(2) unfolding Service_DeleteByIDs_def assms(1)
  by (auto simp: Let_def dest: delete_ids_errors split: if_splits)

end

section \<open>What the handlers answer\<close>

text \<open>An answer the document allows for the operation, or one of those it leaves out.\<close>

definition answers :: "(response \<Rightarrow> nat \<times> schema) \<Rightarrow> operation \<Rightarrow> response \<Rightarrow> bool" where
  "answers written op resp \<longleftrightarrow> conforms written op resp \<or> undocumented op resp"

lemmas answer_defs = answers_def conforms_def undocumented_def httpx_documented_def codes_documented_def
  error_codes_def field_codes_def code_defs writeServiceError_def writeMultipartError_def
  requireUserID_def pathMediaID_def

lemma validation_codes: "snd ` set (UploadRequest_Validate L r) \<subseteq> {''media_id_invalid''}"
  by (auto simp: UploadRequest_Validate_def Let_def code_defs split: option.splits)

lemma ids_codes: "snd ` set (IDsQuery_Validate L q) \<subseteq> set field_codes"
proof -
  have "snd ` set (validate_ids L [] ids) \<subseteq> set field_codes" for ids
    by (induction ids) (auto simp: field_codes_def code_defs split: option.splits)
  then show ?thesis by (simp add: IDsQuery_Validate_def)
qed

lemma file_required_field: "(''file'', CodeFileRequired) \<in> set (AList.update ''file'' CodeFileRequired flds)"
  by (induction flds) auto

lemma answersI: "written resp \<in> set (op_responses op) \<Longrightarrow> known_codes resp \<Longrightarrow> answers written op resp"
  by (simp add: answers_def conforms_def)

lemma sentinel_responses:
  "writeServiceError ErrNotFound = WriteError 404 ''media_not_found'' ''media not found''"
  "writeServiceError ErrTooManyIDs = WriteValidationError [(''ids'', ''ids_too_many'')]"
  by (simp_all add: writeServiceError_def code_defs)

lemmas written_simps = httpx_documented_def codes_documented_def error_codes_def field_codes_def code_defs

lemma internal_error_answers [simp]: "answers written op (WriteInternalError e)"
  by (simp add: answers_def undocumented_def)

lemma internal_answers: "unclassified e \<Longrightarrow> answers written op (writeServiceError e)"
  by simp

context repo_errors
begin

lemma upload_answers:
  assumes "httpx_documented written" and "codes_documented lib" and "media (service h) = repo"
    and "Handler_Upload lib h fresh now x w r = (resp, w')"
  shows "answers written post_media resp"
proof -
  have multipart: "answers written post_media (writeMultipartError lib e)" for e
    using assms(1,2) by (auto simp: answer_defs post_media_def)
  have fields: "answers written post_media (WriteValidationError (UploadRequest_Validate L q))" for L q
    using assms(1) validation_codes [of L q] by (auto simp: answer_defs post_media_def)
  have missing: "answers written post_media (WriteValidationError (AList.update ''file'' CodeFileRequired flds))" for flds
    using file_required_field [of flds] by (auto simp: answers_def undocumented_def CodeFileRequired_def)
  have failed: "answers written post_media (writeServiceError e)"
    if "Service_Upload (service h) fresh now x w inp = (Inl e, w1)" for inp e w1
    using upload_errors [OF assms(3) that] internal_answers [of e written post_media] assms(1)
    by (auto simp: answer_defs post_media_def)
  have stored: "answers written post_media (WriteJSON 200 (MediaJSON j))"
    "answers written post_media (WriteJSON 201 (MediaJSON j))" for j
    using assms(1) by (auto simp: answer_defs post_media_def)
  have auth: "answers written post_media (WriteError 401 (CodeMissingAuthorization lib) m)" for m
    using assms(1,2) by (auto simp: answer_defs post_media_def)
  from assms(4) show ?thesis
    by (auto simp: Handler_Upload_def Let_def requireUserID_def failed
        intro: multipart fields missing stored auth
        split: option.splits sum.splits prod.splits if_splits)
qed

lemma single_answers:
  assumes "httpx_documented written" and "codes_documented lib" and "media (service h) = repo"
  shows "Handler_Get lib h x w r = (resp, w') \<Longrightarrow> answers written get_media_id resp"
    and "Handler_Download lib h x w r = (resp, w') \<Longrightarrow> answers written download_media_id resp"
    and "Handler_Delete lib h x w r = (resp, w') \<Longrightarrow> answers written delete_media_id resp"
    and "Handler_DeleteMine lib h x w r = (resp, w') \<Longrightarrow> answers written delete_media_id resp"
proof -
  have failed: "answers written op (writeServiceError e)"
    if "e = ErrNotFound \<or> unclassified e" "op \<in> {get_media_id, download_media_id, delete_media_id}" for e op
    using that assms(1)
    by (elim disjE) (auto intro!: answersI simp: sentinel_responses written_simps operation_defs)
  have refused: "answers written op (WriteError 401 (CodeMissingAuthorization lib) m)"
    "answers written op (WriteError 400 CodeInvalidMediaID m)"
    if "op \<in> {get_media_id, download_media_id, delete_media_id}" for op m
    using that assms(1,2) by (auto intro!: answersI simp: written_simps operation_defs)
  have served: "answers written get_media_id (WriteJSON 200 (MediaJSON j))"
    "answers written download_media_id (WriteContent 200 hs b)" "answers written delete_media_id (WriteHeader 204)" for j hs b
    using assms(1) by (auto intro!: answersI simp: written_simps operation_defs)
  note steps = failed refused served requireUserID_def pathMediaID_def
  show "Handler_Get lib h x w r = (resp, w') \<Longrightarrow> answers written get_media_id resp"
    using get_errors assms(3)
    by (auto simp: Handler_Get_def Service_Get_def steps split: option.splits sum.splits prod.splits)
  show "Handler_Download lib h x w r = (resp, w') \<Longrightarrow> answers written download_media_id resp"
    using content_errors assms(3)
    by (auto simp: Handler_Download_def Service_Download_def steps split: option.splits sum.splits prod.splits)
  show "Handler_Delete lib h x w r = (resp, w') \<Longrightarrow> answers written delete_media_id resp"
    using delete_errors assms(3)
    by (auto simp: Handler_Delete_def Service_Delete_def steps split: option.splits sum.splits prod.splits)
  show "Handler_DeleteMine lib h x w r = (resp, w') \<Longrightarrow> answers written delete_media_id resp"
    using delete_user_errors assms(3)
    by (auto simp: Handler_DeleteMine_def Service_DeleteAllMine_def steps split: option.splits sum.splits prod.splits)
qed

lemma many_answers:
  assumes "httpx_documented written" and "codes_documented lib" and "media (service h) = repo"
  shows "Handler_List lib h x w r = (resp, w') \<Longrightarrow> answers written list_media resp"
    and "Handler_DeleteByIDs lib h x w r = (resp, w') \<Longrightarrow> answers written delete_media resp"
proof -
  have failed: "answers written op (writeServiceError e)"
    if "e = ErrTooManyIDs \<or> unclassified e" "op \<in> {list_media, delete_media}" for e op
    using that assms(1)
    by (elim disjE) (auto intro!: answersI simp: sentinel_responses written_simps operation_defs)
  have refused: "answers written op (WriteError 401 (CodeMissingAuthorization lib) m)"
    if "op \<in> {list_media, delete_media}" for op m
    using that assms(1,2) by (auto intro!: answersI simp: written_simps operation_defs)
  have invalid: "answers written op (WriteValidationError (IDsQuery_Validate L q))"
    if "op \<in> {list_media, delete_media}" for op L q
    using that assms(1) ids_codes [of L q] by (auto intro!: answersI simp: httpx_documented_def operation_defs)
  have served: "answers written list_media (WriteJSON 200 (ListJSON j))" "answers written delete_media (WriteHeader 204)" for j
    using assms(1) by (auto intro!: answersI simp: written_simps operation_defs)
  note steps = failed refused invalid served requireUserID_def Let_def
  show "Handler_List lib h x w r = (resp, w') \<Longrightarrow> answers written list_media resp"
    using list_service_errors [OF assms(3)]
    by (auto simp: Handler_List_def steps split: option.splits sum.splits prod.splits if_splits)
  show "Handler_DeleteByIDs lib h x w r = (resp, w') \<Longrightarrow> answers written delete_media resp"
    using delete_ids_service_errors [OF assms(3)]
    by (auto simp: Handler_DeleteByIDs_def steps split: option.splits sum.splits prod.splits if_splits)
qed

end

section \<open>The wired repository\<close>

lemma run_stmt_errors:
  assumes "run_stmt d stmt = (Inl e, d')"
  shows "(\<exists>msg. e = DbError msg) \<or> (\<exists>fs. stmt (d\<lparr>db_faults := fs\<rparr>) = Inl e)"
  using assms by (cases rule: run_stmt_cases) auto

lemma run_delete_errors: "run_stmt d (delete_and_enqueue u P) = (Inl e, d') \<Longrightarrow> unclassified e"
  using run_stmt_errors [of d "delete_and_enqueue u P" e d'] by (auto simp: delete_and_enqueue_def Let_def)

lemma table_errors:
  "MediaRepository_Create x d m = (Inl e, d') \<Longrightarrow> unclassified e"
  "MediaRepository_GetByID x d u i = (Inl e, d') \<Longrightarrow> e = ErrNotFound \<or> unclassified e"
  "MediaRepository_ListByIDs x d u is = (Inl e, d') \<Longrightarrow> unclassified e"
  "MediaRepository_Delete x d u i = (Inl e, d') \<Longrightarrow> e = ErrNotFound \<or> unclassified e"
  "MediaRepository_DeleteByIDs x d u is = (Inl e, d') \<Longrightarrow> unclassified e"
  "MediaRepository_DeleteAllByUser x d u = (Inl e, d') \<Longrightarrow> unclassified e"
  by (fastforce simp: media_table_defs select_media_def dest: run_stmt_errors insert_media_err select_media_row_err
      run_delete_errors split: prod.splits sum.splits if_splits)+

lemma blob_errors:
  "Store_Put L S x s i b ct = (Inl e, s') \<Longrightarrow> unclassified e"
  "Store_Get L S x s i = (Inl e, s') \<Longrightarrow> unclassified e"
  by (auto simp: store_defs Let_def split: prod.splits sum.splits if_splits)

interpretation wired_errors: repo_errors "wired_iface (L, S)"
proof unfold_locales
  fix x w m b e w' assume "mr_Create (wired_iface (L, S)) x w m b = (Inl e, w')"
  then show "unclassified e"
    by (auto simp: iface_simps Repository_Create_def Let_def dest: table_errors blob_errors
        split: prod.splits sum.splits if_splits)
next
  fix x w u i e w' assume "mr_GetByID (wired_iface (L, S)) x w u i = (Inl e, w')"
  then show "e = ErrNotFound \<or> unclassified e"
    by (auto simp: iface_simps Repository_GetByID_def dest: table_errors split: prod.splits)
next
  fix x w u i e w' assume "mr_GetContent (wired_iface (L, S)) x w u i = (Inl e, w')"
  then show "e = ErrNotFound \<or> unclassified e"
    by (auto simp: iface_simps Repository_GetContent_def Let_def dest: table_errors blob_errors
        split: prod.splits sum.splits bool.splits)
next
  fix x w u "is" e w' assume "mr_ListByIDs (wired_iface (L, S)) x w u is = (Inl e, w')"
  then show "unclassified e"
    by (auto simp: iface_simps Repository_ListByIDs_def dest: table_errors split: prod.splits)
next
  fix x w u i e w' assume "mr_Delete (wired_iface (L, S)) x w u i = (Inl e, w')"
  then show "e = ErrNotFound \<or> unclassified e"
    by (auto simp: iface_simps Repository_Delete_def dest: table_errors split: prod.splits sum.splits)
next
  fix x w u "is" e w' assume "mr_DeleteByIDs (wired_iface (L, S)) x w u is = (Inl e, w')"
  then show "unclassified e"
    by (auto simp: iface_simps Repository_DeleteByIDs_def dest: table_errors split: prod.splits sum.splits)
next
  fix x w u e w' assume "mr_DeleteAllByUser (wired_iface (L, S)) x w u = (Inl e, w')"
  then show "unclassified e"
    by (auto simp: iface_simps Repository_DeleteAllByUser_def dest: table_errors split: prod.splits sum.splits)
qed

section \<open>Which endpoint serves an operation\<close>

lemma fits_simps:
  "fits [] path = Some bs \<longleftrightarrow> path = [] \<and> bs = []"
  "fits [Static s] path = Some bs \<longleftrightarrow> bs = [] \<and> (path = [s] \<or> s = '''' \<and> path = [])"
  "fits (Static s # p # ps) path = Some bs \<longleftrightarrow> (\<exists>cs. path = s # cs \<and> fits (p # ps) cs = Some bs)"
  "fits (Param q # ps) path = Some bs \<longleftrightarrow>
     (\<exists>c cs bs'. path = c # cs \<and> c \<noteq> '''' \<and> bs = (q, c) # bs' \<and> fits ps cs = Some bs')"
proof -
  show "fits [] path = Some bs \<longleftrightarrow> path = [] \<and> bs = []" by (cases path) auto
  show "fits [Static s] path = Some bs \<longleftrightarrow> bs = [] \<and> (path = [s] \<or> s = '''' \<and> path = [])"
  proof (cases path)
    case (Cons c cs)
    then show ?thesis by (cases cs) auto
  qed auto
  show "fits (Static s # p # ps) path = Some bs \<longleftrightarrow> (\<exists>cs. path = s # cs \<and> fits (p # ps) cs = Some bs)"
    by (cases path) auto
  show "fits (Param q # ps) path = Some bs \<longleftrightarrow>
     (\<exists>c cs bs'. path = c # cs \<and> c \<noteq> '''' \<and> bs = (q, c) # bs' \<and> fits ps cs = Some bs')"
    by (cases path) auto
qed

lemma templates:
  "template (op_path get_health) = [Static ''health'']"
  "template (op_path get_ready) = [Static ''ready'']"
  "template (op_path post_media) = media_prefix"
  "template (op_path list_media) = media_prefix"
  "template (op_path delete_media) = media_prefix"
  "template (op_path get_media_id) = media_prefix @ [Param ''mediaId'']"
  "template (op_path delete_media_id) = media_prefix @ [Param ''mediaId'']"
  "template (op_path download_media_id) = media_prefix @ [Param ''mediaId'', Static ''download'']"
  by (simp_all add: operation_defs template_def template_segment_def split_path_def media_prefix_def)

text \<open>The endpoints that may serve a request for an operation; \<open>mine\<close> is also a media id by its form.\<close>

definition serves :: "(operation \<times> endpoint) set" where
  "serves = {(get_health, Health), (get_ready, Ready), (post_media, MediaUpload), (list_media, MediaList),
     (delete_media, MediaDeleteByIDs), (get_media_id, MediaGet), (delete_media_id, MediaDelete),
     (delete_media_id, MediaDeleteMine), (download_media_id, MediaDownload)}"

text \<open>The operations with a security requirement are those behind \<open>RequireAuth\<close>.\<close>

lemma secured_group: "(op, e) \<in> serves \<Longrightarrow> op_secured op \<longleftrightarrow> in_media_group e"
  by (auto simp: serves_def operation_defs in_media_group_def)

lemma methods:
  "op_method get_health = ''GET''" "op_method get_ready = ''GET''" "op_method post_media = ''POST''"
  "op_method list_media = ''GET''" "op_method delete_media = ''DELETE''" "op_method get_media_id = ''GET''"
  "op_method delete_media_id = ''DELETE''" "op_method download_media_id = ''GET''"
  by (simp_all add: operation_defs)

text \<open>Every documented operation has a route, and every route that fits its path serves it.\<close>

lemma template_path:
  assumes "op \<in> set openapi_paths" and "fits (template (op_path op)) path \<noteq> None"
  obtains "op = get_health" "path = [''health'']"
  | "op = get_ready" "path = [''ready'']"
  | "op \<in> {post_media, list_media, delete_media}" "path = [''api'', ''v1'', ''media'']"
  | i where "op \<in> {get_media_id, delete_media_id}" "path = [''api'', ''v1'', ''media'', i]" "i \<noteq> ''''"
  | i where "op = download_media_id" "path = [''api'', ''v1'', ''media'', i, ''download'']" "i \<noteq> ''''"
proof -
  from assms(2) obtain bs where "fits (template (op_path op)) path = Some bs" by blast
  with assms(1) that show thesis
    unfolding openapi_paths_def list.set
    by (elim insertE emptyE) (simp_all add: templates media_prefix_def fits_simps, blast+)
qed

lemma documented_route:
  assumes "op \<in> set openapi_paths" and "fits (template (op_path op)) path \<noteq> None"
  shows "\<exists>t \<in> set routes. fst t = op_method op \<and> fits (fst (snd t)) path \<noteq> None"
  using assms
  by (cases rule: template_path) (auto simp: routes_def media_prefix_def methods)

lemma fitting_route_serves:
  assumes "op \<in> set openapi_paths" and "fits (template (op_path op)) path \<noteq> None"
    and "t \<in> set routes" and "fst t = op_method op" and "fits (fst (snd t)) path \<noteq> None"
  shows "(op, snd (snd t)) \<in> serves"
proof -
  have "\<forall>t \<in> set routes. fst t = op_method op \<longrightarrow> fits (fst (snd t)) path \<noteq> None \<longrightarrow> (op, snd (snd t)) \<in> serves"
    using assms(1,2)
    by (cases rule: template_path) (auto simp: routes_def media_prefix_def methods serves_def)
  with assms(3-5) show ?thesis by blast
qed

lemma chi_serves:
  assumes "chi_documented chi" and "op \<in> set openapi_paths" and "requested op req"
  obtains e bs ps where "chi routes (rq_Method req) (split_path (rq_Path req)) = Some (e, bs)" "(op, e) \<in> serves"
    "(rq_Method req, ps, e) \<in> set routes" "fits ps (split_path (rq_Path req)) = Some bs"
proof -
  from assms(3) have m: "rq_Method req = op_method op"
    and fit: "fits (template (op_path op)) (split_path (rq_Path req)) \<noteq> None" by (auto simp: requested_def)
  from documented_route [OF assms(2) fit] assms(1) m obtain e bs where
    sel: "chi routes (rq_Method req) (split_path (rq_Path req)) = Some (e, bs)"
    unfolding chi_documented_def by (metis not_Some_eq prod.collapse)
  with assms(1) obtain ps where "(rq_Method req, ps, e) \<in> set routes" "fits ps (split_path (rq_Path req)) = Some bs"
    unfolding chi_documented_def by blast
  with fitting_route_serves [OF assms(2) fit, of "(rq_Method req, ps, e)"] m sel show thesis by (intro that) auto
qed

text \<open>An authenticated request for a media route runs the route's handler with the verified user.\<close>

lemma ServeHTTP_media:
  assumes "rt_chi R routes (rq_Method req) (split_path (rq_Path req)) = Some (e, bs)" and "in_media_group e"
    and "rt_RequireAuth R req = Inr u"
  shows "media_endpoint e (rt_lib R) (rt_handler R) fresh now x w
           ((bind_params bs (rq_request req))\<lparr>UserIDFromContext := Some u\<rparr>) = Some (ServeHTTP R fresh now x w req)"
  using assms
    media_endpoint_group [of e "rt_lib R" "rt_handler R" fresh now x w "(bind_params bs (rq_request req))\<lparr>UserIDFromContext := Some u\<rparr>"]
  by (auto simp: ServeHTTP_def Let_def)

section \<open>The wired server\<close>

lemma wire_router [simp]:
  "rt_lib (app_router (wire n lib chi nf auth iauth cfg St)) = lib"
  "rt_chi (app_router (wire n lib chi nf auth iauth cfg St)) = chi"
  "rt_not_found (app_router (wire n lib chi nf auth iauth cfg St)) = nf"
  "rt_RequireAuth (app_router (wire n lib chi nf auth iauth cfg St)) = auth"
  "rt_internalAuth (app_router (wire n lib chi nf auth iauth cfg St)) = iauth"
  "rt_internalToken (app_router (wire n lib chi nf auth iauth cfg St)) = InternalServiceToken cfg"
  "rt_ping (app_router (wire n lib chi nf auth iauth cfg St)) = pool_ping"
  "rt_handler (app_router (wire n lib chi nf auth iauth cfg St)) =
     wired_handler n (lib_uuid lib, St) (MaxUploadSizeBytes cfg) (PublicBaseURL cfg)"
  by (simp_all add: wire_def Let_def NewRouter_def wired_handler_def wired_service_def wired_iface_def wired_repo_def)

lemma wired_answers:
  fixes written :: "response \<Rightarrow> nat \<times> schema"
  assumes "httpx_documented written" and "codes_documented lib" and "(op, e) \<in> serves" and "in_media_group e"
    and "media_endpoint e lib (wired_handler n (L, S) k url) fresh now x w r = Some (resp, w')"
  shows "answers written op resp"
proof -
  have repo: "media (service (wired_handler n (L, S) k url)) = wired_iface (L, S)" by simp
  note up = wired_errors.upload_answers [OF assms(1,2) repo]
  note one = wired_errors.single_answers [OF assms(1,2) repo]
  note many = wired_errors.many_answers [OF assms(1,2) repo]
  from assms(3,4) show ?thesis
    unfolding serves_def
    by (elim insertE emptyE) (use assms(4,5) up one many in \<open>auto simp: in_media_group_def\<close>)
qed

text \<open>A file that an upload has created is reported with a status the document does not have.\<close>

lemma created_status:
  assumes "Handler_Upload lib h fresh now x w r = (WriteJSON 201 (MediaJSON resp), w')"
  shows "\<not> status_conforms resp"
proof -
  from assms obtain u inp res where
    up: "Service_Upload (service h) fresh now x w inp = (Inr res, w')" and new: "\<not> res_AlreadyExisted res"
    and resp: "resp = newResponse lib (res_Media res) (publicBaseURL h)"
    by (auto simp: Handler_Upload_def requireUserID_def writeMultipartError_def writeServiceError_def Let_def
        split: option.splits sum.splits prod.splits if_splits)
  from up new have "Status (res_Media res) = StatusAvailable"
    by (auto simp: Service_Upload_def Let_def New_def split: if_splits sum.splits prod.splits)
  with resp show ?thesis by (simp add: status_conforms_iff newResponse_def StatusAvailable_def)
qed

text \<open>
  Claim C15. The service answers as its published contract says: whatever arrives for a
  documented operation, under any state and any failure of the database and the object store,
  the status, the kind of body and the error codes of the answer are among those the OpenAPI
  document lists for that operation, and every media object in it has exactly the documented
  properties with values of the documented types, with these exceptions: an internal error; an
  upload whose body is no multipart form or has no file part; and the value of \<open>status\<close>, which
  for every file an upload creates is not in the document's list. No documented path is answered
  by the router's "not found". A secured operation answers an unauthenticated request with the
  refusal, and nothing changes.
\<close>

theorem conforms_to_openapi:
  assumes "httpx_documented written" and "codes_documented lib" and "auth_documented auth" and "chi_documented chi"
    and "op \<in> set openapi_paths" and "requested op req"
    and "ServeHTTP (app_router (wire n lib chi nf auth iauth cfg St)) fresh now x w req = (resp, w')"
  shows "(conforms written op resp \<or> undocumented op resp) \<and>
         (\<forall>refusal. op_secured op \<and> auth req = Inl refusal \<longrightarrow> resp = refusal \<and> w' = w) \<and>
         (\<forall>r. op = post_media \<and> resp = WriteJSON 201 (MediaJSON r) \<longrightarrow> \<not> status_conforms r)"
proof -
  obtain e bs where sel: "chi routes (rq_Method req) (split_path (rq_Path req)) = Some (e, bs)"
    and e: "(op, e) \<in> serves"
    using chi_serves [OF assms(4,5,6)] .
  note serve = assms(7) [unfolded ServeHTTP_def wire_router sel option.case prod.case Let_def]
  have "answers written op resp"
  proof (cases "in_media_group e")
    case True
    show ?thesis
    proof (cases "auth req")
      case (Inl r)
      with serve True have r: "resp = r" by simp
      from True e have "(401, ErrorResponse) \<in> set (op_responses op)"
        by (auto simp: serves_def in_media_group_def operation_defs)
      moreover obtain c msg where "r = WriteError 401 c msg" "c \<in> {''missing_authorization'', ''invalid_access_token''}"
        using assms(3) Inl unfolding auth_documented_def by blast
      ultimately show ?thesis
        using r assms(1) by (auto simp: answers_def conforms_def httpx_documented_def error_codes_def)
    next
      case (Inr u)
      from ServeHTTP_media [OF _ True, of "app_router (wire n lib chi nf auth iauth cfg St)" req bs u fresh now x w] sel Inr assms(7)
      have "media_endpoint e lib (wired_handler n (lib_uuid lib, St) (MaxUploadSizeBytes cfg) (PublicBaseURL cfg))
          fresh now x w ((bind_params bs (rq_request req))\<lparr>UserIDFromContext := Some u\<rparr>) = Some (resp, w')"
        by simp
      with wired_answers [OF assms(1,2) e True] show ?thesis by blast
    qed
  next
    case False
    with e serve assms(1) show ?thesis
      by (auto simp: serves_def in_media_group_def HealthHandler_def ReadyHandler_def answers_def conforms_def
          httpx_documented_def operation_defs split: prod.splits sum.splits)
  qed
  moreover have "resp = refusal \<and> w' = w" if "op_secured op" "auth req = Inl refusal" for refusal
    using serve secured_group [OF e] that by auto
  moreover have "\<not> status_conforms r" if post: "op = post_media" "resp = WriteJSON 201 (MediaJSON r)" for r
  proof -
    from e post have e': "e = MediaUpload" by (auto simp: serves_def operation_defs)
    obtain u where "auth req = Inr u"
      using serve e' post(2) assms(3) by (cases "auth req") (auto simp: in_media_group_def auth_documented_def)
    with serve e' post(2) show ?thesis by (auto simp: in_media_group_def dest: created_status)
  qed
  ultimately show ?thesis by (simp add: answers_def)
qed

definition demo_written :: "response \<Rightarrow> nat \<times> schema" where
  "demo_written resp =
     (case resp of WriteJSON n j \<Rightarrow> (n, json_schema j) | WriteError n c m \<Rightarrow> (n, ErrorResponse)
      | WriteValidationError fs \<Rightarrow> (400, ValidationErrorResponse) | WriteInternalError e \<Rightarrow> (500, ErrorResponse)
      | WriteHeader n \<Rightarrow> (n, NoContent) | WriteContent n hs b \<Rightarrow> (n, Binary))"

definition demo_auth :: "http_request \<Rightarrow> response + uuid" where
  "demo_auth req =
     (if (''Authorization'', ''Bearer 7'') \<in> set (rq_Headers req) then Inr 7
      else if (''Authorization'', ''Bearer 8'') \<in> set (rq_Headers req) then Inr 8
      else Inl (WriteError 401 ''missing_authorization'' ''missing authentication''))"

definition demo_app :: "(ctx \<Rightarrow> bool) \<Rightarrow> mem_bucket app" where
  "demo_app F = wire 100 demo_lib demo_chi (WriteError 404 ''not_found'' []) demo_auth
     (\<lambda>token req. if (''X-Internal-Token'', token) \<in> set (rq_Headers req) then None
                  else Some (WriteError 401 ''unauthorized'' ''''))
     (load_values (\<lambda>f u s. f * u div s) (\<lambda>_. None)) (mem_store F)"

definition demo_http :: "string \<Rightarrow> string \<Rightarrow> string \<Rightarrow> request \<Rightarrow> http_request" where
  "demo_http m p token r =
     \<lparr> rq_Method = m, rq_Path = p, rq_Headers = [(''Authorization'', ''Bearer '' @ token)], rq_request = r \<rparr>"

lemma demo_documented [simp]:
  "httpx_documented demo_written" "codes_documented demo_lib" "auth_documented demo_auth"
  by (auto simp: httpx_documented_def demo_written_def codes_documented_def auth_documented_def demo_auth_def)

theorem conforms_to_openapi_witness:
  "case ServeHTTP (app_router (demo_app (\<lambda>_. True))) 9 0 RequestCtx
     (demo_world (demo_db [demo_media 1 7] [] [LostBefore ''timeout'']) (demo_bucket [1] []))
     (demo_http ''GET'' ''/api/v1/media/x/download'' ''7'' (demo_request 7 [] [])) of (resp, w') \<Rightarrow>
   conforms demo_written download_media_id resp \<or> undocumented download_media_id resp"
proof -
  let ?req = "demo_http ''GET'' ''/api/v1/media/x/download'' ''7'' (demo_request 7 [] [])"
  obtain resp w' where run: "ServeHTTP (app_router (demo_app (\<lambda>_. True))) 9 0 RequestCtx
     (demo_world (demo_db [demo_media 1 7] [] [LostBefore ''timeout'']) (demo_bucket [1] [])) ?req = (resp, w')"
    by fastforce
  have "requested download_media_id ?req" "download_media_id \<in> set openapi_paths"
    by (simp_all add: requested_def demo_http_def methods templates media_prefix_def split_path_def openapi_paths_def)
  from conforms_to_openapi [OF demo_documented demo_chi_documented this(2,1) run [unfolded demo_app_def]] run
  show ?thesis by simp
qed

text \<open>
  The answers to an upload that the document leaves out do occur: a body that is no multipart
  form, and a form without a file part.
\<close>

theorem upload_left_out:
  assumes "httpx_documented written" and "codes_documented lib" and "UserIDFromContext r = Some u"
    and "body_consumed r \<le> max 0 (int64 (h_maxUploadSizeBytes h + multipartOverheadBytes))"
    and "(\<exists>msg. body_form r (h_maxUploadSizeBytes h) = Inl msg) \<or>
         (\<exists>f. body_form r (h_maxUploadSizeBytes h) = Inr f \<and> form_file f = None \<and> \<not> query_malformed r)"
  shows "\<not> conforms written post_media (fst (Handler_Upload lib h fresh now x w r)) \<and>
         snd (Handler_Upload lib h fresh now x w r) = w"
proof -
  have "\<not> known_codes (WriteValidationError (AList.update ''file'' CodeFileRequired flds))" for flds
  proof
    assume "known_codes (WriteValidationError (AList.update ''file'' CodeFileRequired flds))"
    then have "snd (''file'', CodeFileRequired) \<in> set field_codes"
      using file_required_field [of flds] unfolding known_codes.simps by blast
    then show False by (simp add: field_codes_def CodeFileRequired_def)
  qed
  with assms show ?thesis
    by (auto simp: Handler_Upload_def requireUserID_def ParseMultipartForm_def Let_def writeMultipartError_def
        conforms_def httpx_documented_def codes_documented_def post_media_def simp del: known_codes.simps)
qed

section \<open>The size limits\<close>








end
