(* ===== verification/Running_Server.thy ===== *)
theory Running_Server
  imports Openapi
begin

text \<open>
  The running server: requests through the router, rounds of the deletion worker and the
  passing of time, one after another, on the state they share. What a client can rely on from
  one of its requests to the next, whatever the server does in between for everybody else.
  (Requests and workers interrupting one another are the subject of \<open>Concurrency\<close>.)
\<close>

section \<open>Runs of the server\<close>

text \<open>
  \<open>Arrives\<close>: a request, with what \<open>uuid.New\<close> and the clock return if it is an upload;
  \<open>Round\<close>: a round of the worker; \<open>Passes\<close>: the clock, the locks of other sessions and the
  condition of the database connection change.
\<close>

datatype server_event =
    Arrives uuid timestamp ctx http_request
  | Round ctx
  | Passes timestamp "uuid list" "db_fault list"

fun server_step :: "'s app \<Rightarrow> server_event \<Rightarrow> (db, 's) world \<Rightarrow> (db, 's) world" where
  "server_step A (Arrives fresh now x req) w = snd (ServeHTTP (app_router A) fresh now x w req)"
| "server_step A (Round x) w =
     (case Worker_RunOnce (app_worker A) x (meta_st w, blob_st w) of
        (_, d, s) \<Rightarrow> w\<lparr>meta_st := d, blob_st := s\<rparr>)"
| "server_step A (Passes t locks faults) w =
     w\<lparr>meta_st := (meta_st w)\<lparr>db_now := t, db_locked := locks, db_faults := faults\<rparr>\<rparr>"

fun server_steps :: "'s app \<Rightarrow> server_event list \<Rightarrow> (db, 's) world \<Rightarrow> (db, 's) world" where
  "server_steps A [] w = w"
| "server_steps A (ev # evs) w = server_steps A evs (server_step A ev w)"

section \<open>A handler makes at most one call\<close>

lemma snd_result [simp]:
  "snd (case p of (Inl err, w1) \<Rightarrow> (f err, w1) | (Inr got, w1) \<Rightarrow> (g got, w1)) = snd p"
  "snd (case p' of (Inl err, w1) \<Rightarrow> (f err, w1) | (Inr (got, got'), w1) \<Rightarrow> (h got got', w1)) = snd p'"
  by (auto split: prod.splits sum.splits)

text \<open>
  A handler leaves the state alone, or as one call of the service leaves it, made for the
  verified user: what holds in all these cases holds after the handler. \<open>upload_id\<close> is the id
  an upload is made under.
\<close>

definition upload_id :: "http_lib \<Rightarrow> int \<Rightarrow> uuid \<Rightarrow> request \<Rightarrow> uuid option" where
  "upload_id lib maxMemory fresh r =
     (case body_form r maxMemory of
        Inl _ \<Rightarrow> None
      | Inr f \<Rightarrow> Some (if FormValue r f ''mediaId'' \<noteq> '''' then parse_or_nil (lib_uuid lib) (FormValue r f ''mediaId'')
                        else fresh))"

lemma endpoint_state:
  assumes user: "UserIDFromContext r = Some u" and call: "media_endpoint e lib h fresh now x w r = Some out"
    and none: "P w"
    and upload: "\<And>inp. e = MediaUpload \<Longrightarrow> in_UserID inp = u \<Longrightarrow> upload_id lib (h_maxUploadSizeBytes h) fresh r =
        Some (case in_ClientMediaID inp of Some cid \<Rightarrow> cid | None \<Rightarrow> fresh) \<Longrightarrow>
        P (snd (Service_Upload (service h) fresh now x w inp))"
    and get: "\<And>i. P (snd (Service_Get (service h) x w u i))"
    and download: "\<And>i. P (snd (Service_Download (service h) x w u i))"
    and list: "\<And>ids. P (snd (Service_List (service h) x w u ids))"
    and delete: "\<And>i. P (snd (Service_Delete (service h) x w u i))"
    and delete_ids: "\<And>ids. P (snd (Service_DeleteByIDs (service h) x w u ids))"
    and delete_mine: "P (snd (Service_DeleteAllMine (service h) x w u))"
  shows "P (snd out)"
proof -
  note ready = requireUserID_def user Let_def none
  have "e = MediaUpload \<Longrightarrow> P (snd (Handler_Upload lib h fresh now x w r))"
    by (simp add: Handler_Upload_def ready split: option.split)
      (auto simp: ready ParseMultipartForm_def upload_id_def intro!: upload split: sum.split option.split)
  moreover have "P (snd (Handler_Get lib h x w r))" "P (snd (Handler_Download lib h x w r))"
    "P (snd (Handler_Delete lib h x w r))" "P (snd (Handler_DeleteMine lib h x w r))"
    by (simp_all add: handler_defs ready get download delete delete_mine split: sum.split)
  moreover have "P (snd (Handler_List lib h x w r))" "P (snd (Handler_DeleteByIDs lib h x w r))"
    by (simp_all add: handler_defs ready list delete_ids)
  ultimately show ?thesis using call by (cases e) auto
qed

section \<open>Files that are kept, and files that are erased\<close>

text \<open>The row is there, its content is stored, and no deletion task is open for it.\<close>

definition kept :: "uuid \<Rightarrow> Media \<Rightarrow> bytes \<Rightarrow> (uuid \<rightharpoonup> Media) \<Rightarrow> (uuid \<rightharpoonup> bytes) \<Rightarrow> uuid set \<Rightarrow> bool" where
  "kept j m b rows content live \<longleftrightarrow> rows j = Some m \<and> content j = Some b \<and> j \<notin> live"

text \<open>The row is gone, and so is its content, or a deletion task is open for it.\<close>

definition erased :: "uuid \<Rightarrow> (uuid \<rightharpoonup> Media) \<Rightarrow> (uuid \<rightharpoonup> bytes) \<Rightarrow> uuid set \<Rightarrow> bool" where
  "erased j rows content live \<longleftrightarrow> rows j = None \<and> (content j = None \<or> j \<in> live)"

text \<open>The Repository contract, and what its operations do to the open deletion tasks.\<close>

locale media_repo_tasks = media_repo ok inv rows content repo
  for ok :: "'c \<Rightarrow> bool" and inv :: "'w \<Rightarrow> bool" and rows and content and repo +
  fixes live :: "'w \<Rightarrow> uuid set"
  assumes create_live: "ok c \<Longrightarrow> inv w \<Longrightarrow> mr_Create (repo c) x w m b = (ra, w') \<Longrightarrow> live w' = live w"
    and get_live: "inv w \<Longrightarrow> mr_GetByID (repo c) x w u i = (rg, w') \<Longrightarrow> live w' = live w"
    and content_live: "ok c \<Longrightarrow> inv w \<Longrightarrow> mr_GetContent (repo c) x w u i = (rc, w') \<Longrightarrow> live w' = live w"
    and list_live: "inv w \<Longrightarrow> mr_ListByIDs (repo c) x w u is = (rl, w') \<Longrightarrow> live w' = live w"
    and delete_live:
      "inv w \<Longrightarrow>
       mr_Delete (repo c) x w u i = (ra, w') \<or> mr_DeleteByIDs (repo c) x w u is = (rn, w') \<or>
       mr_DeleteAllByUser (repo c) x w u = (rn, w') \<Longrightarrow>
       live w' \<subseteq> live w \<union> owned_ids (rows w) u"
    and delete_scheduled:
      "inv w \<Longrightarrow>
       mr_Delete (repo c) x w u i = (ra, w') \<or> mr_DeleteByIDs (repo c) x w u is = (rn, w') \<or>
       mr_DeleteAllByUser (repo c) x w u = (rn, w') \<Longrightarrow>
       live w \<subseteq> live w' \<and> (\<forall>j. rows w j \<noteq> None \<longrightarrow> rows w' j = None \<longrightarrow> j \<in> live w')"
    and create_other:
      "ok c \<Longrightarrow> inv w \<Longrightarrow> mr_Create (repo c) x w m b = (ra, w') \<Longrightarrow> j \<noteq> ID m \<Longrightarrow>
       rows w' j = rows w j \<and> content c w' j = content c w j"
begin

lemma upload_live:
  assumes S: "ok c" "media S = repo c" and inv: "inv w"
    and call: "Service_Upload S fresh now x w inp = (r, w')"
  shows "live w' = live w"
  using S inv call refl
proof (cases rule: upload_cases)
  case (replay m m0 e w1)
  with create_live [OF S(1) inv replay(4)] create_any [OF S(1) inv replay(4)] get_live [OF _ replay(6)]
  show ?thesis by metis
next
  case (conflict m0 e e2 w1)
  with create_live [OF S(1) inv conflict(4)] create_any [OF S(1) inv conflict(4)] get_live [OF _ conflict(6)]
  show ?thesis by metis
qed (use create_live [OF S(1) inv] in auto)

lemma upload_keeps:
  assumes S: "ok c" "media S = repo c" and inv: "inv w"
    and "kept j m b (rows w) (content c w) (live w)"
    and call: "Service_Upload S fresh now x w inp = (r, w')"
  shows "inv w' \<and> kept j m b (rows w') (content c w') (live w')"
  using upload_live [OF S inv call] upload_frame [OF S inv call] assms(4) by (auto simp: kept_def)

text \<open>A new upload of an id without an open task is kept.\<close>

lemma upload_kept:
  assumes S: "ok c" "media S = repo c" and inv: "inv w"
    and call: "Service_Upload S fresh now x w inp = (Inr res, w')" and new: "\<not> res_AlreadyExisted res"
    and free: "ID (res_Media res) \<notin> live w"
  obtains m where "inv w'" "kept (ID (res_Media res)) m (in_Content inp) (rows w') (content c w') (live w')"
    "same_file (res_Media res) m"
proof -
  from upload_created [OF S inv call new] obtain m where m: "same_file (res_Media res) m"
    "rows w' (ID (res_Media res)) = Some m" "content c w' (ID (res_Media res)) = Some (in_Content inp)"
    by (auto simp: inserted_def)
  with upload_live [OF S inv call] upload_frame [OF S inv call] free show thesis
    by (intro that [of m]) (auto simp: kept_def)
qed

lemma reads_frame:
  assumes S: "ok c" "media S = repo c" and inv: "inv w"
    and call: "Service_Get S x w u i = (rg, w') \<or> Service_Download S x w u i = (rc, w') \<or>
         Service_List S x w u is = (rl, w')"
  shows "inv w' \<and> rows w' = rows w \<and> content c w' = content c w \<and> live w' = live w"
  using call
proof (elim disjE)
  assume g: "Service_Get S x w u i = (rg, w')"
  from get_frame [OF inv g [unfolded Service_Get_def S(2)]] get_live [OF inv g [unfolded Service_Get_def S(2)]]
  show ?thesis by blast
next
  assume g: "Service_Download S x w u i = (rc, w')"
  from get_content_frame [OF S(1) inv g [unfolded Service_Download_def S(2)]]
    content_live [OF S(1) inv g [unfolded Service_Download_def S(2)]]
  show ?thesis by blast
next
  assume "Service_List S x w u is = (rl, w')"
  then consider "w' = w" | r where "mr_ListByIDs (repo c) x w u (dedupeIDs is) = (r, w')"
    using S(2) by (auto simp: Service_List_def Let_def split: if_splits prod.splits sum.splits)
  then show ?thesis
  proof cases
    case 2
    from list_frame [OF inv 2] list_live [OF inv 2] show ?thesis by blast
  qed (use inv in auto)
qed

text \<open>A delete of the service is one of the repository, or nothing.\<close>

lemma service_deletes:
  assumes "media S = repo c"
    and "Service_Delete S x w u i = (ra, w') \<or> Service_DeleteByIDs S x w u is = (rn, w') \<or> Service_DeleteAllMine S x w u = (rn, w')"
  obtains "w' = w" | "mr_Delete (repo c) x w u i = (ra, w') \<or> mr_DeleteByIDs (repo c) x w u (dedupeIDs is) = (rn, w') \<or>
      mr_DeleteAllByUser (repo c) x w u = (rn, w')"
  using assms by (auto simp: Service_Delete_def Service_DeleteByIDs_def Service_DeleteAllMine_def Let_def split: if_splits)

lemma deletes_keep:
  assumes S: "ok c" "media S = repo c" and inv: "inv w"
    and kept: "kept j m b (rows w) (content c w) (live w)" and "u \<noteq> UserID m"
    and call: "Service_Delete S x w u i = (ra, w') \<or> Service_DeleteByIDs S x w u is = (rn, w') \<or>
         Service_DeleteAllMine S x w u = (rn, w')"
  shows "inv w' \<and> kept j m b (rows w') (content c w') (live w')"
proof -
  from kept \<open>u \<noteq> UserID m\<close> have j: "j \<notin> owned_ids (rows w) u" by (auto simp: kept_def owned_ids_def)
  from S(2) call show ?thesis
  proof (rule service_deletes)
    assume d: "mr_Delete (repo c) x w u i = (ra, w') \<or> mr_DeleteByIDs (repo c) x w u (dedupeIDs is) = (rn, w') \<or>
      mr_DeleteAllByUser (repo c) x w u = (rn, w')"
    from delete_others [OF S(1) inv d] delete_live [OF inv d] j kept show ?thesis by (auto simp: kept_def)
  qed (use inv kept in simp)
qed

text \<open>An upload under another id, and any delete, leave an erased file erased.\<close>

lemma upload_keeps_erased:
  assumes S: "ok c" "media S = repo c" and inv: "inv w" and gone: "erased j (rows w) (content c w) (live w)"
    and other: "(case in_ClientMediaID inp of Some cid \<Rightarrow> cid | None \<Rightarrow> fresh) \<noteq> j"
    and call: "Service_Upload S fresh now x w inp = (r, w')"
  shows "inv w' \<and> erased j (rows w') (content c w') (live w')"
proof -
  have create: "rows v j = rows w j \<and> content c v j = content c w j \<and> inv v"
    if "mr_Create (repo c) x w m0 b = (q, v)" "ID m0 \<noteq> j" for m0 b q v
    using create_other [OF S(1) inv that(1)] create_any [OF S(1) inv that(1)] that(2) by auto
  from S inv call refl have "rows w' j = rows w j \<and> content c w' j = content c w j"
  proof (cases rule: upload_cases)
    case (created m)
    from created(4) other have "ID m \<noteq> j" by (metis New_sel(1))
    with create [OF created(5)] show ?thesis by blast
  next
    case (replay m m0 e w1)
    with create [OF replay(4)] get_frame [OF _ replay(6)] other show ?thesis by metis
  next
    case (conflict m0 e e2 w1)
    with create [OF conflict(4)] get_frame [OF _ conflict(6)] other show ?thesis by metis
  next
    case (failed m0 e)
    with create [OF failed(3)] other show ?thesis by metis
  qed auto
  with upload_live [OF S inv call] upload_frame [OF S inv call] gone show ?thesis by (simp add: erased_def)
qed

lemma deletes_keep_erased:
  assumes S: "ok c" "media S = repo c" and inv: "inv w" and gone: "erased j (rows w) (content c w) (live w)"
    and call: "Service_Delete S x w u i = (ra, w') \<or> Service_DeleteByIDs S x w u is = (rn, w') \<or>
         Service_DeleteAllMine S x w u = (rn, w')"
  shows "inv w' \<and> erased j (rows w') (content c w') (live w')"
  using S(2) call
proof (rule service_deletes)
  assume d: "mr_Delete (repo c) x w u i = (ra, w') \<or> mr_DeleteByIDs (repo c) x w u (dedupeIDs is) = (rn, w') \<or>
    mr_DeleteAllByUser (repo c) x w u = (rn, w')"
  have "j \<notin> owned_ids (rows w) u" using gone by (simp add: erased_def owned_ids_def)
  with delete_others [OF S(1) inv d] delete_scheduled [OF inv d] gone show ?thesis by (auto simp: erased_def)
qed (use inv gone in simp)

text \<open>A row that a delete removes is erased: its task is open.\<close>

lemma deletes_erase:
  assumes S: "media S = repo c" and inv: "inv w"
    and call: "Service_Delete S x w u i = (ra, w') \<or> Service_DeleteByIDs S x w u is = (rn, w') \<or>
         Service_DeleteAllMine S x w u = (rn, w')"
    and "rows w j \<noteq> None" and "rows w' j = None"
  shows "erased j (rows w') (content c w') (live w')"
  using S call
proof (rule service_deletes)
  assume d: "mr_Delete (repo c) x w u i = (ra, w') \<or> mr_DeleteByIDs (repo c) x w u (dedupeIDs is) = (rn, w') \<or>
    mr_DeleteAllByUser (repo c) x w u = (rn, w')"
  from delete_scheduled [OF inv d] assms(4,5) show ?thesis by (simp add: erased_def)
qed (use assms(4,5) in simp)

lemma successful_delete_erases:
  assumes S: "ok c" "media S = repo c" and inv: "inv w" and own: "j \<in> owned_ids (rows w) u"
    and call: "Service_Delete S x w u j = (Inr a, w') \<or> Service_DeleteByIDs S x w u ids = (Inr k, w') \<and> j \<in> set ids \<or>
         Service_DeleteAllMine S x w u = (Inr k, w')"
  shows "inv w' \<and> erased j (rows w') (content c w') (live w')"
proof -
  have "rows w' j = None"
    using call
  proof (elim disjE conjE)
    assume "Service_Delete S x w u j = (Inr a, w')"
    from delete_ok [OF inv this [unfolded Service_Delete_def S(2)]] show ?thesis by (simp add: removed_def)
  next
    assume "Service_DeleteByIDs S x w u ids = (Inr k, w')" and j: "j \<in> set ids"
    then have "mr_DeleteByIDs (repo c) x w u (dedupeIDs ids) = (Inr k, w')"
      using S(2) by (auto simp: Service_DeleteByIDs_def Let_def split: if_splits)
    from delete_ids_ok [OF inv this] j own show ?thesis by (simp add: removed_def)
  next
    assume "Service_DeleteAllMine S x w u = (Inr k, w')"
    from delete_user_ok [OF inv this [unfolded Service_DeleteAllMine_def S(2)]] own show ?thesis by (simp add: removed_def)
  qed
  moreover have "rows w j \<noteq> None" using own by (auto simp: owned_ids_def)
  moreover obtain ra rn where any: "Service_Delete S x w u j = (ra, w') \<or> Service_DeleteByIDs S x w u ids = (rn, w') \<or>
      Service_DeleteAllMine S x w u = (rn, w')" using call by blast
  moreover have "inv w'"
    using S(2) any by (rule service_deletes) (use inv delete_others [OF S(1) inv] in blast)+
  ultimately show ?thesis using deletes_erase [OF S(2) inv any] by blast
qed

text \<open>What holds now and after every call that is not the owner's, or not an upload of the id, holds after a handler.\<close>

lemma endpoint_keeps:
  assumes S: "ok c" "media (service h) = repo c" and inv: "inv w"
    and kept: "kept j m b (rows w) (content c w) (live w)"
    and user: "UserIDFromContext r = Some u" "u \<noteq> UserID m"
    and call: "media_endpoint e lib h fresh now x w r = Some out"
  shows "inv (snd out) \<and> kept j m b (rows (snd out)) (content c (snd out)) (live (snd out))"
proof -
  let ?P = "\<lambda>w'. inv w' \<and> kept j m b (rows w') (content c w') (live w')"
  have reads: "?P (snd (Service_Get (service h) x w u i))" "?P (snd (Service_Download (service h) x w u i))"
    "?P (snd (Service_List (service h) x w u ids))" for i ids
    using reads_frame [OF S inv, of x u] inv kept by (metis prod.collapse)+
  have deletes: "?P (snd (Service_Delete (service h) x w u i))" "?P (snd (Service_DeleteByIDs (service h) x w u ids))"
    "?P (snd (Service_DeleteAllMine (service h) x w u))" for i ids
    using deletes_keep [OF S inv kept user(2), of x] by (metis prod.collapse)+
  from user(1) call show ?thesis
    by (rule endpoint_state [where P = ?P])
      (use inv kept reads deletes upload_keeps [OF S inv kept prod.collapse [symmetric]] in auto)
qed

lemma endpoint_keeps_erased:
  assumes S: "ok c" "media (service h) = repo c" and inv: "inv w"
    and gone: "erased j (rows w) (content c w) (live w)" and user: "UserIDFromContext r = Some u"
    and other: "e = MediaUpload \<Longrightarrow> upload_id lib (h_maxUploadSizeBytes h) fresh r \<noteq> Some j"
    and call: "media_endpoint e lib h fresh now x w r = Some out"
  shows "inv (snd out) \<and> erased j (rows (snd out)) (content c (snd out)) (live (snd out))"
proof -
  let ?P = "\<lambda>w'. inv w' \<and> erased j (rows w') (content c w') (live w')"
  have reads: "?P (snd (Service_Get (service h) x w u i))" "?P (snd (Service_Download (service h) x w u i))"
    "?P (snd (Service_List (service h) x w u ids))" for i ids
    using reads_frame [OF S inv, of x u] inv gone by (metis prod.collapse)+
  have deletes: "?P (snd (Service_Delete (service h) x w u i))" "?P (snd (Service_DeleteByIDs (service h) x w u ids))"
    "?P (snd (Service_DeleteAllMine (service h) x w u))" for i ids
    using deletes_keep_erased [OF S inv gone, of x u] by (metis prod.collapse)+
  from user call show ?thesis
    by (rule endpoint_state [where P = ?P])
      (use inv gone reads deletes other upload_keeps_erased [OF S inv gone _ prod.collapse [symmetric]] in auto)
qed

end

section \<open>The wired server\<close>

definition world_live :: "(db, 's) world \<Rightarrow> uuid set" where
  "world_live w = live_ids (meta_st w)"

lemma wired_delete_tasks:
  assumes "db_inv (meta_st w)"
    and call: "Repository_Delete (wired_repo c) x w u i = (ra, w') \<or> Repository_DeleteByIDs (wired_repo c) x w u is = (rn, w') \<or>
       Repository_DeleteAllByUser (wired_repo c) x w u = (rn, w')"
  shows "\<exists>D. D \<subseteq> owned_ids (media_rows (meta_st w)) u \<and> media_rows (meta_st w') = removed (media_rows (meta_st w)) D \<and>
             live_ids (meta_st w') = live_ids (meta_st w) \<union> D"
  using call
proof (elim disjE)
  assume "Repository_Delete (wired_repo c) x w u i = (ra, w')"
  with wired(1) assms(1) show ?thesis by (rule s3_pg.delete_shape) auto
next
  assume "Repository_DeleteByIDs (wired_repo c) x w u is = (rn, w')"
  with wired(1) assms(1) show ?thesis by (rule s3_pg.delete_ids_shape) auto
next
  assume "Repository_DeleteAllByUser (wired_repo c) x w u = (rn, w')"
  with wired(1) assms(1) show ?thesis by (rule s3_pg.delete_user_shape) auto
qed

interpretation wired_tasks: media_repo_tasks store_ok world_inv world_rows world_content wired_iface world_live
proof (unfold_locales, unfold iface_simps world_defs world_live_def, goal_cases)
  case (1 c w x m b ra w')
  with s3_pg.create_frame [OF 1(1) wired 1(2,3)] show ?case by blast
next
  case (2 w c x u i rg w')
  then show ?case by (auto simp: Repository_GetByID_def split: prod.splits dest: media_table.get_frame)
next
  case (3 c w x u i rc w')
  from 3(1) wired wired_repo_sel(2) 3(2,3) show ?case
    by (cases rule: s3_pg.get_content_cases) (auto dest: media_table.get_frame [OF 3(2)])
next
  case (4 w c x u "is" rl w')
  then show ?case by (auto simp: Repository_ListByIDs_def split: prod.splits dest: media_table.list_frame)
next
  case (5 w c x u i ra w' "is" rn)
  from wired_delete_tasks [OF this] show ?case by blast
next
  case (6 w c x u i ra w' "is" rn)
  from wired_delete_tasks [OF this] show ?case by (auto simp: removed_def)
next
  case (7 c w x m b ra w' j)
  from 7(1) wired 7(3) show ?case
  proof (cases rule: s3_pg.create_cases)
    case (put_failed e)
    with 7(4) show ?thesis by auto
  next
    case (compensated e s1 err d1 q)
    with 7(4) media_table.create_err [OF 7(2) compensated(4)] s3_store.delete_result [OF 7(1) compensated(6)]
    show ?thesis by (auto simp: inserted_def split: sum.splits)
  next
    case (created a)
    with 7(4) media_table.create_ok [OF 7(2) created(4)] show ?thesis by (auto simp: inserted_def)
  qed
qed

text \<open>
  An event that is not the doing of \<open>u\<close>: a request that is not authenticated as \<open>u\<close> and is
  no internal request to delete \<open>u\<close>'s data; anything else the server does.
\<close>

definition deletes_user :: "'w router \<Rightarrow> uuid \<Rightarrow> http_request \<Rightarrow> bool" where
  "deletes_user R u req \<longleftrightarrow>
     rt_internalAuth R (rt_internalToken R) req = None \<and>
     (\<exists>c. split_path (rq_Path req) = [''internal'', ''api'', ''v1'', ''users'', c] \<and> c \<noteq> '''' \<and>
          uuid_Parse (lib_uuid (rt_lib R)) c = Some u)"

fun spares :: "'s app \<Rightarrow> uuid \<Rightarrow> server_event \<Rightarrow> bool" where
  "spares A u (Arrives fresh now x req) \<longleftrightarrow>
     rt_RequireAuth (app_router A) req \<noteq> Inr u \<and> \<not> deletes_user (app_router A) u req"
| "spares A u _ \<longleftrightarrow> True"

abbreviation world_kept :: "uuid_lib \<times> 's Store \<Rightarrow> uuid \<Rightarrow> Media \<Rightarrow> bytes \<Rightarrow> (db, 's) world \<Rightarrow> bool" where
  "world_kept c j m b w \<equiv> world_inv w \<and> kept j m b (world_rows w) (world_content c w) (world_live w)"

lemma internal_route:
  assumes "chi_documented chi" and "chi routes meth path = Some (InternalDeleteUser, bs)"
  obtains c where "path = [''internal'', ''api'', ''v1'', ''users'', c]" "c \<noteq> ''''" "bs = [(''userID'', c)]"
proof -
  from assms obtain ps where "(meth, ps, InternalDeleteUser) \<in> set routes" "fits ps path = Some bs"
    unfolding chi_documented_def by blast
  with that show thesis by (auto simp: routes_def fits_simps)
qed

lemma pool_ping_effect: "\<exists>fs. snd (pool_ping w) = w\<lparr>meta_st := (meta_st w)\<lparr>db_faults := fs\<rparr>\<rparr>"
proof -
  obtain r d where run: "run_stmt (meta_st w) (\<lambda>d. Inr ((), d)) = (r, d)" by fastforce
  then have "\<exists>fs. d = (meta_st w)\<lparr>db_faults := fs\<rparr>" by (cases rule: run_stmt_cases) auto
  with run show ?thesis by (auto simp: pool_ping_def)
qed

text \<open>
  What the router does to the state: nothing, the ping of the readiness probe, a handler for
  the verified user, or the deletion of the data of the user in an internal path.
\<close>

lemma request_state:
  assumes chi: "chi_documented (rt_chi R)" and none: "P w" and ping: "P (snd (rt_ping R w))"
    and media: "\<And>u e bs ps. rt_RequireAuth R req = Inr u \<Longrightarrow> (rq_Method req, ps, e) \<in> set routes \<Longrightarrow>
        media_endpoint e (rt_lib R) (rt_handler R) fresh now x w
          ((bind_params bs (rq_request req))\<lparr>UserIDFromContext := Some u\<rparr>) = Some (ServeHTTP R fresh now x w req) \<Longrightarrow>
        P (snd (ServeHTTP R fresh now x w req))"
    and internal: "\<And>v. deletes_user R v req \<Longrightarrow> P (snd (Service_DeleteAllMine (service (rt_handler R)) x w v))"
  shows "P (snd (ServeHTTP R fresh now x w req))"
proof (cases "rt_chi R routes (rq_Method req) (split_path (rq_Path req))")
  case None
  then show ?thesis using none by (simp add: ServeHTTP_def)
next
  case (Some out)
  then obtain e bs where sel: "rt_chi R routes (rq_Method req) (split_path (rq_Path req)) = Some (e, bs)" by fastforce
  then obtain ps where ps: "(rq_Method req, ps, e) \<in> set routes" using chi unfolding chi_documented_def by blast
  show ?thesis
  proof (cases "in_media_group e")
    case True
    show ?thesis
    proof (cases "rt_RequireAuth R req")
      case (Inl resp)
      with sel True none show ?thesis by (simp add: ServeHTTP_def Let_def)
    next
      case (Inr v)
      from media [OF Inr ps ServeHTTP_media [OF sel True Inr]] show ?thesis .
    qed
  next
    case False
    then consider "e = Health" | "e = Ready" | "e = InternalDeleteUser" by (cases e) (simp_all add: in_media_group_def)
    then show ?thesis
    proof cases
      case 3
      from internal_route [OF chi] sel 3 obtain i where
        "split_path (rq_Path req) = [''internal'', ''api'', ''v1'', ''users'', i]" "i \<noteq> ''''" "bs = [(''userID'', i)]" by blast
      then show ?thesis
        using sel 3 False none internal
        by (auto simp: ServeHTTP_def Let_def deleteUserHandler_def DeleteUserData_def deletes_user_def split: option.splits)
    qed (use sel False none ping in \<open>simp_all add: ServeHTTP_def Let_def ReadyHandler_def\<close>)
  qed
qed

abbreviation world_erased :: "uuid_lib \<times> 's Store \<Rightarrow> uuid \<Rightarrow> (db, 's) world \<Rightarrow> bool" where
  "world_erased c j w \<equiv> world_inv w \<and> erased j (world_rows w) (world_content c w) (world_live w)"

lemma pool_ping_frame:
  "world_inv (snd (pool_ping w)) = world_inv w" "world_rows (snd (pool_ping w)) = world_rows w"
  "world_content c (snd (pool_ping w)) = world_content c w" "world_live (snd (pool_ping w)) = world_live w"
proof -
  obtain fs where "snd (pool_ping w) = w\<lparr>meta_st := (meta_st w)\<lparr>db_faults := fs\<rparr>\<rparr>" using pool_ping_effect by blast
  then show "world_inv (snd (pool_ping w)) = world_inv w" "world_rows (snd (pool_ping w)) = world_rows w"
    "world_content c (snd (pool_ping w)) = world_content c w" "world_live (snd (pool_ping w)) = world_live w"
    by (simp_all add: world_defs world_live_def)
qed

text \<open>An event that does not upload the id \<open>j\<close>.\<close>

fun no_upload_of :: "'s app \<Rightarrow> uuid \<Rightarrow> server_event \<Rightarrow> bool" where
  "no_upload_of A j (Arrives fresh now x req) \<longleftrightarrow>
     (rq_Method req = ''POST'' \<longrightarrow>
        upload_id (rt_lib (app_router A)) (h_maxUploadSizeBytes (rt_handler (app_router A))) fresh (rq_request req) \<noteq> Some j)"
| "no_upload_of A j _ \<longleftrightarrow> True"

lemma upload_id_bound [simp]:
  "upload_id lib k fresh ((bind_params bs r)\<lparr>UserIDFromContext := v\<rparr>) = upload_id lib k fresh r"
  by (simp add: upload_id_def FormValue_def bind_params_def split: sum.split)

lemma upload_is_post: "(meth, ps, MediaUpload) \<in> set routes \<Longrightarrow> meth = ''POST''"
  by (auto simp: routes_def)

text \<open>
  No step that is not the owner's doing touches a kept file, and no step other than a new
  upload of the id brings an erased file back.
\<close>

lemma step_keeps:
  assumes c: "store_ok (lib_uuid lib, St)" and chi: "chi_documented chi"
    and A: "A = wire n lib chi nf auth iauth cfg St"
  shows "world_kept (lib_uuid lib, St) j m b w \<Longrightarrow> spares A (UserID m) ev \<Longrightarrow>
           world_kept (lib_uuid lib, St) j m b (server_step A ev w)"
    and "world_erased (lib_uuid lib, St) j w \<Longrightarrow> no_upload_of A j ev \<Longrightarrow>
           world_erased (lib_uuid lib, St) j (server_step A ev w)"
proof -
  let ?c = "(lib_uuid lib, St)" and ?R = "app_router A"
  have R: "media (service (rt_handler ?R)) = wired_iface ?c" "chi_documented (rt_chi ?R)" "rt_ping ?R = pool_ping"
    "rt_lib ?R = lib" using A chi by simp_all
  show "world_kept ?c j m b (server_step A ev w)" if kept: "world_kept ?c j m b w" and ev: "spares A (UserID m) ev"
  proof (cases ev)
    case (Arrives fresh now x req)
    have "world_kept ?c j m b (snd (ServeHTTP ?R fresh now x w req))"
      using R(2)
    proof (rule request_state)
      fix v assume "deletes_user ?R v req"
      with ev Arrives have "v \<noteq> UserID m" by auto
      with wired_tasks.deletes_keep [OF c R(1), of w j m b v x] kept
      show "world_kept ?c j m b (snd (Service_DeleteAllMine (service (rt_handler ?R)) x w v))" by (metis prod.collapse)
    next
      fix u e bs ps
      assume "rt_RequireAuth ?R req = Inr u" and run: "media_endpoint e (rt_lib ?R) (rt_handler ?R) fresh now x w
          ((bind_params bs (rq_request req))\<lparr>UserIDFromContext := Some u\<rparr>) = Some (ServeHTTP ?R fresh now x w req)"
      with ev Arrives have ne: "u \<noteq> UserID m" by auto
      with wired_tasks.endpoint_keeps [OF c R(1) _ _ _ ne run, of j b] kept
      show "world_kept ?c j m b (snd (ServeHTTP ?R fresh now x w req))" by simp
    qed (use kept R(3) in \<open>simp_all add: pool_ping_frame\<close>)
    then show ?thesis by (simp add: Arrives)
  next
    case (Round x)
    obtain r d s where run: "Worker_RunOnce (wired_worker ?c) x (meta_st w, blob_st w) = (r, d, s)"
      by (metis prod_cases3)
    from s3_worker.run_once_safe [OF c wired_worker_sel _ run] kept Round run A show ?thesis
      by (auto simp: wire_wired kept_def world_defs world_live_def)
  next
    case (Passes t locks faults)
    with kept show ?thesis by (simp add: world_defs world_live_def db_inv_def media_rows_def live_ids_def)
  qed
  show "world_erased ?c j (server_step A ev w)" if gone: "world_erased ?c j w" and ev: "no_upload_of A j ev"
  proof (cases ev)
    case (Arrives fresh now x req)
    have "world_erased ?c j (snd (ServeHTTP ?R fresh now x w req))"
      using R(2)
    proof (rule request_state)
      fix v
      show "world_erased ?c j (snd (Service_DeleteAllMine (service (rt_handler ?R)) x w v))"
        using wired_tasks.deletes_keep_erased [OF c R(1), of w j x v] gone by (metis prod.collapse)
    next
      fix u e bs ps
      assume "(rq_Method req, ps, e) \<in> set routes" and run: "media_endpoint e (rt_lib ?R) (rt_handler ?R) fresh now x w
          ((bind_params bs (rq_request req))\<lparr>UserIDFromContext := Some u\<rparr>) = Some (ServeHTTP ?R fresh now x w req)"
      with ev Arrives upload_is_post wired_tasks.endpoint_keeps_erased [OF c R(1) _ _ _ _ run] gone
      show "world_erased ?c j (snd (ServeHTTP ?R fresh now x w req))" by auto
    qed (use gone R(3) in \<open>simp_all add: pool_ping_frame\<close>)
    then show ?thesis by (simp add: Arrives)
  next
    case (Round x)
    obtain r d s where run: "Worker_RunOnce (wired_worker ?c) x (meta_st w, blob_st w) = (r, d, s)"
      by (metis prod_cases3)
    from s3_worker.run_once_safe [OF c wired_worker_sel _ run] gone Round run A show ?thesis
      by (auto simp: wire_wired erased_def world_defs world_live_def)
  next
    case (Passes t locks faults)
    with gone show ?thesis by (simp add: world_defs world_live_def db_inv_def media_rows_def live_ids_def)
  qed
qed

lemma steps_keep:
  assumes "store_ok (lib_uuid lib, St)" and "chi_documented chi" and "A = wire n lib chi nf auth iauth cfg St"
  shows "world_kept (lib_uuid lib, St) j m b w \<Longrightarrow> list_all (spares A (UserID m)) evs \<Longrightarrow>
           world_kept (lib_uuid lib, St) j m b (server_steps A evs w)"
    and "world_erased (lib_uuid lib, St) j w \<Longrightarrow> list_all (no_upload_of A j) evs \<Longrightarrow>
           world_erased (lib_uuid lib, St) j (server_steps A evs w)"
proof (induction evs arbitrary: w)
  case (Cons ev evs)
  {
    case 1
    with step_keeps(1) [OF assms 1(1), of ev] Cons.IH(1) [of "server_step A ev w"] show ?case by simp
  next
    case 2
    with step_keeps(2) [OF assms 2(1), of ev] Cons.IH(2) [of "server_step A ev w"] show ?case by simp
  }
qed simp_all

end
