(* ===== verification/Map_Store.thy ===== *)
theory Map_Store
  imports Running_Server
begin

text \<open>
  The reference for the whole service: a Repository port over a plain map from ids to files,
  with no tables, tasks, objects, statements or faults, and the server over it. The locale
  \<open>repo_simulation\<close> says when one Repository port answers like another; the use cases, the
  handlers and the router are shown, once, to carry this over to every response.
\<close>

section \<open>A file map as a Repository port\<close>

type_synonym files = "uuid \<rightharpoonup> Media \<times> bytes"

text \<open>
  What the columns of a row make of an entity, or why they refuse it: \<open>codec\<close> is the precision
  of a timestamp column, \<open>valid\<close> what a text column accepts.
\<close>

definition columns :: "(timestamp \<Rightarrow> timestamp) \<Rightarrow> (string \<Rightarrow> bool) \<Rightarrow> Media \<Rightarrow> error + Media" where
  "columns codec valid m =
     (if \<not> valid (OriginalFilename m) \<or> \<not> valid (ContentType m)
      then Inl (PgError ''22021'' ''invalid byte sequence for encoding UTF8'')
      else if SizeBytes m < 0 \<or> Status m \<noteq> StatusAvailable
      then Inl (PgError ''23514'' ''new row for relation media violates check constraint'')
      else Inr (m\<lparr>CreatedAt := codec (CreatedAt m), UpdatedAt := codec (UpdatedAt m), DeletedAt := None\<rparr>))"

definition mine :: "files \<Rightarrow> uuid \<Rightarrow> uuid \<Rightarrow> bool" where
  "mine F u i \<longleftrightarrow> (case F i of None \<Rightarrow> False | Some (m, _) \<Rightarrow> UserID m = u)"

definition without :: "files \<Rightarrow> uuid set \<Rightarrow> files" where
  "without F D = (\<lambda>i. if i \<in> D then None else F i)"

definition map_create :: "(Media \<Rightarrow> error + Media) \<Rightarrow> files \<Rightarrow> Media \<Rightarrow> bytes \<Rightarrow> (error + unit) \<times> files" where
  "map_create cols F m b =
     (case F (ID m) of
        Some _ \<Rightarrow> (Inl ErrIDConflict, F)
      | None \<Rightarrow>
          (case cols m of
             Inl e \<Rightarrow> (Inl (Wrapped ''media: create metadata'' (Wrapped ''postgres: create media'' e)), F)
           | Inr row \<Rightarrow> (Inr (), F(ID m \<mapsto> (row, b)))))"

definition map_get :: "files \<Rightarrow> uuid \<Rightarrow> uuid \<Rightarrow> error + Media \<times> bytes" where
  "map_get F u i = (if mine F u i then Inr (the (F i)) else Inl ErrNotFound)"

definition map_repo :: "(Media \<Rightarrow> error + Media) \<Rightarrow> files MediaRepo" where
  "map_repo cols =
     \<lparr> mr_Create = (\<lambda>x F m b. map_create cols F m b),
       mr_GetByID = (\<lambda>x F u i. (map_sum id fst (map_get F u i), F)),
       mr_GetContent = (\<lambda>x F u i. (map_get F u i, F)),
       mr_ListByIDs = (\<lambda>x F u is. (Inr (map (\<lambda>i. fst (the (F i))) (filter (mine F u) (remdups is))), F)),
       mr_Delete = (\<lambda>x F u i. if mine F u i then (Inr (), without F {i}) else (Inl ErrNotFound, F)),
       mr_DeleteByIDs = (\<lambda>x F u is.
         (Inr (int (card (set is \<inter> Collect (mine F u)))), without F (set is \<inter> Collect (mine F u)))),
       mr_DeleteAllByUser = (\<lambda>x F u. (Inr (int (card (Collect (mine F u)))), without F (Collect (mine F u)))) \<rparr>"

lemma map_repo_sel [simp]:
  "mr_Create (map_repo cols) x F m b = map_create cols F m b"
  "mr_GetByID (map_repo cols) x F u i = (map_sum id fst (map_get F u i), F)"
  "mr_GetContent (map_repo cols) x F u i = (map_get F u i, F)"
  "mr_ListByIDs (map_repo cols) x F u is = (Inr (map (\<lambda>i. fst (the (F i))) (filter (mine F u) (remdups is))), F)"
  "mr_Delete (map_repo cols) x F u i = (if mine F u i then (Inr (), without F {i}) else (Inl ErrNotFound, F))"
  "mr_DeleteByIDs (map_repo cols) x F u is =
     (Inr (int (card (set is \<inter> Collect (mine F u)))), without F (set is \<inter> Collect (mine F u)))"
  "mr_DeleteAllByUser (map_repo cols) x F u =
     (Inr (int (card (Collect (mine F u)))), without F (Collect (mine F u)))"
  by (simp_all add: map_repo_def)

section \<open>One port answers like another\<close>

text \<open>Two calls agree: the same result, and related states.\<close>

definition agree :: "('w \<Rightarrow> 'v \<Rightarrow> bool) \<Rightarrow> 'a \<times> 'w \<Rightarrow> 'a \<times> 'v \<Rightarrow> bool" where
  "agree sim p q \<longleftrightarrow> fst p = fst q \<and> sim (snd p) (snd q)"

lemma agree_Pair [simp]: "agree sim (a, w) (b, v) \<longleftrightarrow> a = b \<and> sim w v"
  by (simp add: agree_def)

lemma agree_case:
  assumes "agree sim p q" and "\<And>e w v. sim w v \<Longrightarrow> agree sim (f e w) (f' e v)"
    and "\<And>a w v. sim w v \<Longrightarrow> agree sim (g a w) (g' a v)"
  shows "agree sim (case p of (Inl e, w) \<Rightarrow> f e w | (Inr a, w) \<Rightarrow> g a w)
           (case q of (Inl e, v) \<Rightarrow> f' e v | (Inr a, v) \<Rightarrow> g' a v)"
  using assms by (cases p; cases q; cases "fst p") auto

lemma agree_case_pair:
  assumes "agree sim p q" and "\<And>e w v. sim w v \<Longrightarrow> agree sim (f e w) (f' e v)"
    and "\<And>a b w v. sim w v \<Longrightarrow> agree sim (g a b w) (g' a b v)"
  shows "agree sim (case p of (Inl e, w) \<Rightarrow> f e w | (Inr (a, b), w) \<Rightarrow> g a b w)
           (case q of (Inl e, v) \<Rightarrow> f' e v | (Inr (a, b), v) \<Rightarrow> g' a b v)"
  using assms by (cases p; cases q; cases "fst p") auto

text \<open>
  The contract: related states stay related through every operation and the answers are equal;
  the order of a list of rows is the port's own. \<open>free w i\<close>: the id may be uploaded.
\<close>

locale repo_simulation =
  fixes sim :: "'w \<Rightarrow> 'v \<Rightarrow> bool" and free :: "'w \<Rightarrow> uuid \<Rightarrow> bool"
    and repo :: "'w MediaRepo" and repo' :: "'v MediaRepo"
  assumes sim_create: "sim w v \<Longrightarrow> free w (ID m) \<Longrightarrow> agree sim (mr_Create repo x w m b) (mr_Create repo' x v m b)"
    and sim_get: "sim w v \<Longrightarrow> agree sim (mr_GetByID repo x w u i) (mr_GetByID repo' x v u i)"
    and sim_content: "sim w v \<Longrightarrow> agree sim (mr_GetContent repo x w u i) (mr_GetContent repo' x v u i)"
    and sim_list: "sim w v \<Longrightarrow>
      \<exists>ms ms' w' v'. mr_ListByIDs repo x w u is = (Inr ms, w') \<and> mr_ListByIDs repo' x v u is = (Inr ms', v') \<and>
        sim w' v' \<and> distinct (map ID ms) \<and> distinct (map ID ms') \<and> set ms = set ms'"
    and sim_delete: "sim w v \<Longrightarrow> agree sim (mr_Delete repo x w u i) (mr_Delete repo' x v u i)"
    and sim_delete_ids: "sim w v \<Longrightarrow> is \<noteq> [] \<Longrightarrow> agree sim (mr_DeleteByIDs repo x w u is) (mr_DeleteByIDs repo' x v u is)"
    and sim_delete_user: "sim w v \<Longrightarrow> agree sim (mr_DeleteAllByUser repo x w u) (mr_DeleteAllByUser repo' x v u)"
begin

lemma sim_upload:
  assumes S: "media S = repo" "media S' = repo'" "maxUploadSizeBytes S = maxUploadSizeBytes S'" and "sim w v"
    and free: "free w (case in_ClientMediaID inp of Some cid \<Rightarrow> cid | None \<Rightarrow> fresh)"
  shows "agree sim (Service_Upload S fresh now x w inp) (Service_Upload S' fresh now x v inp)"
proof (cases "int (length (in_Content inp)) > maxUploadSizeBytes S'")
  case True
  then show ?thesis using S(3) assms(4) by (simp add: Service_Upload_def)
next
  case small: False
  show ?thesis
  proof (cases "canonicalContentType (in_OriginalFilename inp) (in_Content inp)")
    case (Inl e)
    then show ?thesis using small S(3) assms(4) by (simp add: Service_Upload_def)
  next
    case (Inr ct)
    let ?i = "case in_ClientMediaID inp of Some cid \<Rightarrow> cid | None \<Rightarrow> fresh"
    let ?m = "New now ?i (in_UserID inp) (in_OriginalFilename inp) ct (int (length (in_Content inp)))"
    have create: "agree sim (mr_Create repo x w ?m (in_Content inp)) (mr_Create repo' x v ?m (in_Content inp))"
      using sim_create [OF assms(4), of ?m] free by simp
    have lookup: "agree sim
        (case mr_GetByID repo x w1 (in_UserID inp) ?i of (Inr ex, w2) \<Rightarrow> (Inr \<lparr>res_Media = ex, res_AlreadyExisted = True\<rparr>, w2)
          | (Inl _, w2) \<Rightarrow> (Inl ErrMediaIDConflict, w2))
        (case mr_GetByID repo' x v1 (in_UserID inp) ?i of (Inr ex, w2) \<Rightarrow> (Inr \<lparr>res_Media = ex, res_AlreadyExisted = True\<rparr>, w2)
          | (Inl _, w2) \<Rightarrow> (Inl ErrMediaIDConflict, w2))" if "sim w1 v1" for w1 v1
      by (rule agree_case [OF sim_get [OF that]]) simp_all
    show ?thesis
      unfolding Service_Upload_def Let_def Inr S
      using small by (simp only: if_False sum.case) (rule agree_case [OF create]; auto intro: lookup simp del: option.case_eq_if)
  qed
qed

lemma index_by_id_set:
  assumes "distinct (map ID ms)" and "distinct (map ID ms')" and "set ms = set ms'"
  shows "index_by_id Map.empty ms = index_by_id Map.empty ms'"
proof
  fix i
  have "lookup_by ID ms i = Some m \<longleftrightarrow> lookup_by ID ms' i = Some m" for m
    using assms by (simp add: lookup_by_Some_iff keyed_def)
  then have "lookup_by ID ms i = lookup_by ID ms' i" by (metis not_Some_eq)
  then show "index_by_id Map.empty ms i = index_by_id Map.empty ms' i"
    using assms(1,2) by (simp add: index_by_id_eq)
qed

lemma sim_list_service:
  assumes "media S = repo" "media S' = repo'" "maxListIDs S = maxListIDs S'" and "sim w v"
  shows "agree sim (Service_List S x w u ids) (Service_List S' x v u ids)"
proof -
  obtain ms ms' w' v' where l: "mr_ListByIDs repo x w u (dedupeIDs ids) = (Inr ms, w')"
    "mr_ListByIDs repo' x v u (dedupeIDs ids) = (Inr ms', v')" "sim w' v'"
    "distinct (map ID ms)" "distinct (map ID ms')" "set ms = set ms'"
    using sim_list [OF assms(4)] by metis
  from l(1-3) index_by_id_set [OF l(4-6)] assms show ?thesis by (simp add: Service_List_def Let_def)
qed

lemma sim_service:
  assumes S: "media S = repo" "media S' = repo'" "maxListIDs S = maxListIDs S'" and "sim w v"
  shows "agree sim (Service_Get S x w u i) (Service_Get S' x v u i)"
    and "agree sim (Service_Download S x w u i) (Service_Download S' x v u i)"
    and "agree sim (Service_Delete S x w u i) (Service_Delete S' x v u i)"
    and "agree sim (Service_DeleteByIDs S x w u ids) (Service_DeleteByIDs S' x v u ids)"
    and "agree sim (Service_DeleteAllMine S x w u) (Service_DeleteAllMine S' x v u)"
  using S(3) sim_get [OF assms(4)] sim_content [OF assms(4)] sim_delete [OF assms(4)]
    sim_delete_ids [OF assms(4)] sim_delete_user [OF assms(4)] assms(4)
  by (simp_all add: service_defs S(1,2) Let_def)

end

text \<open>The handlers, and what the router runs: the same code over the two services.\<close>

definition same_handler :: "'w MediaRepo \<Rightarrow> 'v MediaRepo \<Rightarrow> 'w Handler \<Rightarrow> 'v Handler \<Rightarrow> bool" where
  "same_handler repo repo' h h' \<longleftrightarrow>
     media (service h) = repo \<and> media (service h') = repo' \<and>
     maxUploadSizeBytes (service h) = maxUploadSizeBytes (service h') \<and>
     maxListIDs (service h) = maxListIDs (service h') \<and>
     h_maxUploadSizeBytes h = h_maxUploadSizeBytes h' \<and> publicBaseURL h = publicBaseURL h'"

definition same_router :: "'w MediaRepo \<Rightarrow> 'v MediaRepo \<Rightarrow> 'w router \<Rightarrow> 'v router \<Rightarrow> bool" where
  "same_router repo repo' R R' \<longleftrightarrow>
     same_handler repo repo' (rt_handler R) (rt_handler R') \<and> rt_lib R = rt_lib R' \<and> rt_chi R = rt_chi R' \<and>
     rt_not_found R = rt_not_found R' \<and> rt_RequireAuth R = rt_RequireAuth R' \<and>
     rt_internalAuth R = rt_internalAuth R' \<and> rt_internalToken R = rt_internalToken R'"

context repo_simulation
begin

lemma sim_handlers:
  assumes H: "same_handler repo repo' h h'" and "sim w v"
  shows "agree sim (Handler_Get lib h x w r) (Handler_Get lib h' x v r)"
    and "agree sim (Handler_Download lib h x w r) (Handler_Download lib h' x v r)"
    and "agree sim (Handler_List lib h x w r) (Handler_List lib h' x v r)"
    and "agree sim (Handler_Delete lib h x w r) (Handler_Delete lib h' x v r)"
    and "agree sim (Handler_DeleteByIDs lib h x w r) (Handler_DeleteByIDs lib h' x v r)"
    and "agree sim (Handler_DeleteMine lib h x w r) (Handler_DeleteMine lib h' x v r)"
    and "agree sim (DeleteUserData h x w u) (DeleteUserData h' x v u)"
proof -
  have S: "media (service h) = repo" "media (service h') = repo'" "maxListIDs (service h) = maxListIDs (service h')"
    and url: "publicBaseURL h = publicBaseURL h'" using H by (simp_all add: same_handler_def)
  note calls = sim_service [OF S assms(2)] sim_list_service [OF S assms(2)]
  show "agree sim (Handler_Get lib h x w r) (Handler_Get lib h' x v r)"
    "agree sim (Handler_Delete lib h x w r) (Handler_Delete lib h' x v r)"
    "agree sim (Handler_DeleteMine lib h x w r) (Handler_DeleteMine lib h' x v r)"
    "agree sim (DeleteUserData h x w u) (DeleteUserData h' x v u)"
    using assms(2)
    by (auto simp: handler_defs DeleteUserData_def url intro!: agree_case calls split: sum.split)
  show "agree sim (Handler_List lib h x w r) (Handler_List lib h' x v r)"
    "agree sim (Handler_DeleteByIDs lib h x w r) (Handler_DeleteByIDs lib h' x v r)"
    using assms(2)
    by (auto simp: handler_defs Let_def url intro!: agree_case calls split: sum.split)
  show "agree sim (Handler_Download lib h x w r) (Handler_Download lib h' x v r)"
    using assms(2)
    by (auto simp: Handler_Download_def intro!: agree_case_pair calls split: sum.split)
qed

lemma sim_handler_upload:
  assumes H: "same_handler repo repo' h h'" and "sim w v"
    and free: "\<And>i. upload_id lib (h_maxUploadSizeBytes h) fresh r = Some i \<Longrightarrow> free w i"
  shows "agree sim (Handler_Upload lib h fresh now x w r) (Handler_Upload lib h' fresh now x v r)"
proof -
  have S: "media (service h) = repo" "media (service h') = repo'"
    "maxUploadSizeBytes (service h) = maxUploadSizeBytes (service h')"
    and eq: "h_maxUploadSizeBytes h = h_maxUploadSizeBytes h'" "publicBaseURL h = publicBaseURL h'"
    using H by (simp_all add: same_handler_def)
  let ?parse = "ParseMultipartForm (int64 (h_maxUploadSizeBytes h + multipartOverheadBytes)) (h_maxUploadSizeBytes h) r"
  show ?thesis
  proof (cases ?parse)
    case (Inl e)
    then show ?thesis using assms(2) eq by (simp add: Handler_Upload_def split: sum.split)
  next
    case (Inr f)
    then have id: "upload_id lib (h_maxUploadSizeBytes h) fresh r =
        Some (if FormValue r f ''mediaId'' \<noteq> '''' then parse_or_nil (lib_uuid lib) (FormValue r f ''mediaId'') else fresh)"
      by (auto simp: ParseMultipartForm_def upload_id_def split: if_splits sum.splits)
    define cid where "cid = (if FormValue r f ''mediaId'' \<noteq> '''' then
        Some (parse_or_nil (lib_uuid lib) (FormValue r f ''mediaId'')) else None)"
    have "free w (case cid of Some c \<Rightarrow> c | None \<Rightarrow> fresh)" 
      using free [OF id] by (cases "FormValue r f ''mediaId'' = ''''") (simp_all add: cid_def)
    then have call: "agree sim (Service_Upload (service h) fresh now x w
          \<lparr>in_UserID = a, in_ClientMediaID = cid, in_OriginalFilename = n, in_Content = b\<rparr>)
        (Service_Upload (service h') fresh now x v
          \<lparr>in_UserID = a, in_ClientMediaID = cid, in_OriginalFilename = n, in_Content = b\<rparr>)" for a n b
      using assms(2) by (intro sim_upload [OF S]) simp_all
    show ?thesis
      using assms(2) Inr call
      by (cases "FormValue r f ''mediaId'' = ''''")
        (auto simp: Handler_Upload_def Let_def eq cid_def intro!: agree_case split: sum.split option.split)
  qed
qed

text \<open>One request, answered by two routers that differ only in what they store into.\<close>

lemma sim_ServeHTTP:
  assumes R: "same_router repo repo' R R'" and chi: "chi_documented (rt_chi R)" and "sim w v"
    and free: "\<And>i. rq_Method req = ''POST'' \<Longrightarrow>
      upload_id (rt_lib R) (h_maxUploadSizeBytes (rt_handler R)) fresh (rq_request req) = Some i \<Longrightarrow> free w i"
    and ping: "agree sim (rt_ping R w) (rt_ping R' v)"
  shows "agree sim (ServeHTTP R fresh now x w req) (ServeHTTP R' fresh now x v req)"
proof (cases "rt_chi R routes (rq_Method req) (split_path (rq_Path req))")
  case None
  then show ?thesis using R assms(3) by (simp add: ServeHTTP_def same_router_def)
next
  case (Some out)
  then obtain e bs where sel: "rt_chi R routes (rq_Method req) (split_path (rq_Path req)) = Some (e, bs)" by fastforce
  then obtain ps where ps: "(rq_Method req, ps, e) \<in> set routes" using chi unfolding chi_documented_def by blast
  from R have H: "same_handler repo repo' (rt_handler R) (rt_handler R')"
    and eq: "rt_lib R = rt_lib R'" "rt_chi R = rt_chi R'" "rt_RequireAuth R = rt_RequireAuth R'"
      "rt_internalAuth R = rt_internalAuth R'" "rt_internalToken R = rt_internalToken R'"
    by (simp_all add: same_router_def)
  let ?r = "\<lambda>u. (bind_params bs (rq_request req))\<lparr>UserIDFromContext := Some u\<rparr>"
  have upload: "agree sim (Handler_Upload (rt_lib R') (rt_handler R) fresh now x w (?r u))
      (Handler_Upload (rt_lib R') (rt_handler R') fresh now x v (?r u))" if "e = MediaUpload" for u
    using free upload_is_post that ps eq(1)
    by (intro sim_handler_upload [OF H assms(3)]) auto
  note run = sim_handlers [OF H assms(3)]
  have del: "agree sim (deleteUserHandler (rt_lib R') (rt_handler R) x w r) (deleteUserHandler (rt_lib R') (rt_handler R') x v r)" for r
    using assms(3) by (auto simp: deleteUserHandler_def intro!: agree_case run split: option.split)
  have probe: "agree sim (ReadyHandler (rt_ping R) w) (ReadyHandler (rt_ping R') v)"
    using ping by (auto simp: ReadyHandler_def intro!: agree_case)
  show ?thesis
    using assms(3) sel upload run del probe
    by (cases e) (simp_all add: ServeHTTP_def Let_def eq in_media_group_def split: sum.split option.split)
qed

end

end
