(* ===== verification/Client_Properties.thy ===== *)
theory Client_Properties
  imports Running_Server
begin

text \<open>
  What a client of the running server can rely on from one request to the next: what was
  answered 201 can be downloaded until its owner deletes it, and what was answered 204 is gone.
\<close>

section \<open>From upload to download\<close>

lemma download_kept:
  assumes "s3_answers (client S) x" and "db_faults (meta_st w) = []"
    and "world_kept (L, S) j m b w" and "DeletedAt m = None"
  shows "fst (Service_Download (wired_service n (L, S) k) x w (UserID m) j) = Inr (m, b)"
proof -
  from assms(3) have inv: "db_inv (meta_st w)" and row: "media_rows (meta_st w) j = Some m"
    and b: "store_content (L, S) (blob_st w) j = Some b" by (auto simp: kept_def world_defs)
  from Store_Get_answered [OF assms(1) b] obtain s' where "Store_Get L S x (blob_st w) j = (Inr b, s')"
    by (metis prod.collapse)
  with GetByID_exact [OF inv assms(2), of x "UserID m" j] row assms(4) show ?thesis
    by (simp add: Service_Download_def iface_simps Repository_GetContent_def)
qed

text \<open>The canonical text of a UUID is not empty and holds no slash.\<close>

definition uuid_path_documented :: "uuid_lib \<Rightarrow> bool" where
  "uuid_path_documented L \<longleftrightarrow> (\<forall>i. uuid_String L i \<noteq> [] \<and> CHR ''/'' \<notin> set (uuid_String L i))"

lemma split_slash_segment:
  "CHR ''/'' \<notin> set s \<Longrightarrow> split_slash acc (s @ CHR ''/'' # cs) = (rev acc @ s) # split_slash [] cs"
  by (induction s arbitrary: acc) auto

lemma download_path:
  assumes "uuid_path_documented L"
  shows "split_path (''/api/v1/media/'' @ uuid_String L i @ ''/download'') =
           [''api'', ''v1'', ''media'', uuid_String L i, ''download'']"
  using assms split_slash_segment [of "uuid_String L i" "[]" "''download''"]
  by (simp add: split_path_def uuid_path_documented_def)

lemma download_request:
  assumes "chi_documented chi" and "uuid_path_documented L" and "uuid_documented L" and "lib_uuid (rt_lib R) = L"
    and "rt_chi R = chi" and "rt_RequireAuth R req = Inr u" and "rq_Method req = ''GET''"
    and "rq_Path req = ''/api/v1/media/'' @ uuid_String L i @ ''/download''"
  obtains r where "UserIDFromContext r = Some u" "uuid_Parse L (URLParam r ''mediaId'') = Some i"
    "\<And>fresh now x w. ServeHTTP R fresh now x w req = Handler_Download (rt_lib R) (rt_handler R) x w r"
proof -
  note path = download_path [OF assms(2), of i]
  have ne: "uuid_String L i \<noteq> []" using assms(2) by (simp add: uuid_path_documented_def)
  then have "requested download_media_id req" "download_media_id \<in> set openapi_paths"
    using assms(7,8) path by (simp_all add: requested_def methods templates media_prefix_def openapi_paths_def)
  then obtain e bs ps where sel: "chi routes (rq_Method req) (split_path (rq_Path req)) = Some (e, bs)"
    and "(download_media_id, e) \<in> serves" and ps: "(rq_Method req, ps, e) \<in> set routes"
    "fits ps (split_path (rq_Path req)) = Some bs"
    using chi_serves [OF assms(1)] by metis
  then have e: "e = MediaDownload" by (auto simp: serves_def operation_defs)
  with ps path assms(8) have bs: "bs = [(''mediaId'', uuid_String L i)]"
    by (auto simp: routes_def media_prefix_def split: if_splits)
  let ?r = "(bind_params bs (rq_request req))\<lparr>UserIDFromContext := Some u\<rparr>"
  have "ServeHTTP R fresh now x w req = Handler_Download (rt_lib R) (rt_handler R) x w ?r" for fresh now x w
    using ServeHTTP_media [of R req e bs u fresh now x w] sel e assms(5,6) by (simp add: in_media_group_def)
  then show thesis
    using bs assms(3) by (intro that [of ?r]) (simp_all add: uuid_documented_def bind_params_def)
qed

lemma upload_request:
  assumes "chi_documented (rt_chi R)" and "requested post_media req" and "rt_RequireAuth R req = Inr u"
  obtains r where "UserIDFromContext r = Some u" "body_form r = body_form (rq_request req)"
    "\<And>fresh now x w. ServeHTTP R fresh now x w req = Handler_Upload (rt_lib R) (rt_handler R) fresh now x w r"
proof -
  have "post_media \<in> set openapi_paths" by (simp add: openapi_paths_def)
  then obtain e bs where sel: "rt_chi R routes (rq_Method req) (split_path (rq_Path req)) = Some (e, bs)"
    and "(post_media, e) \<in> serves"
    using chi_serves [OF assms(1) _ assms(2)] by metis
  then have e: "e = MediaUpload" by (auto simp: serves_def operation_defs)
  let ?r = "(bind_params bs (rq_request req))\<lparr>UserIDFromContext := Some u\<rparr>"
  have "ServeHTTP R fresh now x w req = Handler_Upload (rt_lib R) (rt_handler R) fresh now x w ?r" for fresh now x w
    using ServeHTTP_media [of R req e bs u fresh now x w] sel e assms(3) by (simp add: in_media_group_def)
  then show thesis by (intro that [of ?r]) (simp_all add: bind_params_def)
qed

text \<open>
  Claim C3. What a client is told is stored stays stored: when \<open>POST /api/v1/media\<close> has
  answered 201 and no deletion of that id was pending, then after any sequence of other users'
  requests (with whatever ids, successful or failing), rounds of the worker and database
  faults, a \<open>GET .../download\<close> of the id in the answer by the same user returns exactly the
  posted bytes, under the name and type of the answer, as soon as the database and S3 answer.
  Only the owner's own requests and an internal deletion of the owner are excluded.
\<close>

theorem stays_stored:
  assumes "store_ok (lib_uuid lib, St)" and "chi_documented chi" and "uuid_path_documented (lib_uuid lib)"
    and A: "A = wire n lib chi nf auth iauth cfg St" and "world_inv w"
    and "requested post_media req" and "auth req = Inr u"
    and "ServeHTTP (app_router A) fresh now x w req = (WriteJSON 201 (MediaJSON resp), w1)"
    and "resp_ID resp \<notin> live_ids (meta_st w)"
    and "list_all (spares A u) evs" and w2: "w2 = server_steps A evs w1"
    and "auth req2 = Inr u" and "rq_Method req2 = ''GET''"
    and "rq_Path req2 = ''/api/v1/media/'' @ uuid_String (lib_uuid lib) (resp_ID resp) @ ''/download''"
    and "db_faults (meta_st w2) = []" and "s3_answers (client St) y"
  shows "\<exists>f filename content.
           body_form (rq_request req) (MaxUploadSizeBytes cfg) = Inr f \<and> form_file f = Some (filename, Inr content) \<and>
           resp_OriginalFilename resp = filename \<and> resp_SizeBytes resp = int (length content) \<and>
           fst (ServeHTTP (app_router A) fresh2 now2 y w2 req2) =
             WriteContent 200
               [(''Content-Type'', resp_ContentType resp),
                (''Content-Disposition'', ''attachment; filename='' @ Quote (quoteRune lib) filename),
                (''Content-Length'', Itoa (length content))]
               content"
proof -
  let ?c = "(lib_uuid lib, St)" and ?k = "MaxUploadSizeBytes cfg"
  have R: "chi_documented (rt_chi (app_router A))" "rt_RequireAuth (app_router A) = auth"
    "rt_lib (app_router A) = lib" "rt_handler (app_router A) = wired_handler n ?c ?k (PublicBaseURL cfg)"
    using assms(2) A by simp_all
  obtain r where r: "UserIDFromContext r = Some u" "body_form r = body_form (rq_request req)"
    and post: "\<And>fresh now x w. ServeHTTP (app_router A) fresh now x w req =
      Handler_Upload lib (wired_handler n ?c ?k (PublicBaseURL cfg)) fresh now x w r"
    by (rule upload_request [OF R(1) assms(6), of u]) (use R assms(7) in auto)
  obtain u' f filename content cid result where u': "UserIDFromContext r = Some u'"
    and form: "body_form r ?k = Inr f" "form_file f = Some (filename, Inr content)"
    and up: "Service_Upload (wired_service n ?c ?k) fresh now x w
      \<lparr> in_UserID = u', in_ClientMediaID = cid, in_OriginalFilename = filename, in_Content = content \<rparr> = (Inr result, w1)"
    and st: "201 = (if res_AlreadyExisted result then 200 else 201 :: nat)"
    and resp: "resp = newResponse lib (res_Media result) (PublicBaseURL cfg)"
    using assms(8) [unfolded post] by (rule Handler_Upload_json) simp
  from st have new: "\<not> res_AlreadyExisted result" by (auto split: if_splits)
  from u' r(1) have u: "u' = u" by simp
  have i: "resp_ID resp = ID (res_Media result)" by (simp add: resp newResponse_def)
  note created = wired_media.upload_created [OF assms(1) wired_service_sel(1) assms(5) up new]
  obtain m where "world_kept ?c (resp_ID resp) m content w1" and same: "same_file (res_Media result) m"
    using wired_tasks.upload_kept [OF assms(1) wired_service_sel(1) assms(5) up new] assms(9) i
    by (auto simp: world_live_def)
  moreover from same created u have m: "UserID m = u" "DeletedAt m = None" by (auto simp: same_file_def)
  ultimately have "world_kept ?c (resp_ID resp) m content w2"
    unfolding w2 using assms(10) by (intro steps_keep(1) [OF assms(1,2) A]) simp_all
  from download_kept [OF assms(16,15) this m(2)] m(1) obtain w3 where
    dl: "Service_Download (wired_service n ?c ?k) y w2 u (resp_ID resp) = (Inr (m, content), w3)" by (metis prod.collapse)
  obtain r2 where "UserIDFromContext r2 = Some u" "uuid_Parse (lib_uuid lib) (URLParam r2 ''mediaId'') = Some (resp_ID resp)"
    "\<And>fresh now x w. ServeHTTP (app_router A) fresh now x w req2 =
       Handler_Download lib (wired_handler n ?c ?k (PublicBaseURL cfg)) x w r2"
    by (rule download_request [OF assms(2,3), of "app_router A" req2 u "resp_ID resp"])
      (use R assms(1,12,13,14) A in \<open>auto simp: store_ok_def\<close>)
  with dl same created form r(2) show ?thesis
    by (auto simp: Handler_Download_def requireUserID_def pathMediaID_def resp newResponse_def same_file_def)
qed

lemma mem_uuid_path: "uuid_path_documented mem_uuid"
  by (auto simp: uuid_path_documented_def mem_uuid_def)

abbreviation demo_cfg :: ServiceConfig where
  "demo_cfg \<equiv> load_values (\<lambda>f u s. f * u div s) (\<lambda>_. None)"

lemma demo_cfg_limit: "MaxUploadSizeBytes demo_cfg = 15728640"
  by (simp add: load_values_def Let_def getEnv_def getInt64_def ParseInt_def)

lemma demo_app_post:
  "fst (ServeHTTP (app_router (demo_app (\<lambda>_. False))) 9 0 RequestCtx (demo_world (demo_db [] [] []) empty_bucket)
     (demo_http ''POST'' ''/api/v1/media'' ''7'' (demo_request 7 [] []))) =
   WriteJSON 201 (MediaJSON (newResponse demo_lib (demo_media 9 7) (PublicBaseURL demo_cfg)))"
proof -
  have "demo_chi routes ''POST'' [''api'', ''v1'', ''media''] = Some (MediaUpload, [])"
    by (simp add: demo_chi_def routes_def media_prefix_def)
  then show ?thesis
    by (simp add: ServeHTTP_def demo_app_def demo_http_def demo_auth_def split_path_def in_media_group_def Let_def
        Handler_Upload_def requireUserID_def ParseMultipartForm_def FormValue_def UploadRequest_Validate_def demo_cfg_limit
        multipartOverheadBytes_def int64_def Service_Upload_def demo_run demo_media_def bind_params_def demo_request_def)
qed

theorem stays_stored_witness:
  "fst (ServeHTTP (app_router (demo_app (\<lambda>_. False))) 0 0 RequestCtx
       (server_steps (demo_app (\<lambda>_. False))
         [Arrives 9 1 RequestCtx (demo_http ''POST'' ''/api/v1/media'' ''8'' (demo_request 8 [] [])), Round RequestCtx,
          Arrives 0 2 RequestCtx (demo_http ''DELETE'' ''/api/v1/media/mine'' ''8'' (demo_request 8 [] [])), Passes 3 [] []]
         (snd (ServeHTTP (app_router (demo_app (\<lambda>_. False))) 9 0 RequestCtx (demo_world (demo_db [] [] []) empty_bucket)
           (demo_http ''POST'' ''/api/v1/media'' ''7'' (demo_request 7 [] [])))))
       (demo_http ''GET'' (''/api/v1/media/'' @ uuid_String mem_uuid 9 @ ''/download'') ''7'' (demo_request 7 [] []))) =
     WriteContent 200
       [(''Content-Type'', ''text/plain''),
        (''Content-Disposition'', ''attachment; filename='' @ Quote (quoteRune demo_lib) ''a.txt''),
        (''Content-Length'', Itoa 2)] demo_content"
proof -
  let ?A = "demo_app (\<lambda>_. False)" and ?post = "demo_http ''POST'' ''/api/v1/media'' ''7'' (demo_request 7 [] [])"
  let ?resp = "newResponse demo_lib (demo_media 9 7) (PublicBaseURL demo_cfg)"
  have run: "ServeHTTP (app_router ?A) 9 0 RequestCtx (demo_world (demo_db [] [] []) empty_bucket) ?post =
      (WriteJSON 201 (MediaJSON ?resp), snd (ServeHTTP (app_router ?A) 9 0 RequestCtx (demo_world (demo_db [] [] []) empty_bucket) ?post))"
    using demo_app_post by (metis prod.collapse)
  have req: "requested post_media ?post"
    by (simp add: requested_def demo_http_def methods templates media_prefix_def split_path_def)
  have inv: "world_inv (demo_world (demo_db [] [] []) empty_bucket)" by (simp add: world_inv_def)
  have auth: "demo_auth (demo_http m p ''7'' r) = Inr 7" "demo_auth (demo_http m p ''8'' r) = Inr 8" for m p r
    by (simp_all add: demo_auth_def demo_http_def)
  have id: "resp_ID ?resp = 9" by (simp add: newResponse_def)
  let ?evs = "[Arrives 9 1 RequestCtx (demo_http ''POST'' ''/api/v1/media'' ''8'' (demo_request 8 [] [])), Round RequestCtx,
      Arrives 0 2 RequestCtx (demo_http ''DELETE'' ''/api/v1/media/mine'' ''8'' (demo_request 8 [] [])), Passes 3 [] []]"
  have spared: "list_all (spares ?A 7) ?evs"
    using auth by (simp add: demo_app_def deletes_user_def) (simp add: demo_http_def split_path_def)
  show ?thesis
    using stays_stored [OF _ demo_chi_documented _ demo_app_def inv req auth(1) run _ spared refl auth(1),
        of "''GET''" "''/api/v1/media/'' @ uuid_String mem_uuid 9 @ ''/download''" "demo_request 7 [] []" RequestCtx 0 0]
    by (auto simp: id mem_uuid_path mem_s3_answers demo_http_def newResponse_def live_ids_def)
qed

section \<open>Deletion\<close>

text \<open>
  The requests that ask for the deletion of \<open>u\<close>'s file \<open>i\<close>: of the file itself, of a list
  of ids with it, of all the caller's files, or of the user's data by an internal service.
\<close>

definition asks_deletion :: "'w router \<Rightarrow> uuid \<Rightarrow> uuid \<Rightarrow> http_request \<Rightarrow> bool" where
  "asks_deletion R u i req \<longleftrightarrow>
     rq_Method req = ''DELETE'' \<and>
     (rt_RequireAuth R req = Inr u \<and>
        (split_path (rq_Path req) = [''api'', ''v1'', ''media'', ''mine''] \<or>
         (\<exists>c. split_path (rq_Path req) = [''api'', ''v1'', ''media'', c] \<and> c \<noteq> '''' \<and>
              uuid_Parse (lib_uuid (rt_lib R)) c = Some i) \<or>
         split_path (rq_Path req) = [''api'', ''v1'', ''media''] \<and>
           Some i \<in> uuid_Parse (lib_uuid (rt_lib R)) ` set (URL_Query (rq_request req) ''ids'')) \<or>
      deletes_user R u req)"

lemma chi_selects:
  assumes chi: "chi_documented chi" and "\<exists>t \<in> set routes. fst t = meth \<and> fits (fst (snd t)) path \<noteq> None"
    and "\<forall>t \<in> set routes. \<forall>bs. fst t = meth \<longrightarrow> fits (fst (snd t)) path = Some bs \<longrightarrow> (snd (snd t), bs) = eb"
  shows "chi routes meth path = Some eb"
proof -
  from assms(2) chi have "chi routes meth path \<noteq> None" unfolding chi_documented_def by (metis prod.collapse)
  then obtain e bs where sel: "chi routes meth path = Some (e, bs)" by auto
  with chi obtain ps where "(meth, ps, e) \<in> set routes" "fits ps path = Some bs" unfolding chi_documented_def by blast
  with assms(3) sel show ?thesis by fastforce
qed

lemma delete_routes:
  assumes chi: "chi_documented chi"
  shows "c \<notin> {'''', ''mine''} \<Longrightarrow>
           chi routes ''DELETE'' [''api'', ''v1'', ''media'', c] = Some (MediaDelete, [(''mediaId'', c)])"
    and "chi routes ''DELETE'' [''api'', ''v1'', ''media''] = Some (MediaDeleteByIDs, [])"
    and "c \<noteq> '''' \<Longrightarrow> chi routes ''DELETE'' [''internal'', ''api'', ''v1'', ''users'', c] =
           Some (InternalDeleteUser, [(''userID'', c)])"
  by (rule chi_selects [OF chi]; auto simp: routes_def media_prefix_def)+

text \<open>What such a request runs, when it is answered with 204.\<close>

lemma deletion_runs:
  assumes chi: "chi_documented (rt_chi R)" and "asks_deletion R u i req"
    and run: "ServeHTTP R fresh now x w req = (WriteHeader 204, w1)"
  shows "(\<exists>a. Service_Delete (service (rt_handler R)) x w u i = (Inr a, w1)) \<or>
         (\<exists>ids k. Service_DeleteByIDs (service (rt_handler R)) x w u ids = (Inr k, w1) \<and> i \<in> set ids) \<or>
         (\<exists>k. Service_DeleteAllMine (service (rt_handler R)) x w u = (Inr k, w1))"
proof -
  let ?p = "split_path (rq_Path req)" and ?L = "lib_uuid (rt_lib R)"
  let ?r = "\<lambda>bs. (bind_params bs (rq_request req))\<lparr>UserIDFromContext := Some u\<rparr>"
  from assms(2) have m: "rq_Method req = ''DELETE''" by (simp add: asks_deletion_def)
  consider (mine) "rt_RequireAuth R req = Inr u" "?p = [''api'', ''v1'', ''media'', ''mine'']"
    | (one) c where "rt_RequireAuth R req = Inr u" "?p = [''api'', ''v1'', ''media'', c]" "c \<notin> {'''', ''mine''}"
        "uuid_Parse ?L c = Some i"
    | (many) raw where "rt_RequireAuth R req = Inr u" "?p = [''api'', ''v1'', ''media'']"
        "raw \<in> set (URL_Query (rq_request req) ''ids'')" "uuid_Parse ?L raw = Some i"
    | (internal) c where "rt_internalAuth R (rt_internalToken R) req = None"
        "?p = [''internal'', ''api'', ''v1'', ''users'', c]" "c \<noteq> ''''" "uuid_Parse ?L c = Some u"
    using assms(2) unfolding asks_deletion_def deletes_user_def by fastforce
  then show ?thesis
  proof cases
    case mine
    obtain bs where "rt_chi R routes (rq_Method req) ?p = Some (MediaDeleteMine, bs)"
      using mine_route [OF chi] m mine(2) by metis
    from ServeHTTP_media [OF this _ mine(1), of fresh now x w] run
    have "Handler_DeleteMine (rt_lib R) (rt_handler R) x w (?r bs) = (WriteHeader 204, w1)" by (simp add: in_media_group_def)
    then show ?thesis
      by (auto simp: Handler_DeleteMine_def requireUserID_def writeServiceError_def split: prod.splits sum.splits if_splits)
  next
    case (one c)
    with delete_routes(1) [OF chi, of c] m have "rt_chi R routes (rq_Method req) ?p = Some (MediaDelete, [(''mediaId'', c)])"
      by simp
    from ServeHTTP_media [OF this _ one(1), of fresh now x w] run
    have "Handler_Delete (rt_lib R) (rt_handler R) x w (?r [(''mediaId'', c)]) = (WriteHeader 204, w1)" by (simp add: in_media_group_def)
    with one(4) show ?thesis
      by (auto simp: Handler_Delete_def requireUserID_def pathMediaID_def writeServiceError_def bind_params_def
          split: prod.splits sum.splits if_splits)
  next
    case (many raw)
    with delete_routes(2) [OF chi] m have "rt_chi R routes (rq_Method req) ?p = Some (MediaDeleteByIDs, [])" by simp
    from ServeHTTP_media [OF this _ many(1), of fresh now x w] run
    have "Handler_DeleteByIDs (rt_lib R) (rt_handler R) x w (?r []) = (WriteHeader 204, w1)" by (simp add: in_media_group_def)
    then obtain k where "Service_DeleteByIDs (service (rt_handler R)) x w u
        (map (parse_or_nil ?L) (URL_Query (rq_request req) ''ids'')) = (Inr k, w1)"
      by (auto simp: Handler_DeleteByIDs_def requireUserID_def writeServiceError_def bind_params_def Let_def
          split: prod.splits sum.splits if_splits)
    moreover have "i \<in> set (map (parse_or_nil ?L) (URL_Query (rq_request req) ''ids''))"
      using many(3,4) by (force simp: parse_or_nil_def)
    ultimately show ?thesis by blast
  next
    case (internal c)
    with delete_routes(3) [OF chi, of c] m have "rt_chi R routes (rq_Method req) ?p = Some (InternalDeleteUser, [(''userID'', c)])"
      by simp
    with run internal show ?thesis
      by (auto simp: ServeHTTP_def Let_def in_media_group_def deleteUserHandler_def DeleteUserData_def bind_params_def
          split: prod.splits sum.splits)
  qed
qed

lemma deletion_erases:
  assumes "store_ok (lib_uuid lib, St)" and "chi_documented chi"
    and A: "A = wire n lib chi nf auth iauth cfg St" and "world_inv w"
    and "i \<in> owned_ids (world_rows w) u" and "asks_deletion (app_router A) u i req"
    and "ServeHTTP (app_router A) fresh now x w req = (WriteHeader 204, w1)"
  shows "world_erased (lib_uuid lib, St) i w1"
proof -
  have repo: "media (service (rt_handler (app_router A))) = wired_iface (lib_uuid lib, St)"
    and chi: "chi_documented (rt_chi (app_router A))" using A assms(2) by simp_all
  note erases = wired_tasks.successful_delete_erases [OF assms(1) repo assms(4,5)]
  from deletion_runs [OF chi assms(6,7)] show ?thesis
    by (elim disjE exE conjE) (use erases in blast)+
qed

text \<open>
  Claim C4. What a client is told is deleted is gone for good: when a \<open>DELETE\<close> that covers a
  file of the caller (by its id, in a list, with all the caller's files, or as the internal
  deletion of the user) has answered 204, then after any sequence of requests, rounds of the
  worker and faults in which nobody uploads that id anew, there is no row for it, and its
  content is gone too or still has an open deletion task: it is never forgotten in the store.
\<close>

theorem deletions_hold:
  assumes "store_ok (lib_uuid lib, St)" and "chi_documented chi"
    and A: "A = wire n lib chi nf auth iauth cfg St" and "world_inv w"
    and "i \<in> owned_ids (world_rows w) u" and "asks_deletion (app_router A) u i req"
    and "ServeHTTP (app_router A) fresh now x w req = (WriteHeader 204, w1)"
    and "list_all (no_upload_of A i) evs" and w2: "w2 = server_steps A evs w1"
  shows "world_rows w2 i = None \<and> (world_content (lib_uuid lib, St) w2 i = None \<or> i \<in> live_ids (meta_st w2))"
  using steps_keep(2) [OF assms(1,2) A deletion_erases [OF assms(1-7)] assms(8)]
  unfolding w2 by (simp add: erased_def world_live_def)

lemma demo_app_delete:
  "fst (ServeHTTP (app_router (demo_app (\<lambda>_. True))) 0 0 RequestCtx
     (demo_world (demo_db [demo_media 1 7] [] []) (demo_bucket [1] [NotReached]))
     (demo_http ''DELETE'' ''/api/v1/media/mine'' ''7'' (demo_request 7 [] []))) = WriteHeader 204"
proof -
  have "demo_chi routes ''DELETE'' [''api'', ''v1'', ''media'', ''mine''] = Some (MediaDeleteMine, [])"
    by (simp add: demo_chi_def routes_def media_prefix_def)
  then show ?thesis
    by (simp add: ServeHTTP_def demo_app_def demo_http_def demo_auth_def split_path_def in_media_group_def Let_def
        Handler_DeleteMine_def requireUserID_def Service_DeleteAllMine_def demo_run bind_params_def demo_request_def)
qed

theorem deletions_hold_witness:
  "case server_steps (demo_app (\<lambda>_. True))
      [Arrives 5 0 RequestCtx (demo_http ''POST'' ''/api/v1/media'' ''8'' (demo_request 8 [] [])), Round RequestCtx]
      (snd (ServeHTTP (app_router (demo_app (\<lambda>_. True))) 0 0 RequestCtx
         (demo_world (demo_db [demo_media 1 7] [] []) (demo_bucket [1] [NotReached]))
         (demo_http ''DELETE'' ''/api/v1/media/mine'' ''7'' (demo_request 7 [] [])))) of w2 \<Rightarrow>
   world_rows w2 1 = None \<and> (world_content (demo_config (\<lambda>_. True)) w2 1 = None \<or> 1 \<in> live_ids (meta_st w2))"
proof -
  let ?A = "demo_app (\<lambda>_. True)" and ?req = "demo_http ''DELETE'' ''/api/v1/media/mine'' ''7'' (demo_request 7 [] [])"
  let ?w = "demo_world (demo_db [demo_media 1 7] [] []) (demo_bucket [1] [NotReached])"
  have run: "ServeHTTP (app_router ?A) 0 0 RequestCtx ?w ?req =
      (WriteHeader 204, snd (ServeHTTP (app_router ?A) 0 0 RequestCtx ?w ?req))"
    using demo_app_delete by (metis prod.collapse)
  have asks: "asks_deletion (app_router ?A) 7 1 ?req"
    by (simp add: asks_deletion_def demo_app_def demo_http_def demo_auth_def split_path_def)
  have inv: "world_inv ?w" "1 \<in> owned_ids (world_rows ?w) 7"
    by (simp_all add: world_defs media_rows_def owned_ids_def)
  have avoided: "list_all (no_upload_of ?A 1)
      [Arrives 5 0 RequestCtx (demo_http ''POST'' ''/api/v1/media'' ''8'' (demo_request 8 [] [])), Round RequestCtx]"
    by (simp add: demo_app_def demo_http_def upload_id_def FormValue_def)
  show ?thesis
    using deletions_hold [OF _ demo_chi_documented demo_app_def inv asks run avoided refl] by simp
qed

text \<open>
  Claim C5. A deletion is carried out: after such a \<open>DELETE\<close> has answered 204, even if the
  immediate removal of the content failed, the worker of the same server removes it: when
  nothing fails any more and every open task comes due within \<open>k\<close> of its intervals, then after
  \<open>k\<close> rounds plus one per open task neither row nor content is left.
\<close>

theorem deletion_completes:
  assumes "store_ok (lib_uuid lib, St)" and "chi_documented chi"
    and A: "A = wire n lib chi nf auth iauth cfg St" and "world_inv w"
    and "i \<in> owned_ids (world_rows w) u" and "asks_deletion (app_router A) u i req"
    and "ServeHTTP (app_router A) fresh now x w req = (WriteHeader 204, w1)"
    and "s3_answers (client St) y"
    and "iv = (if app_interval A \<le> 0 then 5 * second else app_interval A)"
    and "drainable iv k (meta_st w1)" and "turns = k + card (live_ids (meta_st w1))"
  shows "\<exists>d' s'. Worker_Run (app_worker A) y (app_interval A) (replicate turns (After tick) @ [CtxDone])
             (meta_st w1, blob_st w1) = Some (d', s') \<and>
           media_rows d' i = None \<and> store_content (lib_uuid lib, St) s' i = None"
proof -
  have worker: "app_worker A = wired_worker (lib_uuid lib, St)" by (simp add: A wire_wired)
  from deletion_erases [OF assms(1-7)] drained_run [OF assms(1,8,9,10,11), of "blob_st w1"]
  show ?thesis unfolding worker by (auto simp: erased_def world_defs world_live_def)
qed

lemma demo_app_deleted:
  "case ServeHTTP (app_router (demo_app cancellable)) 0 0 RequestCtx
     (demo_world (demo_db [demo_media 1 7] [] []) (demo_bucket [1] [NotReached]))
     (demo_http ''DELETE'' ''/api/v1/media/mine'' ''7'' (demo_request 7 [] [])) of (resp, w1) \<Rightarrow>
   resp = WriteHeader 204 \<and> meta_st w1 = demo_db [] [new_task (demo_db [] [] []) 7 1] []"
proof -
  have "demo_chi routes ''DELETE'' [''api'', ''v1'', ''media'', ''mine''] = Some (MediaDeleteMine, [])"
    by (simp add: demo_chi_def routes_def media_prefix_def)
  then show ?thesis
    by (simp add: ServeHTTP_def demo_app_def demo_http_def demo_auth_def split_path_def in_media_group_def Let_def
        Handler_DeleteMine_def requireUserID_def Service_DeleteAllMine_def demo_run bind_params_def demo_request_def
        demo_db_def new_task_def)
qed

theorem deletion_completes_witness:
  "\<exists>d' s'. Worker_Run (app_worker (demo_app cancellable)) (WithoutCancel RequestCtx) (app_interval (demo_app cancellable))
       (replicate 1 (After tick) @ [CtxDone])
       (case snd (ServeHTTP (app_router (demo_app cancellable)) 0 0 RequestCtx
          (demo_world (demo_db [demo_media 1 7] [] []) (demo_bucket [1] [NotReached]))
          (demo_http ''DELETE'' ''/api/v1/media/mine'' ''7'' (demo_request 7 [] []))) of w1 \<Rightarrow> (meta_st w1, blob_st w1)) =
     Some (d', s') \<and> store_content (demo_config cancellable) s' 1 = None"
proof -
  let ?A = "demo_app cancellable" and ?req = "demo_http ''DELETE'' ''/api/v1/media/mine'' ''7'' (demo_request 7 [] [])"
  let ?w = "demo_world (demo_db [demo_media 1 7] [] []) (demo_bucket [1] [NotReached])"
  obtain resp w1 where r: "ServeHTTP (app_router ?A) 0 0 RequestCtx ?w ?req = (resp, w1)" by fastforce
  with demo_app_deleted have run: "ServeHTTP (app_router ?A) 0 0 RequestCtx ?w ?req = (WriteHeader 204, w1)"
    and db: "meta_st w1 = demo_db [] [new_task (demo_db [] [] []) 7 1] []" by simp_all
  have asks: "asks_deletion (app_router ?A) 7 1 ?req"
    by (simp add: asks_deletion_def demo_app_def demo_http_def demo_auth_def split_path_def)
  have inv: "world_inv ?w" "1 \<in> owned_ids (world_rows ?w) 7"
    by (simp_all add: world_defs media_rows_def owned_ids_def)
  have quiet: "drainable iv 0 (meta_st w1)" "1 = 0 + card (live_ids (meta_st w1))" for iv
    by (simp_all add: db drainable_def due_def demo_db_def new_task_def db_inv_def keyed_def live_ids_def Collect_conv_if)
  have "s3_answers (client (mem_store cancellable)) (WithoutCancel RequestCtx)" by (simp add: mem_s3_answers)
  from deletion_completes [OF _ demo_chi_documented demo_app_def inv asks run this refl quiet] r
  show ?thesis by auto
qed

end
