(* ===== verification/Map_Refinement.thy ===== *)
theory Map_Refinement
  imports Map_Store Client_Properties
begin

text \<open>
  The wired service refines the file map of \<open>Map_Store\<close>: while the database and S3 answer, every
  response of the server, request after request, is the one the map gives, with the tables, the
  objects, the deletion tasks and the rounds of the worker out of sight.
\<close>

section \<open>A store that can be relied on\<close>

text \<open>
  An S3 that answers: a conditional put succeeds on a free key and is refused with 412 on a
  taken one, what is stored can be read, and a delete that is not cancelled succeeds. A delete
  under the context of a request may fail and may have removed the object or not.
\<close>

definition s3_dependable :: "'s s3_client \<Rightarrow> bool" where
  "s3_dependable C \<longleftrightarrow>
     (\<forall>x s p. poi_IfNoneMatch p = Some ''*'' \<longrightarrow>
        (case Objects C s (poi_Bucket p) (poi_Key p) of
           None \<Rightarrow> \<not> isl (fst (PutObject C x s p))
         | Some _ \<Rightarrow> (\<exists>e. fst (PutObject C x s p) = Inl e \<and> precondition_failed e))) \<and>
     (\<forall>x s b k body. Objects C s b k = Some body \<longrightarrow> fst (GetObject C x s b k) = Inr (Inr body)) \<and>
     (\<forall>x s b k. \<not> isl (fst (DeleteObject C (WithoutCancel x) s b k)))"

lemma mem_s3_dependable: "s3_dependable (mem_s3 (\<lambda>_. False))"
  by (simp add: s3_dependable_def mem_call_def mem_put_def mem_get_def mem_delete_def status_412_def
      precondition_failed_def split: option.splits)

text \<open>The three operations of the store over it.\<close>

lemma dependable_put:
  assumes "s3_dependable (client S)"
  shows "store_content (L, S) s i = None \<Longrightarrow> \<exists>s'. Store_Put L S x s i b ct = (Inr (), s')"
    and "store_content (L, S) s i = Some b' \<Longrightarrow> \<exists>s'. Store_Put L S x s i b ct = (Inl ErrBlobAlreadyExists, s')"
proof -
  let ?p = "\<lparr>poi_Bucket = bucket S, poi_Key = ObjectKey L i, poi_Body = b, poi_ContentType = ct, poi_IfNoneMatch = Some ''*''\<rparr>"
  obtain r s' where r: "PutObject (client S) x s ?p = (r, s')" by fastforce
  from assms have d: "case store_content (L, S) s i of
      None \<Rightarrow> \<not> isl (fst (PutObject (client S) x s ?p))
    | Some _ \<Rightarrow> (\<exists>e. fst (PutObject (client S) x s ?p) = Inl e \<and> precondition_failed e)"
    unfolding s3_dependable_def store_content_def fst_conv snd_conv
    by (elim conjE) (drule spec [of _ x], drule spec [of _ s], drule spec [of _ ?p], simp)
  show "\<exists>s'. Store_Put L S x s i b ct = (Inr (), s')" if "store_content (L, S) s i = None"
    using d r that by (cases r) (simp_all add: Store_Put_def Let_def)
  show "\<exists>s'. Store_Put L S x s i b ct = (Inl ErrBlobAlreadyExists, s')" if "store_content (L, S) s i = Some b'"
    using d r that by (cases r) (auto simp: Store_Put_def Let_def)
qed

lemma dependable_get:
  assumes "s3_dependable (client S)" and "store_content (L, S) s i = Some b"
  shows "\<exists>s'. Store_Get L S x s i = (Inr b, s')"
proof -
  obtain r s' where r: "GetObject (client S) x s (bucket S) (ObjectKey L i) = (r, s')" by fastforce
  with assms have "r = Inr (Inr b)" unfolding s3_dependable_def store_content_def by (metis fst_conv snd_conv)
  with r show ?thesis by (simp add: Store_Get_def Let_def)
qed

lemma dependable_delete:
  assumes "s3_dependable (client S)"
  shows "\<exists>s'. Store_Delete L S (WithoutCancel x) s i = (Inr (), s')"
proof -
  obtain r s' where r: "DeleteObject (client S) (WithoutCancel x) s (bucket S) (ObjectKey L i) = (r, s')" by fastforce
  with assms have "\<not> isl r" unfolding s3_dependable_def by (metis fst_conv)
  with r show ?thesis by (cases r) (simp_all add: Store_Delete_def Let_def)
qed

section \<open>The file map a state stands for\<close>

definition abs_files :: "uuid_lib \<times> 's Store \<Rightarrow> (db, 's) world \<Rightarrow> files" where
  "abs_files c w =
     (\<lambda>i. case world_rows w i of
        None \<Rightarrow> None
      | Some m \<Rightarrow> map_option (Pair m) (world_content c w i))"

text \<open>
  Nothing is wrong with the state: the tables are well formed, no statement is about to be lost,
  every row has its content and no open deletion task, and content without a row is on its way
  out. The database keeps timestamps as \<open>codec\<close> says and accepts the texts \<open>valid\<close> says.
\<close>

definition settings :: "db \<Rightarrow> db_fault list \<times> (timestamp \<Rightarrow> timestamp) \<times> (string \<Rightarrow> bool)" where
  "settings d = (db_faults d, ts_codec d, text_ok d)"

definition tidy :: "(uuid \<rightharpoonup> Media) \<Rightarrow> (uuid \<rightharpoonup> bytes) \<Rightarrow> uuid set \<Rightarrow> bool" where
  "tidy rows content live \<longleftrightarrow>
     (\<forall>i. case rows i of
        None \<Rightarrow> content i = None \<or> i \<in> live
      | Some m \<Rightarrow> DeletedAt m = None \<and> content i \<noteq> None \<and> i \<notin> live)"

definition quiet ::
    "uuid_lib \<times> 's Store \<Rightarrow> (timestamp \<Rightarrow> timestamp) \<Rightarrow> (string \<Rightarrow> bool) \<Rightarrow> (db, 's) world \<Rightarrow> bool" where
  "quiet c codec valid w \<longleftrightarrow>
     world_inv w \<and> settings (meta_st w) = ([], codec, valid) \<and> tidy (world_rows w) (world_content c w) (world_live w)"

text \<open>The simulation: the store can be relied on, the state is quiet, and the map is what it stands for.\<close>

definition map_sim ::
    "uuid_lib \<times> 's Store \<Rightarrow> (timestamp \<Rightarrow> timestamp) \<Rightarrow> (string \<Rightarrow> bool) \<Rightarrow> (db, 's) world \<Rightarrow> files \<Rightarrow> bool" where
  "map_sim c codec valid w F \<longleftrightarrow>
     store_ok c \<and> s3_dependable (client (snd c)) \<and> quiet c codec valid w \<and> F = abs_files c w"

definition free_id :: "(db, 's) world \<Rightarrow> uuid \<Rightarrow> bool" where
  "free_id w i \<longleftrightarrow> i \<notin> world_live w"

lemma settings_eq: "settings d = (fs, codec, valid) \<longleftrightarrow> db_faults d = fs \<and> ts_codec d = codec \<and> text_ok d = valid"
  by (simp add: settings_def)

lemma settings_sel [simp]:
  "settings (fold (enqueue u) ids d) = settings d" "settings (d\<lparr>media_tbl := ms\<rparr>) = settings d"
  "settings (d\<lparr>task_tbl := ts\<rparr>) = settings d"
proof -
  show "settings (fold (enqueue u) ids d) = settings d"
    by (induction ids arbitrary: d) (simp_all add: settings_def)
qed (simp_all add: settings_def)

lemma tidyD:
  assumes "tidy rows content live"
  shows "rows i = Some m \<Longrightarrow> DeletedAt m = None \<and> content i \<noteq> None \<and> i \<notin> live"
    and "rows i = None \<Longrightarrow> i \<notin> live \<Longrightarrow> content i = None"
  using assms [unfolded tidy_def, rule_format, of i] by simp_all

lemma tidy_insert:
  assumes "tidy rows content live" and "DeletedAt row = None" and "i \<notin> live"
  shows "tidy (rows(i \<mapsto> row)) (content(i \<mapsto> b)) live"
  unfolding tidy_def
proof
  fix j
  show "case (rows(i \<mapsto> row)) j of None \<Rightarrow> (content(i \<mapsto> b)) j = None \<or> j \<in> live
      | Some m \<Rightarrow> DeletedAt m = None \<and> (content(i \<mapsto> b)) j \<noteq> None \<and> j \<notin> live"
    using tidyD [OF assms(1), of j] assms(2,3) by (cases "j = i"; cases "rows j") auto
qed

lemma tidy_remove:
  assumes "tidy rows content live" and "\<And>i. i \<notin> D \<Longrightarrow> content' i = content i"
  shows "tidy (removed rows D) content' (live \<union> D)"
  unfolding tidy_def
proof
  fix j
  show "case removed rows D j of None \<Rightarrow> content' j = None \<or> j \<in> live \<union> D
      | Some m \<Rightarrow> DeletedAt m = None \<and> content' j \<noteq> None \<and> j \<notin> live \<union> D"
    using tidyD [OF assms(1), of j] assms(2) [of j]
    by (cases "j \<in> D"; cases "rows j"; cases "j \<in> live") (auto simp: removed_def)
qed

lemma abs_files_row:
  assumes "quiet c codec valid w"
  shows "abs_files c w i = None \<longleftrightarrow> world_rows w i = None"
    and "world_rows w i = Some m \<Longrightarrow> \<exists>b. abs_files c w i = Some (m, b) \<and> world_content c w i = Some b"
proof -
  note t = assms [unfolded quiet_def, THEN conjunct2, THEN conjunct2]
  show "abs_files c w i = None \<longleftrightarrow> world_rows w i = None"
    using tidyD(1) [OF t, of i] by (auto simp: abs_files_def split: option.splits)
  show "\<exists>b. abs_files c w i = Some (m, b) \<and> world_content c w i = Some b" if "world_rows w i = Some m"
    using tidyD(1) [OF t that] that by (auto simp: abs_files_def)
qed

lemma mine_abs:
  assumes "quiet c codec valid w"
  shows "mine (abs_files c w) u i \<longleftrightarrow> i \<in> owned_ids (world_rows w) u"
  using abs_files_row [OF assms, of i] by (auto simp: mine_def owned_ids_def split: option.splits)

text \<open>A state the change from which does not show.\<close>

lemma quiet_stutter:
  assumes "quiet c codec valid w" and "world_inv w'" and "settings (meta_st w') = settings (meta_st w)"
    and "world_rows w' = world_rows w" and "world_live w' \<subseteq> world_live w"
    and "\<And>i. i \<notin> world_live w \<Longrightarrow> world_content c w' i = world_content c w i"
    and "\<And>i. i \<in> world_live w - world_live w' \<Longrightarrow> world_content c w' i = None"
  shows "quiet c codec valid w' \<and> abs_files c w' = abs_files c w"
proof -
  from assms(1) have t: "tidy (world_rows w) (world_content c w) (world_live w)" by (simp add: quiet_def)
  have "tidy (world_rows w') (world_content c w') (world_live w')"
    unfolding tidy_def assms(4)
  proof
    fix i
    show "case world_rows w i of None \<Rightarrow> world_content c w' i = None \<or> i \<in> world_live w'
        | Some m \<Rightarrow> DeletedAt m = None \<and> world_content c w' i \<noteq> None \<and> i \<notin> world_live w'"
      using tidyD [OF t, of i] assms(5,6,7) by (cases "world_rows w i"; cases "i \<in> world_live w") auto
  qed
  moreover have "abs_files c w' = abs_files c w"
  proof
    fix i
    show "abs_files c w' i = abs_files c w i"
      using tidyD(1) [OF t, of i] assms(4) assms(6) [of i] by (simp add: abs_files_def split: option.splits)
  qed
  ultimately show ?thesis using assms(1-3) by (simp add: quiet_def)
qed

section \<open>The seven operations\<close>

lemma insert_media_columns:
  assumes "settings d = ([], codec, valid)" and "media_rows d (ID m) = None"
  shows "insert_media m d =
           (case columns codec valid m of
              Inl e \<Rightarrow> Inl e
            | Inr row \<Rightarrow> Inr ((), d\<lparr>media_tbl := media_tbl d @ [row]\<rparr>))"
  using assms by (simp add: insert_media_def columns_def settings_eq stored_row_def media_rows_def)

lemma columns_err: "columns codec valid m = Inl e \<Longrightarrow> errors_As_PgError e \<noteq> Some pgUniqueViolation"
  by (auto simp: columns_def pgUniqueViolation_def split: if_splits)

lemma columns_row: "columns codec valid m = Inr row \<Longrightarrow> same_file m row"
  by (auto simp: columns_def same_file_def split: if_splits)

lemma rows_append:
  "media_rows d (ID row) = None \<Longrightarrow> media_rows (d\<lparr>media_tbl := media_tbl d @ [row]\<rparr>) = (media_rows d)(ID row \<mapsto> row)"
  by (auto simp: media_rows_def lookup_by_append fun_eq_iff split: option.splits)

lemma create_sim:
  assumes sim: "map_sim (L, S) codec valid w F" and free: "free_id w (ID m)"
  shows "agree (map_sim (L, S) codec valid) (Repository_Create (wired_repo (L, S)) x w m b)
           (map_create (columns codec valid) F m b)"
proof -
  let ?c = "(L, S)" and ?s = "blob_st w" and ?d = "meta_st w"
  from sim have ok: "store_ok ?c" and dep: "s3_dependable (client S)" and q: "quiet ?c codec valid w"
    and F: "F = abs_files ?c w" by (simp_all add: map_sim_def)
  from q have inv: "db_inv ?d" and set: "settings ?d = ([], codec, valid)"
    and t: "tidy (media_rows ?d) (store_content ?c ?s) (live_ids ?d)"
    by (simp_all add: quiet_def world_defs world_live_def)
  have faults: "db_faults ?d = []" using set by (simp add: settings_eq)
  show ?thesis
  proof (cases "media_rows ?d (ID m)")
    case (Some m0)
    with tidyD(1) [OF t] obtain b0 where b0: "store_content ?c ?s (ID m) = Some b0" by fastforce
    with dependable_put(2) [OF dep] obtain s1 where put: "Store_Put L S x ?s (ID m) b (ContentType m) = (Inl ErrBlobAlreadyExists, s1)"
      by blast
    have run: "Repository_Create (wired_repo ?c) x w m b = (Inl ErrIDConflict, w\<lparr>blob_st := s1\<rparr>)"
      using put by (simp add: Repository_Create_def iface_simps)
    have same: "store_content ?c s1 = store_content ?c ?s"
      using Store_put_err [OF ok put] b0 by auto
    have "quiet ?c codec valid (w\<lparr>blob_st := s1\<rparr>) \<and> abs_files ?c (w\<lparr>blob_st := s1\<rparr>) = abs_files ?c w"
      by (rule quiet_stutter [OF q]) (use q same in \<open>simp_all add: quiet_def world_defs world_live_def\<close>)
    moreover have "F (ID m) \<noteq> None" using abs_files_row(1) [OF q, of "ID m"] Some F by (simp add: world_defs)
    ultimately show ?thesis using run sim F by (auto simp: map_create_def map_sim_def)
  next
    case None
    then have F_none: "F (ID m) = None" using abs_files_row(1) [OF q, of "ID m"] F by (simp add: world_defs)
    from tidyD(2) [OF t None] free have c_none: "store_content ?c ?s (ID m) = None"
      by (simp add: free_id_def world_live_def)
    with dependable_put(1) [OF dep] obtain s1 where put: "Store_Put L S x ?s (ID m) b (ContentType m) = (Inr (), s1)" by blast
    from Store_put_ok [OF ok put] have s1: "store_content ?c s1 = (store_content ?c ?s)(ID m \<mapsto> b)" by blast
    have run: "run_stmt ?d (insert_media m) = settle ?d (insert_media m ?d)" by (rule run_stmt_no_fault [OF faults])
    show ?thesis
    proof (cases "columns codec valid m")
      case (Inl e)
      from dependable_delete [OF dep] obtain s2 where del: "Store_Delete L S (WithoutCancel x) s1 (ID m) = (Inr (), s2)" by blast
      from s3_store.delete_ok [OF ok, unfolded iface_simps, OF del] s1 c_none
      have s2: "store_content ?c s2 = store_content ?c ?s" by (auto simp: fun_eq_iff)
      have create: "MediaRepository_Create x ?d m = (Inl (Wrapped ''postgres: create media'' e), ?d)"
        using run columns_err [OF Inl] by (simp add: MediaRepository_Create_def insert_media_columns [OF set None] Inl settle_def)
      have e: "\<not> errors_Is (Wrapped ''postgres: create media'' e) ErrIDConflict"
        using Inl by (auto simp: columns_def split: if_splits)
      have call: "Repository_Create (wired_repo ?c) x w m b =
          (Inl (Wrapped ''media: create metadata'' (Wrapped ''postgres: create media'' e)), w\<lparr>blob_st := s2\<rparr>)"
        using put del create e by (simp add: Repository_Create_def iface_simps Let_def)
      have "quiet ?c codec valid (w\<lparr>blob_st := s2\<rparr>) \<and> abs_files ?c (w\<lparr>blob_st := s2\<rparr>) = abs_files ?c w"
        by (rule quiet_stutter [OF q]) (use q s2 in \<open>simp_all add: quiet_def world_defs world_live_def\<close>)
      with call sim F F_none Inl show ?thesis by (simp add: map_create_def map_sim_def)
    next
      case (Inr row)
      let ?d1 = "?d\<lparr>media_tbl := media_tbl ?d @ [row]\<rparr>"
      have ins: "insert_media m ?d = Inr ((), ?d1)" by (simp add: insert_media_columns [OF set None] Inr)
      with run have create: "MediaRepository_Create x ?d m = (Inr (), ?d1)"
        by (simp add: MediaRepository_Create_def settle_def)
      let ?w1 = "w\<lparr>meta_st := ?d1, blob_st := s1\<rparr>"
      have call: "Repository_Create (wired_repo ?c) x w m b = (Inr (), ?w1)"
        using put create by (simp add: Repository_Create_def iface_simps)
      from columns_row [OF Inr] have id: "ID row = ID m" and del: "DeletedAt row = None" by (simp_all add: same_file_def)
      have rows: "media_rows ?d1 = (media_rows ?d)(ID m \<mapsto> row)" using rows_append [of ?d row] None id by simp
      from insert_media_ok [OF inv ins] have inv1: "db_inv ?d1" and live: "live_ids ?d1 = live_ids ?d" by simp_all
      have "tidy (media_rows ?d1) (store_content ?c s1) (live_ids ?d1)"
        unfolding rows s1 live using t del free by (intro tidy_insert) (simp_all add: free_id_def world_live_def)
      then have "quiet ?c codec valid ?w1" using inv1 set by (simp add: quiet_def world_defs world_live_def)
      moreover have "abs_files ?c ?w1 = (abs_files ?c w)(ID m \<mapsto> (row, b))"
        using rows s1 by (auto simp: abs_files_def world_defs fun_eq_iff split: option.splits)
      ultimately show ?thesis using call sim F F_none Inr by (simp add: map_create_def map_sim_def)
    qed
  qed
qed

lemma get_sim:
  assumes "map_sim c codec valid w F"
  shows "Repository_GetByID (wired_repo c) x w u i = (map_sum id fst (map_get F u i), w)"
proof -
  from assms have q: "quiet c codec valid w" and F: "F = abs_files c w" by (simp_all add: map_sim_def)
  then have inv: "db_inv (meta_st w)" and faults: "db_faults (meta_st w) = []"
    and t: "tidy (world_rows w) (world_content c w) (world_live w)"
    by (simp_all add: quiet_def world_inv_def settings_eq)
  show ?thesis
  proof (cases "world_rows w i")
    case None
    with abs_files_row(1) [OF q, of i] F have "F i = None" by simp
    with None GetByID_exact [OF inv faults, of x u i] show ?thesis
      by (simp add: Repository_GetByID_def iface_simps world_defs map_get_def mine_def)
  next
    case (Some m)
    with abs_files_row(2) [OF q Some] tidyD(1) [OF t Some] F obtain b where "F i = Some (m, b)" "DeletedAt m = None" by auto
    with Some GetByID_exact [OF inv faults, of x u i] show ?thesis
      by (simp add: Repository_GetByID_def iface_simps world_defs map_get_def mine_def)
  qed
qed

lemma content_sim:
  assumes "map_sim (L, S) codec valid w F"
  shows "agree (map_sim (L, S) codec valid) (Repository_GetContent L' (wired_repo (L, S)) x w u i) (map_get F u i, F)"
proof -
  from assms have ok: "store_ok (L, S)" and dep: "s3_dependable (client S)"
    and q: "quiet (L, S) codec valid w" and F: "F = abs_files (L, S) w" by (simp_all add: map_sim_def)
  from get_sim [OF assms, of x u i] have get: "MediaRepository_GetByID x (meta_st w) u i = (map_sum id fst (map_get F u i), meta_st w)"
    by (auto simp: Repository_GetByID_def iface_simps split: prod.splits dest: arg_cong [of _ _ meta_st])
  show ?thesis
  proof (cases "mine F u i")
    case False
    with get assms show ?thesis by (simp add: Repository_GetContent_def iface_simps map_get_def)
  next
    case True
    then obtain m b where mb: "F i = Some (m, b)" by (auto simp: mine_def split: option.splits)
    with F have b: "store_content (L, S) (blob_st w) i = Some b"
      by (auto simp: abs_files_def world_content_def split: option.splits)
    from dependable_get [OF dep b] obtain s' where s': "Store_Get L S x (blob_st w) i = (Inr b, s')" by blast
    have same: "store_content (L, S) s' = store_content (L, S) (blob_st w)"
      using s3_store.get_frame [OF ok, unfolded iface_simps, OF s'] .
    have "quiet (L, S) codec valid (w\<lparr>blob_st := s'\<rparr>) \<and> abs_files (L, S) (w\<lparr>blob_st := s'\<rparr>) = abs_files (L, S) w"
      by (rule quiet_stutter [OF q]) (use q same in \<open>simp_all add: quiet_def world_defs world_live_def\<close>)
    with True mb get s' assms show ?thesis
      by (simp add: Repository_GetContent_def iface_simps map_get_def map_sim_def)
  qed
qed

lemma list_sim:
  assumes "map_sim c codec valid w F"
  obtains ms where "Repository_ListByIDs (wired_repo c) x w u is = (Inr ms, w)" "distinct (map ID ms)"
    "set ms = {fst (the (F i)) | i. i \<in> set is \<and> mine F u i}"
proof -
  from assms have q: "quiet c codec valid w" and F: "F = abs_files c w" by (simp_all add: map_sim_def)
  then have inv: "db_inv (meta_st w)" and faults: "db_faults (meta_st w) = []"
    and t: "tidy (world_rows w) (world_content c w) (world_live w)"
    by (simp_all add: quiet_def world_inv_def settings_eq)
  obtain ms where call: "MediaRepository_ListByIDs x (meta_st w) u is = (Inr ms, meta_st w)"
    by (cases "is = []") (simp_all add: MediaRepository_ListByIDs_def run_stmt_no_fault [OF faults] select_media_def settle_def)
  have row: "visible (world_rows w) u i m \<longleftrightarrow> mine F u i \<and> fst (the (F i)) = m" for i m
    using abs_files_row [OF q, of i] tidyD(1) [OF t, of i] F
    by (cases "world_rows w i") (auto simp: visible_def mine_def)
  have id: "ID m = i" if "visible (world_rows w) u i m" for i m
    using that inv by (auto simp: visible_def world_rows_def media_rows_Some)
  from MediaRepository_ListByIDs_ok [OF inv call] have d: "distinct (map ID ms)"
    and ms: "\<And>m. m \<in> set ms \<longleftrightarrow> ID m \<in> set is \<and> visible (world_rows w) u (ID m) m"
    by (simp_all add: world_rows_def)
  have "m \<in> set ms \<longleftrightarrow> (\<exists>i. m = fst (the (F i)) \<and> i \<in> set is \<and> mine F u i)" for m
    using ms [of m] row [of _ m] id [of _ m] by metis
  then have "set ms = {fst (the (F i)) | i. i \<in> set is \<and> mine F u i}" by blast
  with call d show thesis by (intro that [of ms]) (simp_all add: Repository_ListByIDs_def iface_simps)
qed

text \<open>The three deletes: the rows go, their tasks are opened, and the content follows at once or later.\<close>

lemma purge_sim:
  assumes sim: "map_sim c codec valid w F" and P: "\<And>m i. P m i \<longleftrightarrow> UserID m = u \<and> i \<in> A"
  obtains del d1 where "run_stmt (meta_st w) (delete_and_enqueue u (\<lambda>m. P m (ID m))) = (Inr del, d1)" "distinct del"
    "set del = A \<inter> Collect (mine F u)"
    "\<And>ids x. set ids = set del \<Longrightarrow>
       map_sim c codec valid (delete_blobs (wired_repo c) x ids (w\<lparr>meta_st := d1\<rparr>)) (without F (set del))"
proof -
  let ?P = "\<lambda>m. P m (ID m)"
  from sim have ok: "store_ok c" and q: "quiet c codec valid w" and F: "F = abs_files c w" by (simp_all add: map_sim_def)
  then have inv: "db_inv (meta_st w)" and set: "settings (meta_st w) = ([], codec, valid)"
    and t: "tidy (world_rows w) (world_content c w) (world_live w)"
    by (simp_all add: quiet_def world_inv_def)
  obtain del d1 where stmt: "delete_and_enqueue u ?P (meta_st w) = Inr (del, d1)" using delete_and_enqueue_total by blast
  note r = delete_and_enqueue_ok [OF inv stmt]
  have set1: "settings d1 = ([], codec, valid)"
    using stmt set by (auto simp: delete_and_enqueue_def Let_def)
  have owned: "set del = A \<inter> Collect (mine F u)"
    using r P inv mine_abs [OF q] by (auto simp: F world_rows_def owned_ids_def media_rows_Some)
  show thesis
  proof (rule that)
    show "run_stmt (meta_st w) (delete_and_enqueue u ?P) = (Inr del, d1)"
      using set stmt by (simp add: run_stmt_no_fault settings_eq settle_def)
    show "distinct del" using r by blast
    fix ids x assume ids: "set ids = set del"
    let ?w' = "delete_blobs (wired_repo c) x ids (w\<lparr>meta_st := d1\<rparr>)"
    have c': "world_content c ?w' i = world_content c w i" if "i \<notin> set del" for i
      using s3_pg.delete_blobs_content [OF ok wired(2), of i ids x "w\<lparr>meta_st := d1\<rparr>"] that ids by (simp add: world_content_def)
    have rows: "world_rows ?w' = removed (world_rows w) (set del)" using r by (simp add: world_rows_def)
    have live: "world_live ?w' = world_live w \<union> set del" using r by (simp add: world_live_def)
    have "tidy (world_rows ?w') (world_content c ?w') (world_live ?w')"
      unfolding rows live by (rule tidy_remove [OF t c'])
    then have "quiet c codec valid ?w'" using r set1 by (simp add: quiet_def world_inv_def)
    moreover have "abs_files c ?w' = without F (set del)"
      using c' by (auto simp: F abs_files_def rows removed_def without_def fun_eq_iff split: option.splits)
    ultimately show "map_sim c codec valid ?w' (without F (set del))" using sim by (simp add: map_sim_def)
  qed (rule owned)
qed

lemma delete_blobs_one: "delete_blob R x i w = delete_blobs R x [i] w"
  by simp

lemma delete_sim:
  assumes sim: "map_sim c codec valid w F"
  shows "agree (map_sim c codec valid) (Repository_Delete (wired_repo c) x w u i)
           (if mine F u i then (Inr (), without F {i}) else (Inl ErrNotFound, F))"
proof -
  obtain del d1 where run: "run_stmt (meta_st w) (delete_and_enqueue u (\<lambda>m. ID m = i \<and> UserID m = u)) = (Inr del, d1)"
    and del: "set del = {i} \<inter> Collect (mine F u)"
    and s: "\<And>ids x. set ids = set del \<Longrightarrow>
       map_sim c codec valid (delete_blobs (wired_repo c) x ids (w\<lparr>meta_st := d1\<rparr>)) (without F (set del))"
    by (rule purge_sim [OF sim, of "\<lambda>m j. j = i \<and> UserID m = u" u "{i}"]) auto
  show ?thesis
  proof (cases "mine F u i")
    case True
    with del have "set del = {i}" by auto
    moreover from this have "del \<noteq> []" by auto
    ultimately show ?thesis using True run s [of "[i]"]
      by (simp add: Repository_Delete_def iface_simps MediaRepository_Delete_def)
  next
    case False
    with del have "del = []" by auto
    with False run s [of "[]"] show ?thesis
      by (simp add: Repository_Delete_def iface_simps MediaRepository_Delete_def without_def)
  qed
qed

lemma delete_ids_sim:
  assumes sim: "map_sim c codec valid w F" and "is \<noteq> []"
  shows "agree (map_sim c codec valid) (Repository_DeleteByIDs (wired_repo c) x w u is)
           (Inr (int (card (set is \<inter> Collect (mine F u)))), without F (set is \<inter> Collect (mine F u)))"
proof -
  obtain del d1 where run: "run_stmt (meta_st w) (delete_and_enqueue u (\<lambda>m. ID m \<in> set is \<and> UserID m = u)) = (Inr del, d1)"
    and d: "distinct del" "set del = set is \<inter> Collect (mine F u)"
    and s: "\<And>ids x. set ids = set del \<Longrightarrow>
       map_sim c codec valid (delete_blobs (wired_repo c) x ids (w\<lparr>meta_st := d1\<rparr>)) (without F (set del))"
    by (rule purge_sim [OF sim, of "\<lambda>m j. j \<in> set is \<and> UserID m = u" u "set is"]) auto
  have n: "length del = card (set is \<inter> Collect (mine F u))" using distinct_card [OF d(1)] d(2) by simp
  show ?thesis using assms(2) run s [of del x] d n
    by (simp add: Repository_DeleteByIDs_def iface_simps MediaRepository_DeleteByIDs_def)
qed

lemma delete_user_sim:
  assumes sim: "map_sim c codec valid w F"
  shows "agree (map_sim c codec valid) (Repository_DeleteAllByUser (wired_repo c) x w u)
           (Inr (int (card (Collect (mine F u)))), without F (Collect (mine F u)))"
proof -
  obtain del d1 where run: "run_stmt (meta_st w) (delete_and_enqueue u (\<lambda>m. UserID m = u)) = (Inr del, d1)"
    and d: "distinct del" "set del = Collect (mine F u)"
    and s: "\<And>ids x. set ids = set del \<Longrightarrow>
       map_sim c codec valid (delete_blobs (wired_repo c) x ids (w\<lparr>meta_st := d1\<rparr>)) (without F (set del))"
    by (rule purge_sim [OF sim, of "\<lambda>m j. UserID m = u" u UNIV]) auto
  have n: "length del = card (Collect (mine F u))" using distinct_card [OF d(1)] d(2) by simp
  show ?thesis using run s [of del x] d n
    by (simp add: Repository_DeleteAllByUser_def iface_simps MediaRepository_DeleteAllByUser_def)
qed

lemma mine_id:
  assumes "map_sim c codec valid w F" and "mine F u i"
  shows "ID (fst (the (F i))) = i"
proof -
  from assms(1) have q: "quiet c codec valid w" and F: "F = abs_files c w" by (simp_all add: map_sim_def)
  from q have "db_inv (meta_st w)" by (simp add: quiet_def world_inv_def)
  with assms(2) abs_files_row [OF q, of i] F show ?thesis
    by (cases "world_rows w i") (auto simp: mine_def world_rows_def media_rows_Some)
qed

interpretation map_sim: repo_simulation "map_sim c codec valid" free_id "wired_iface c" "map_repo (columns codec valid)"
proof (unfold_locales, unfold iface_simps map_repo_sel, goal_cases)
  case (1 w v m x b)
  then show ?case by (cases c) (simp add: create_sim)
next
  case (2 w v x u i)
  then show ?case by (simp add: get_sim)
next
  case (3 w v x u i)
  then show ?case by (cases c) (simp add: content_sim)
next
  case (4 w v x u "is")
  let ?ms = "map (\<lambda>i. fst (the (v i))) (filter (mine v u) (remdups is))"
  have "map ID ?ms = filter (mine v u) (remdups is)"
    unfolding map_map by (rule map_idI) (use mine_id [OF 4, of u] in simp)
  then have "distinct (map ID ?ms)" by simp
  moreover obtain ms where "Repository_ListByIDs (wired_repo c) x w u is = (Inr ms, w)" "distinct (map ID ms)"
    "set ms = {fst (the (v i)) | i. i \<in> set is \<and> mine v u i}" by (rule list_sim [OF 4, of x u "is"])
  moreover from this(3) have "set ms = set ?ms" by auto
  ultimately show ?case using 4 by (intro exI conjI) (rule refl | assumption)+
next
  case (5 w v x u i)
  then show ?case by (rule delete_sim)
next
  case (6 w v "is" x u)
  then show ?case by (rule delete_ids_sim)
next
  case (7 w v x u)
  then show ?case by (rule delete_user_sim)
qed

section \<open>The running server over the map\<close>

text \<open>The server of the code with the map in the place of the database and the bucket.\<close>

definition map_router :: "(Media \<Rightarrow> error + Media) \<Rightarrow> 'w router \<Rightarrow> files router" where
  "map_router cols R =
     \<lparr> rt_lib = rt_lib R, rt_chi = rt_chi R, rt_not_found = rt_not_found R, rt_RequireAuth = rt_RequireAuth R,
       rt_internalAuth = rt_internalAuth R, rt_ping = (\<lambda>F. (Inr (), F)),
       rt_handler =
         \<lparr> service =
             \<lparr> media = map_repo cols, maxUploadSizeBytes = maxUploadSizeBytes (service (rt_handler R)),
               maxListIDs = maxListIDs (service (rt_handler R)) \<rparr>,
           h_maxUploadSizeBytes = h_maxUploadSizeBytes (rt_handler R), publicBaseURL = publicBaseURL (rt_handler R) \<rparr>,
       rt_internalToken = rt_internalToken R \<rparr>"

text \<open>What the clients see of a run: the responses, in order. To the map only requests happen.\<close>

fun observe :: "'s app \<Rightarrow> server_event list \<Rightarrow> (db, 's) world \<Rightarrow> response list" where
  "observe A [] w = []"
| "observe A (Arrives fresh now x req # evs) w =
     (case ServeHTTP (app_router A) fresh now x w req of (resp, w1) \<Rightarrow> resp # observe A evs w1)"
| "observe A (ev # evs) w = observe A evs (server_step A ev w)"

fun map_observe :: "files router \<Rightarrow> server_event list \<Rightarrow> files \<Rightarrow> response list" where
  "map_observe R [] F = []"
| "map_observe R (Arrives fresh now x req # evs) F =
     (case ServeHTTP R fresh now x F req of (resp, F1) \<Rightarrow> resp # map_observe R evs F1)"
| "map_observe R (ev # evs) F = map_observe R evs F"

text \<open>
  A run in which the database stays reachable and nobody uploads an id whose old content is
  still waiting to be removed.
\<close>

fun orderly :: "'s app \<Rightarrow> server_event list \<Rightarrow> (db, 's) world \<Rightarrow> bool" where
  "orderly A [] w \<longleftrightarrow> True"
| "orderly A (ev # evs) w \<longleftrightarrow>
     (case ev of
        Arrives fresh now x req \<Rightarrow>
          rq_Method req = ''POST'' \<longrightarrow>
          (case upload_id (rt_lib (app_router A)) (h_maxUploadSizeBytes (rt_handler (app_router A))) fresh (rq_request req) of
             None \<Rightarrow> True | Some i \<Rightarrow> i \<notin> live_ids (meta_st w))
      | Round x \<Rightarrow> True
      | Passes t locks faults \<Rightarrow> faults = []) \<and>
     orderly A evs (server_step A ev w)"

lemma run_stmt_settings:
  assumes "settings d = ([], codec, valid)" and "run_stmt d stmt = (r, d')"
    and "\<And>a d'. stmt d = Inr (a, d') \<Longrightarrow> settings d' = settings d"
  shows "settings d' = ([], codec, valid)"
proof -
  from assms(1) have "db_faults d = []" by (simp add: settings_eq)
  from run_stmt_no_fault [OF this, of stmt] assms show ?thesis by (auto simp: settle_def split: sum.splits)
qed

lemma round_settings:
  assumes "settings d = ([], codec, valid)" and "Worker_RunOnce (wired_worker c) x (d, s) = (r, d', s')"
  shows "settings d' = ([], codec, valid)"
proof -
  have claim: "settings d1 = ([], codec, valid)" if "BlobDeletionRepository_Claim x d = (q, d1)" for q d1
  proof -
    from that obtain q' where "run_stmt d claim_stmt = (q', d1)"
      by (auto simp: BlobDeletionRepository_Claim_def split: prod.splits sum.splits)
    with assms(1) show ?thesis
      by (rule run_stmt_settings) (auto simp: claim_stmt_def split: option.splits if_splits)
  qed
  have complete: "settings d2 = ([], codec, valid)"
    if "settings d1 = ([], codec, valid)" "BlobDeletionRepository_Complete x d1 i = (q, d2)" for d1 d2 i q
    using that(1) that(2) [unfolded BlobDeletionRepository_Complete_def]
    by (rule run_stmt_settings) (auto simp: complete_stmt_def)
  have retry: "settings d2 = ([], codec, valid)"
    if "settings d1 = ([], codec, valid)" "BlobDeletionRepository_Retry x d1 i e = (q, d2)" for d1 d2 i e q
    using that(1) that(2) [unfolded BlobDeletionRepository_Retry_def]
    by (rule run_stmt_settings) (auto simp: retry_stmt_def split: if_splits)
  from assms(2) show ?thesis
    by (auto simp: Worker_RunOnce_def iface_simps split: prod.splits sum.splits if_splits
        dest: claim complete retry)
qed

text \<open>The worker and the passing of time do not show.\<close>

lemma background_sim:
  assumes A: "A = wire n lib chi nf auth iauth cfg St" and sim: "map_sim (lib_uuid lib, St) codec valid w F"
  shows "map_sim (lib_uuid lib, St) codec valid (server_step A (Round x) w) F"
    and "map_sim (lib_uuid lib, St) codec valid (server_step A (Passes t locks []) w) F"
proof -
  let ?c = "(lib_uuid lib, St)"
  from sim have ok: "store_ok ?c" and q: "quiet ?c codec valid w" by (simp_all add: map_sim_def)
  from q have inv: "db_inv (meta_st w)" and set: "settings (meta_st w) = ([], codec, valid)"
    by (simp_all add: quiet_def world_inv_def)
  obtain r d s where run: "Worker_RunOnce (wired_worker ?c) x (meta_st w, blob_st w) = (r, d, s)"
    by (metis prod_cases3)
  have step: "server_step A (Round x) w = w\<lparr>meta_st := d, blob_st := s\<rparr>" using run by (simp add: A wire_wired)
  have "quiet ?c codec valid (w\<lparr>meta_st := d, blob_st := s\<rparr>) \<and> abs_files ?c (w\<lparr>meta_st := d, blob_st := s\<rparr>) = abs_files ?c w"
    by (rule quiet_stutter [OF q])
      (use s3_worker.run_once_safe [OF ok wired_worker_sel inv run] round_settings [OF set run] set
        in \<open>auto simp: world_defs world_live_def\<close>)
  with sim step show "map_sim ?c codec valid (server_step A (Round x) w) F" by (simp add: map_sim_def)
  let ?w = "server_step A (Passes t locks []) w"
  have "quiet ?c codec valid ?w \<and> abs_files ?c ?w = abs_files ?c w"
    by (rule quiet_stutter [OF q])
      (use inv set in \<open>simp_all add: world_defs world_live_def db_inv_def media_rows_def live_ids_def settings_def\<close>)
  with sim show "map_sim ?c codec valid ?w F" by (simp add: map_sim_def)
qed

lemma ping_sim:
  assumes "map_sim c codec valid w F"
  shows "pool_ping w = (Inr (), w)"
  using assms by (simp add: map_sim_def quiet_def settings_eq pool_ping_def run_stmt_no_fault settle_def)

lemma request_sim:
  assumes A: "A = wire n lib chi nf auth iauth cfg St" and chi: "chi_documented chi"
    and sim: "map_sim (lib_uuid lib, St) codec valid w F" and ok: "orderly A [Arrives fresh now x req] w"
  shows "agree (map_sim (lib_uuid lib, St) codec valid) (ServeHTTP (app_router A) fresh now x w req)
           (ServeHTTP (map_router (columns codec valid) (app_router A)) fresh now x F req)"
proof (rule map_sim.sim_ServeHTTP [OF _ _ sim])
  show "same_router (wired_iface (lib_uuid lib, St)) (map_repo (columns codec valid)) (app_router A)
      (map_router (columns codec valid) (app_router A))"
    by (simp add: same_router_def same_handler_def map_router_def A)
  show "agree (map_sim (lib_uuid lib, St) codec valid) (rt_ping (app_router A) w)
      (rt_ping (map_router (columns codec valid) (app_router A)) F)"
    using sim by (simp add: A map_router_def ping_sim [OF sim])
qed (use A chi ok in \<open>auto simp: free_id_def world_live_def\<close>)

lemma observe_sim:
  assumes A: "A = wire n lib chi nf auth iauth cfg St" and chi: "chi_documented chi"
    and "map_sim (lib_uuid lib, St) codec valid w F" and "orderly A evs w"
  shows "observe A evs w = map_observe (map_router (columns codec valid) (app_router A)) evs F"
  using assms(3,4)
proof (induction evs arbitrary: w F)
  case (Cons ev evs)
  show ?case
  proof (cases ev)
    case (Arrives fresh now x req)
    obtain resp w1 where 1: "ServeHTTP (app_router A) fresh now x w req = (resp, w1)" by fastforce
    obtain resp' F1 where 2: "ServeHTTP (map_router (columns codec valid) (app_router A)) fresh now x F req = (resp', F1)"
      by fastforce
    from request_sim [OF A chi Cons.prems(1), of fresh now x req] Cons.prems(2) Arrives 1 2
    have "resp = resp'" "map_sim (lib_uuid lib, St) codec valid w1 F1" by simp_all
    with Cons.IH [of w1 F1] Cons.prems(2) Arrives 1 2 show ?thesis by simp
  next
    case (Round x)
    with Cons.IH [OF background_sim(1) [OF A Cons.prems(1), of x]] Cons.prems(2) show ?thesis by simp
  next
    case (Passes t locks faults)
    with Cons.prems(2) have none: "faults = []" by simp
    with Passes Cons.prems(2) have "ev = Passes t locks []" "orderly A evs (server_step A (Passes t locks []) w)" by simp_all
    with Cons.IH [OF background_sim(2) [OF A Cons.prems(1), of t locks]] show ?thesis by simp
  qed
qed simp

text \<open>
  Claim C6. Seen from outside the service is a map from ids to files: in any run of the wired
  server in which the database and S3 answer, every response, to every request of every user, is
  the one computed by the same handlers over a plain map with no tables, tasks, objects,
  transactions or worker. What happens in between (rounds of the worker, content removed late
  or at once, the clock) never shows. It starts in a state in order (\<open>quiet\<close>: every row has its
  content, as in an empty database, and as the server leaves it). Excluded is only an upload of an id whose old content is
  still waiting to be removed.
\<close>

theorem server_is_a_file_map:
  assumes "store_ok (lib_uuid lib, St)" and "s3_dependable (client St)" and "chi_documented chi"
    and "A = wire n lib chi nf auth iauth cfg St"
    and "quiet (lib_uuid lib, St) codec valid w" and "orderly A evs w"
  shows "observe A evs w =
           map_observe (map_router (columns codec valid) (app_router A)) evs (abs_files (lib_uuid lib, St) w)"
  by (rule observe_sim [OF assms(4,3) _ assms(6)]) (simp add: map_sim_def assms)

lemma demo_quiet:
  "quiet (demo_config F) (\<lambda>t. t div 1000 * 1000) (\<lambda>s. CHR 0x00 \<notin> set s) (demo_world (demo_db [] [] []) empty_bucket)"
  by (simp add: quiet_def settings_def tidy_def world_defs world_live_def live_ids_def media_rows_def store_content_def
      empty_bucket_def)

abbreviation demo_map_router :: "files router" where
  "demo_map_router \<equiv>
     map_router (columns (\<lambda>t. t div 1000 * 1000) (\<lambda>s. CHR 0x00 \<notin> set s)) (app_router (demo_app (\<lambda>_. False)))"

abbreviation demo_day :: "server_event list" where
  "demo_day \<equiv>
     [Arrives 9 0 RequestCtx (demo_http ''POST'' ''/api/v1/media'' ''7'' (demo_request 7 [] [])), Round RequestCtx,
      Arrives 0 1 RequestCtx (demo_http ''DELETE'' ''/api/v1/media/mine'' ''8'' (demo_request 8 [] [])),
      Arrives 0 2 RequestCtx (demo_http ''DELETE'' ''/api/v1/media/mine'' ''7'' (demo_request 7 [] [])),
      Passes 3 [] [], Round RequestCtx]"

lemma demo_routes:
  "demo_chi routes ''POST'' [''api'', ''v1'', ''media''] = Some (MediaUpload, [])"
  "demo_chi routes ''DELETE'' [''api'', ''v1'', ''media'', ''mine''] = Some (MediaDeleteMine, [])"
  by (simp_all add: demo_chi_def routes_def media_prefix_def)

lemma demo_map_day:
  "map_observe demo_map_router demo_day Map.empty =
     [WriteJSON 201 (MediaJSON (newResponse demo_lib (demo_media 9 7) (PublicBaseURL demo_cfg))),
      WriteHeader 204, WriteHeader 204]"
  by (simp add: ServeHTTP_def map_router_def demo_app_def demo_http_def demo_auth_def split_path_def in_media_group_def Let_def
      demo_routes Handler_Upload_def Handler_DeleteMine_def requireUserID_def ParseMultipartForm_def FormValue_def
      UploadRequest_Validate_def demo_cfg_limit multipartOverheadBytes_def int64_def Service_Upload_def
      Service_DeleteAllMine_def map_create_def columns_def New_def demo_media_def bind_params_def demo_request_def)

theorem server_is_a_file_map_witness:
  "observe (demo_app (\<lambda>_. False)) demo_day (demo_world (demo_db [] [] []) empty_bucket) =
     [WriteJSON 201 (MediaJSON (newResponse demo_lib (demo_media 9 7) (PublicBaseURL demo_cfg))),
      WriteHeader 204, WriteHeader 204]"
proof -
  let ?w = "demo_world (demo_db [] [] []) empty_bucket"
  have "orderly (demo_app (\<lambda>_. False)) demo_day ?w"
    by (simp add: demo_http_def live_ids_def split: option.split)
  moreover have "abs_files (demo_config (\<lambda>_. False)) ?w = Map.empty"
    by (simp add: abs_files_def world_defs media_rows_def fun_eq_iff)
  ultimately show ?thesis
    using server_is_a_file_map [where w = ?w and evs = demo_day, OF _ _ demo_chi_documented demo_app_def]
      demo_quiet [of "\<lambda>_. False"] mem_s3_dependable demo_map_day
    by simp
qed

end
