(* ===== verification/Service_Spec.thy ===== *)
theory Service_Spec
  imports Map_Refinement
begin

text \<open>
  What the seven use cases promise, as one function on the map from ids to files, written without
  the repositories, the handlers or the loops of the code, and the proof that the wired service
  computes it: one step of the service is one step of the specification.
\<close>

section \<open>The specification\<close>

datatype use_case =
    Uploads uuid timestamp UploadInput
  | Gets uuid uuid
  | Downloads uuid uuid
  | Lists uuid "uuid list"
  | Deletes uuid uuid
  | DeletesMany uuid "uuid list"
  | DeletesMine uuid

datatype outcome =
    Failed error
  | Uploaded UploadResult
  | Found Media
  | File Media bytes
  | Page "Media list"
  | Removed
  | RemovedCount int

fun upload_under :: "use_case \<Rightarrow> uuid option" where
  "upload_under (Uploads fresh now inp) = Some (case in_ClientMediaID inp of Some cid \<Rightarrow> cid | None \<Rightarrow> fresh)"
| "upload_under _ = None"

text \<open>
  \<open>limit\<close> is the largest upload, \<open>most\<close> the longest list of ids. An id in use gives the owner
  who chose it the file there is, anybody else a conflict; a list answers in the order asked
  for, each id once, and leaves out what is not the caller's.
\<close>

definition in_order :: "uuid list \<Rightarrow> uuid list" where
  "in_order ids = rev (remdups (rev ids))"

fun spec_case :: "(Media \<Rightarrow> error + Media) \<Rightarrow> int \<Rightarrow> nat \<Rightarrow> files \<Rightarrow> use_case \<Rightarrow> outcome \<times> files" where
  "spec_case cols limit most F (Uploads fresh now inp) =
     (let u = in_UserID inp; b = in_Content inp; i = the (upload_under (Uploads fresh now inp)) in
      if int (length b) > limit then (Failed ErrFileTooLarge, F)
      else case canonicalContentType (in_OriginalFilename inp) b of
        Inl e \<Rightarrow> (Failed e, F)
      | Inr ct \<Rightarrow>
          let m = New now i u (in_OriginalFilename inp) ct (int (length b)) in
          (case F i of
             Some (m', _) \<Rightarrow>
               if in_ClientMediaID inp = None then (Failed (Wrapped ''media: upload'' ErrIDConflict), F)
               else if UserID m' = u then (Uploaded \<lparr>res_Media = m', res_AlreadyExisted = True\<rparr>, F)
               else (Failed ErrMediaIDConflict, F)
           | None \<Rightarrow>
               (case cols m of
                  Inl e \<Rightarrow> (Failed (Wrapped ''media: upload'' (Wrapped ''media: create metadata''
                               (Wrapped ''postgres: create media'' e))), F)
                | Inr row \<Rightarrow> (Uploaded \<lparr>res_Media = m, res_AlreadyExisted = False\<rparr>, F(i \<mapsto> (row, b))))))"
| "spec_case cols limit most F (Gets u i) = (if mine F u i then Found (fst (the (F i))) else Failed ErrNotFound, F)"
| "spec_case cols limit most F (Downloads u i) =
     (if mine F u i then File (fst (the (F i))) (snd (the (F i))) else Failed ErrNotFound, F)"
| "spec_case cols limit most F (Lists u ids) =
     (if length (in_order ids) > most then Failed ErrTooManyIDs
      else Page (map (\<lambda>i. fst (the (F i))) (filter (mine F u) (in_order ids))), F)"
| "spec_case cols limit most F (Deletes u i) = (if mine F u i then (Removed, without F {i}) else (Failed ErrNotFound, F))"
| "spec_case cols limit most F (DeletesMany u ids) =
     (if length (in_order ids) > most then (Failed ErrTooManyIDs, F)
      else (RemovedCount (int (card (set ids \<inter> Collect (mine F u)))), without F (set ids \<inter> Collect (mine F u))))"
| "spec_case cols limit most F (DeletesMine u) =
     (RemovedCount (int (card (Collect (mine F u)))), without F (Collect (mine F u)))"

text \<open>The use case as the service runs it.\<close>

definition answer :: "('a \<Rightarrow> outcome) \<Rightarrow> (error + 'a) \<times> 'w \<Rightarrow> outcome \<times> 'w" where
  "answer f p = (case p of (Inl e, w) \<Rightarrow> (Failed e, w) | (Inr a, w) \<Rightarrow> (f a, w))"

fun run_case :: "'w Service \<Rightarrow> ctx \<Rightarrow> 'w \<Rightarrow> use_case \<Rightarrow> outcome \<times> 'w" where
  "run_case S x w (Uploads fresh now inp) = answer Uploaded (Service_Upload S fresh now x w inp)"
| "run_case S x w (Gets u i) = answer Found (Service_Get S x w u i)"
| "run_case S x w (Downloads u i) = answer (case_prod File) (Service_Download S x w u i)"
| "run_case S x w (Lists u ids) = answer Page (Service_List S x w u ids)"
| "run_case S x w (Deletes u i) = answer (\<lambda>_. Removed) (Service_Delete S x w u i)"
| "run_case S x w (DeletesMany u ids) = answer RemovedCount (Service_DeleteByIDs S x w u ids)"
| "run_case S x w (DeletesMine u) = answer RemovedCount (Service_DeleteAllMine S x w u)"

lemma answer_simps [simp]: "answer f (Inl e, w) = (Failed e, w)" "answer f (Inr a, w) = (f a, w)"
  by (simp_all add: answer_def)

lemma agree_answer: "agree sim p q \<Longrightarrow> agree sim (answer f p) (answer f q)"
  by (cases p; cases q; cases "fst p") auto

section \<open>The service over the map computes the specification\<close>

definition keyed_files :: "files \<Rightarrow> bool" where
  "keyed_files F \<longleftrightarrow> (\<forall>i m b. F i = Some (m, b) \<longrightarrow> ID m = i)"

lemma index_mine:
  assumes "keyed_files F" and "distinct ids"
  shows "index_by_id Map.empty (map (\<lambda>i. fst (the (F i))) (filter (mine F u) ids)) i =
           (if i \<in> set ids \<and> mine F u i then Some (fst (the (F i))) else None)"
proof -
  let ?ms = "map (\<lambda>i. fst (the (F i))) (filter (mine F u) ids)"
  have id: "mine F u j \<Longrightarrow> ID (fst (the (F j))) = j" for j
    using assms(1) by (auto simp: mine_def keyed_files_def split: option.splits)
  have "map ID ?ms = filter (mine F u) ids"
    unfolding map_map by (rule map_idI) (use id in auto)
  then have d: "distinct (map ID ?ms)" using assms(2) by simp
  have "lookup_by ID ?ms i = Some m \<longleftrightarrow> i \<in> set ids \<and> mine F u i \<and> m = fst (the (F i))" for m
    using d id by (auto simp: lookup_by_Some_iff keyed_def)
  then show ?thesis unfolding index_by_id_eq [OF d] by (cases "lookup_by ID ?ms i") auto
qed

lemma map_service_list:
  assumes "media S = map_repo cols" and "keyed_files F"
  shows "answer Page (Service_List S x F u ids) = spec_case cols limit (maxListIDs S) F (Lists u ids)"
proof (cases "ids = []")
  case True
  then show ?thesis by (simp add: Service_List_def in_order_def dedupeIDs_def)
next
  case False
  let ?D = "dedupeIDs ids" and ?g = "\<lambda>i. fst (the (F i))"
  let ?ix = "index_by_id Map.empty (map ?g (filter (mine F u) ?D))"
  note ix = index_mine [OF assms(2) distinct_dedupeIDs, of u ids]
  have f: "filter (\<lambda>i. ?ix i \<noteq> None) ?D = filter (mine F u) ?D"
    by (rule filter_cong) (simp_all add: ix)
  have "pick_ordered ?ix [] ?D = map ?g (filter (mine F u) ?D)"
    unfolding pick_ordered_eq f append_Nil by (rule map_cong) (simp_all add: ix)
  then show ?thesis
    using assms(1) False by (simp add: Service_List_def Let_def in_order_def dedupeIDs_eq [symmetric] distinct_remdups_id)
qed

lemma map_service_upload:
  assumes "media S = map_repo cols" and "\<And>m e. cols m = Inl e \<Longrightarrow> \<not> errors_Is e ErrIDConflict"
  shows "answer Uploaded (Service_Upload S fresh now x F inp) =
           spec_case cols (maxUploadSizeBytes S) most F (Uploads fresh now inp)"
  using assms
  by (cases "in_ClientMediaID inp")
    (auto simp: Service_Upload_def Let_def map_create_def map_get_def mine_def split: option.split sum.split)

lemma map_run_case:
  assumes "media S = map_repo cols" and "keyed_files F" and "\<And>m e. cols m = Inl e \<Longrightarrow> \<not> errors_Is e ErrIDConflict"
  shows "run_case S x F uc = spec_case cols (maxUploadSizeBytes S) (maxListIDs S) F uc"
proof (cases uc)
  case (Uploads fresh now inp)
  then show ?thesis using map_service_upload [OF assms(1,3)] by simp
next
  case (Lists u ids)
  then show ?thesis using map_service_list [OF assms(1,2)] by simp
next
  case (Downloads u i)
  then show ?thesis using assms(1) by (auto simp: Service_Download_def map_get_def split: prod.splits)
next
  case (DeletesMany u ids)
  then show ?thesis using assms(1)
    by (cases "ids = []")
      (simp_all add: Service_DeleteByIDs_def Let_def in_order_def dedupeIDs_eq [symmetric] without_def)
qed (use assms(1) in \<open>simp_all add: Service_Get_def Service_Delete_def Service_DeleteAllMine_def map_get_def\<close>)

section \<open>The wired service computes it\<close>

lemma run_case_sim:
  assumes "media S = wired_iface c" "media S' = map_repo (columns codec valid)"
    and "maxUploadSizeBytes S = maxUploadSizeBytes S'" "maxListIDs S = maxListIDs S'"
    and "map_sim c codec valid w F" and "\<And>i. upload_under uc = Some i \<Longrightarrow> free_id w i"
  shows "agree (map_sim c codec valid) (run_case S x w uc) (run_case S' x F uc)"
  using assms(6) map_sim.sim_service [OF assms(1,2,4,5)] map_sim.sim_list_service [OF assms(1,2,4,5)]
    map_sim.sim_upload [OF assms(1,2,3,5)]
  by (cases uc) (simp_all add: agree_answer del: option.case_eq_if)

lemma quiet_keyed: "quiet c codec valid w \<Longrightarrow> keyed_files (abs_files c w)"
  by (auto simp: quiet_def world_inv_def keyed_files_def abs_files_def world_rows_def media_rows_Some split: option.splits)

text \<open>
  Claim C7. The use cases do what their specification says: run on the wired service in a state
  where the database and S3 answer, a get, download, list or delete, and an upload whose id has no
  open deletion task, gives exactly the
  result of the specification on the map from ids to files that the state stands for, and leaves
  a state that stands for the specification's map. This fixes every outcome: the order of the
  refusals, who gets which error, what a repeated upload returns, the order of a list, the
  counts of the deletes. (With an open task the old content may still be stored, and the upload
  is then refused with a conflict that the map does not explain.)
\<close>

theorem service_meets_spec:
  assumes "store_ok (L, St)" and "s3_dependable (client St)" and "quiet (L, St) codec valid w"
    and "\<And>i. upload_under uc = Some i \<Longrightarrow> i \<notin> live_ids (meta_st w)"
    and "run_case (wired_service n (L, St) k) x w uc = (out, w')"
  shows "spec_case (columns codec valid) k n (abs_files (L, St) w) uc = (out, abs_files (L, St) w') \<and>
         quiet (L, St) codec valid w'"
proof -
  let ?S = "\<lparr>media = map_repo (columns codec valid), maxUploadSizeBytes = k, maxListIDs = n\<rparr>" and ?F = "abs_files (L, St) w"
  have sim: "map_sim (L, St) codec valid w ?F" by (simp add: map_sim_def assms)
  obtain out' F' where spec: "spec_case (columns codec valid) k n ?F uc = (out', F')" by fastforce
  have "\<not> errors_Is e ErrIDConflict" if "columns codec valid m = Inl e" for m e
    using that by (auto simp: columns_def split: if_splits)
  then have "run_case ?S x ?F uc = (out', F')"
    using map_run_case [of ?S "columns codec valid" ?F x uc] quiet_keyed [OF assms(3)] spec by simp
  moreover have "agree (map_sim (L, St) codec valid) (run_case (wired_service n (L, St) k) x w uc) (run_case ?S x ?F uc)"
    by (rule run_case_sim [OF _ _ _ _ sim]) (use assms(4) in \<open>simp_all add: free_id_def world_live_def\<close>)
  ultimately show ?thesis using assms(5) spec by (simp add: map_sim_def)
qed

lemma demo_file:
  "quiet (demo_config F) (\<lambda>t. t div 1000 * 1000) (\<lambda>s. CHR 0x00 \<notin> set s)
     (demo_world (demo_db [demo_media 1 7] [] []) (demo_bucket [1] []))"
  "abs_files (demo_config F) (demo_world (demo_db [demo_media 1 7] [] []) (demo_bucket [1] [])) =
     [1 \<mapsto> (demo_media 1 7, demo_content)]"
  by (auto simp: quiet_def settings_def tidy_def world_defs world_live_def live_ids_def media_rows_def abs_files_def fun_eq_iff)

theorem service_meets_spec_witness:
  "fst (run_case (demo_service (\<lambda>_. False)) RequestCtx (demo_world (demo_db [demo_media 1 7] [] []) (demo_bucket [1] []))
     (Uploads 9 0 (demo_upload 8 (Some 1)))) = Failed ErrMediaIDConflict \<and>
   fst (run_case (demo_service (\<lambda>_. False)) RequestCtx (demo_world (demo_db [demo_media 1 7] [] []) (demo_bucket [1] []))
     (Lists 7 [2, 1, 2])) = Page [demo_media 1 7]"
proof -
  let ?w = "demo_world (demo_db [demo_media 1 7] [] []) (demo_bucket [1] [])"
  have step: "fst (run_case (demo_service (\<lambda>_. False)) RequestCtx ?w uc) =
      fst (spec_case (columns (\<lambda>t. t div 1000 * 1000) (\<lambda>s. CHR 0x00 \<notin> set s)) 1024 100
             [1 \<mapsto> (demo_media 1 7, demo_content)] uc)" for uc
    using service_meets_spec [OF mem_store_ok, of "\<lambda>_. False" _ _ ?w uc 100 1024 RequestCtx] mem_s3_dependable
      demo_file [of "\<lambda>_. False"]
    by (cases "run_case (demo_service (\<lambda>_. False)) RequestCtx ?w uc") (simp add: live_ids_def)
  show ?thesis unfolding step by (simp add: in_order_def mine_def)
qed

end
