(* ===== verification/Concurrent_Requests.thy ===== *)
theory Concurrent_Requests
  imports Concurrency Service_Spec
begin

text \<open>
  A download is two calls: the row from PostgreSQL, then the content from S3. Between them any
  request and any worker may run. What a download can then return, and when it goes wrong; who
  can make a row disappear; and what the retry of an upload gets while the first attempt is
  still under way. The runs are those of \<open>sys_step\<close>, with no condition on what happens in them.
\<close>

section \<open>The two halves of a download\<close>

text \<open>\<open>GetContent\<close> after the row has been read.\<close>

definition finish_download ::
    "uuid_lib \<Rightarrow> ('d, 's) Repository \<Rightarrow> ctx \<Rightarrow> ('d, 's) world \<Rightarrow> uuid \<Rightarrow> Media \<Rightarrow>
     (error + Media \<times> bytes) \<times> ('d, 's) world" where
  "finish_download L R x w mediaID m =
     (case bs_Get (blobs R) x (blob_st w) mediaID of
        (Inr content, s1) \<Rightarrow> (Inr (m, content), w\<lparr>blob_st := s1\<rparr>)
      | (Inl err, s1) \<Rightarrow>
          let w1 = w\<lparr>blob_st := s1\<rparr> in
          (case (errors_Is err ErrBlobNotFound, legacy R) of
             (True, Some readLegacy) \<Rightarrow>
               (case readLegacy x (meta_st w1) mediaID of
                  (Inl legacyErr, d2) \<Rightarrow>
                    if errors_Is legacyErr ErrBlobNotFound
                    then (Inl (OtherError (''media: media '' @ uuid_String L mediaID @
                            '' has no stored content in the blob store or the legacy table'')),
                          w1\<lparr>meta_st := d2\<rparr>)
                    else (Inl (Wrapped ''media: get legacy content'' legacyErr), w1\<lparr>meta_st := d2\<rparr>)
                | (Inr legacyContent, d2) \<Rightarrow> (Inr (m, legacyContent), w1\<lparr>meta_st := d2\<rparr>))
           | _ \<Rightarrow> (Inl (Wrapped ''media: get content'' err), w1)))"

lemma GetContent_halves:
  "Repository_GetContent L R x w u i =
     (case Repository_GetByID R x w u i of
        (Inl err, w1) \<Rightarrow> (Inl err, w1)
      | (Inr m, w1) \<Rightarrow> finish_download L R x w1 i m)"
  by (simp add: Repository_GetContent_def Repository_GetByID_def finish_download_def Let_def
      split: prod.split sum.split bool.split option.split)

section \<open>One version of a file\<close>

text \<open>
  What one step can do to the content of \<open>i\<close>: nothing, take it away, or put the bytes of an
  upload of \<open>i\<close> where there was none. It is never replaced by other content.
\<close>

definition stored_by_upload :: "uuid_lib \<Rightarrow> 's Store \<Rightarrow> uuid \<Rightarrow> bytes \<Rightarrow> 's sys \<Rightarrow> 's sys \<Rightarrow> bool" where
  "stored_by_upload L S i b st st' \<longleftrightarrow>
     request_step L S st st' \<and> (\<exists>m. Uploading m b \<in> set (sys_threads st) \<and> ID m = i) \<and>
     store_content (L, S) (sys_s3 st) i = None \<and> store_content (L, S) (sys_s3 st') i = Some b"

lemma store_delete_at:
  assumes "store_ok (L, S)" and "Store_Delete L S x s j = (r, s')" and "store_content (L, S) s' i = Some b"
  shows "store_content (L, S) s i = Some b"
proof -
  from store_delete_maybe [OF assms(1,2)] have "store_content (L, S) s' = store_content (L, S) s \<or>
      store_content (L, S) s' = (store_content (L, S) s)(j := None)" by (simp add: maybe_deleted_def)
  then show ?thesis using assms(3) by (elim disjE) (simp_all split: if_splits)
qed

lemma store_put_at:
  assumes "store_ok (L, S)" and "Store_Put L S x s j b' ct = (r, s')" and "store_content (L, S) s' i = Some b"
  shows "store_content (L, S) s i = Some b \<or> store_content (L, S) s i = None \<and> j = i \<and> b' = b"
proof -
  have "store_content (L, S) s' = store_content (L, S) s \<or>
      store_content (L, S) s j = None \<and> store_content (L, S) s' = (store_content (L, S) s)(j \<mapsto> b')"
    using Store_put_err [OF assms(1)] Store_put_ok [OF assms(1)] assms(2) by (cases r) blast+
  then show ?thesis using assms(3) by (elim disjE conjE) (simp_all split: if_splits)
qed

lemma sys_step_content:
  assumes "sys_step L S st st'" and ok: "store_ok (L, S)" and there: "store_content (L, S) (sys_s3 st') i = Some b"
  shows "store_content (L, S) (sys_s3 st) i = Some b \<or> stored_by_upload L S i b st st'"
proof -
  consider "request_step L S st st'" | "worker_step L S st st'" | "env_step st st'"
    using assms(1) unfolding sys_step_def code_step_def by blast
  then show ?thesis
  proof cases
    case 1
    then show ?thesis
    proof cases
      case (put ts m b' us x r s')
      with there have "store_content (L, S) s' i = Some b" by simp
      from store_put_at [OF ok put(3) this] show ?thesis
      proof (elim disjE conjE)
        assume "store_content (L, S) (sys_s3 st) i = None" "ID m = i" "b' = b"
        with 1 put(2) there have "stored_by_upload L S i b st st'" by (auto simp: stored_by_upload_def)
        then show ?thesis ..
      qed simp
    next
      case (cleanup ts j us x r s')
      with there store_delete_at [OF ok cleanup(3), of i b] show ?thesis by simp
    next
      case (blob ts j js us x r s')
      with there store_delete_at [OF ok blob(3), of i b] show ?thesis by simp
    qed (use there in simp_all)
  next
    case 2
    then show ?thesis
    proof cases
      case (work ts j us x s')
      with there store_delete_at [OF ok work(3), of i b] show ?thesis by simp
    next
      case (work_failed ts j us x e s')
      with there store_delete_at [OF ok work_failed(3), of i b] show ?thesis by simp
    qed (use there in simp_all)
  next
    case 3
    then have "sys_s3 st' = sys_s3 st" using env_step_frame by blast
    with there show ?thesis by simp
  qed
qed

lemma run_content:
  assumes "(sys_step L S)\<^sup>*\<^sup>* st st'" and "store_ok (L, S)" and "store_content (L, S) (sys_s3 st') i = Some b"
  shows "store_content (L, S) (sys_s3 st) i = Some b \<or>
         (\<exists>y z. (sys_step L S)\<^sup>*\<^sup>* st y \<and> stored_by_upload L S i b y z \<and> (sys_step L S)\<^sup>*\<^sup>* z st')"
  using assms(1,3)
proof (induction rule: converse_rtranclp_induct)
  case (step p q)
  from step.IH [OF step.prems] show ?case
  proof (elim disjE exE conjE)
    assume "store_content (L, S) (sys_s3 q) i = Some b"
    from sys_step_content [OF step(1) assms(2) this] step(2) show ?thesis by blast
  next
    fix y z
    assume "(sys_step L S)\<^sup>*\<^sup>* q y" "stored_by_upload L S i b y z" "(sys_step L S)\<^sup>*\<^sup>* z st'"
    with step(1) show ?thesis by (meson converse_rtranclp_into_rtranclp)
  qed
qed simp

lemma finish_cases:
  assumes "finish_download L' (wired_repo c) x w i m = (r, w')"
  obtains (found) b where "r = Inr (m, b)" "bs_Get (Store_iface c) x (blob_st w) i = (Inr b, blob_st w')"
  | (failed) e where "r = Inl (Wrapped ''media: get content'' e)" "bs_Get (Store_iface c) x (blob_st w) i = (Inl e, blob_st w')"
  using assms by (auto simp: finish_download_def Let_def split: prod.splits sum.splits bool.splits)

text \<open>
  Claim C8. A download is never a mixture. Between reading the row and reading the content any
  number of requests and workers may run, call by call, delete the file, upload any id, fail,
  lose replies or crash. A download that returns anything returns the caller's own row as it
  was stored when it was read, and for content either exactly the bytes that were stored then,
  or exactly the bytes of one upload under the same id that stored them in between, when the
  old content was gone. (The second does happen: \<open>download_torn_by_reupload\<close>.)
\<close>

theorem download_is_not_torn:
  assumes "store_ok (L, S)" and "db_inv (sys_db st1)"
    and "MediaRepository_GetByID x (sys_db st1) u i = (Inr m, d1)"
    and "(sys_step L S)\<^sup>*\<^sup>* (st1\<lparr>sys_db := d1\<rparr>) st2"
    and "finish_download L (wired_repo (L, S)) x \<lparr>meta_st = sys_db st2, blob_st = sys_s3 st2, logs = ls\<rparr> i m =
           (Inr (m', b), w')"
  shows "m' = m \<and> ID m = i \<and> UserID m = u \<and> media_rows (sys_db st1) i = Some m \<and>
         (store_content (L, S) (sys_s3 st1) i = Some b \<or>
          (\<exists>y z. (sys_step L S)\<^sup>*\<^sup>* (st1\<lparr>sys_db := d1\<rparr>) y \<and> stored_by_upload L S i b y z \<and> (sys_step L S)\<^sup>*\<^sup>* z st2))"
proof -
  from MediaRepository_GetByID_ok [OF assms(2,3)] have row: "media_rows (sys_db st1) i = Some m" "UserID m = u"
    by (simp_all add: visible_def)
  then have id: "ID m = i" using assms(2) by (simp add: media_rows_Some)
  from assms(5) show ?thesis
  proof (cases rule: finish_cases)
    case (found b')
    from s3_store.get_ok [OF assms(1) found(2)] have "store_content (L, S) (sys_s3 st2) i = Some b'" by simp
    from run_content [OF assms(4,1) this] found(1) row id show ?thesis by simp
  qed simp
qed

theorem download_is_not_torn_witness:
  "case finish_download mem_uuid (wired_repo (demo_config (\<lambda>_. True))) RequestCtx
     \<lparr>meta_st = snd (MediaRepository_Delete RequestCtx (demo_db [demo_media 1 7] [] []) 7 1),
      blob_st = demo_bucket [1] [], logs = []\<rparr> 1 (demo_media 1 7) of
     (Inr (m', b), w') \<Rightarrow> m' = demo_media 1 7 \<and> media_rows (demo_db [demo_media 1 7] [] []) 1 = Some m'
   | _ \<Rightarrow> False"
proof -
  let ?d = "demo_db [demo_media 1 7] [] []" and ?s = "demo_bucket [1] []" and ?c = "demo_config (\<lambda>_. True)"
  let ?d2 = "snd (MediaRepository_Delete RequestCtx ?d 7 1)"
  let ?w2 = "\<lparr>meta_st = ?d2, blob_st = ?s, logs = []\<rparr>"
  have get: "MediaRepository_GetByID RequestCtx (sys_db (at ?d ?s [])) 7 1 = (Inr (demo_media 1 7), ?d)"
    by (simp add: demo_run demo_media_def)
  have del: "MediaRepository_Delete RequestCtx ?d 7 1 = (Inr (), ?d2)" by (simp add: demo_run demo_media_def)
  have "request_step mem_uuid (mem_store (\<lambda>_. True)) (at ?d ?s []) (at ?d2 ?s [Deleting [1]])"
    using request_step.delete [of RequestCtx "at ?d ?s []" 7 1 "Inr ()" ?d2 mem_uuid "mem_store (\<lambda>_. True)"] del by simp
  then have "sys_step mem_uuid (mem_store (\<lambda>_. True)) (at ?d ?s []) (at ?d2 ?s [Deleting [1]])"
    by (simp add: sys_step_def code_step_def)
  then have run: "(sys_step mem_uuid (mem_store (\<lambda>_. True)))\<^sup>*\<^sup>* ((at ?d ?s [])\<lparr>sys_db := ?d\<rparr>) (at ?d2 ?s [Deleting [1]])"
    by simp
  obtain w' where fin: "finish_download mem_uuid (wired_repo ?c) RequestCtx ?w2 1 (demo_media 1 7) =
      (Inr (demo_media 1 7, demo_content), w')"
    by (simp add: finish_download_def demo_run)
  have fin': "finish_download mem_uuid (wired_repo ?c) RequestCtx
      \<lparr>meta_st = sys_db (at ?d2 ?s [Deleting [1]]), blob_st = sys_s3 (at ?d2 ?s [Deleting [1]]), logs = []\<rparr> 1 (demo_media 1 7) =
      (Inr (demo_media 1 7, demo_content), w')" using fin by simp
  from download_is_not_torn [OF mem_store_ok _ get run fin'] fin show ?thesis by simp
qed

text \<open>
  How the bytes of another upload get there: the owner reads the row; the file is deleted, content
  and all; another user uploads a file under the same id; and the owner's download goes on to
  return the other user's bytes with the owner's row.
\<close>

theorem download_torn_by_reupload:
  "fst (finish_download mem_uuid (wired_repo (demo_config (\<lambda>_. False))) RequestCtx
     (snd (Repository_Create (wired_repo (demo_config (\<lambda>_. False))) RequestCtx
        (snd (Repository_Delete (wired_repo (demo_config (\<lambda>_. False))) RequestCtx
           (snd (Repository_GetByID (wired_repo (demo_config (\<lambda>_. False))) RequestCtx
              (demo_world (demo_db [demo_media 1 7] [] []) (demo_bucket [1] [])) 7 1)) 7 1))
        (demo_media 1 8) [1, 2])) 1 (demo_media 1 7)) = Inr (demo_media 1 7, [1, 2])"
  by (simp add: finish_download_def demo_run demo_media_def New_def)

section \<open>Who makes a file disappear\<close>

text \<open>A delete statement of \<open>u\<close> takes \<open>i\<close>'s row out of \<open>d\<close>.\<close>

definition deleted_by :: "uuid \<Rightarrow> uuid \<Rightarrow> db \<Rightarrow> db \<Rightarrow> bool" where
  "deleted_by u i d d' \<longleftrightarrow>
     media_rows d' i = None \<and>
     (\<exists>x. (\<exists>r. MediaRepository_Delete x d u i = (r, d')) \<or>
          (\<exists>ids r. i \<in> set ids \<and> MediaRepository_DeleteByIDs x d u ids = (r, d')) \<or>
          (\<exists>r. MediaRepository_DeleteAllByUser x d u = (r, d')))"

lemma request_step_row:
  assumes "request_step L S st st'" and inv: "db_inv (sys_db st)" and row: "media_rows (sys_db st) i = Some m"
  shows "media_rows (sys_db st') i = Some m \<or> deleted_by (UserID m) i (sys_db st) (sys_db st')"
proof -
  have removed: "D \<subseteq> owned_ids (media_rows (sys_db st)) u \<Longrightarrow> media_rows d' = removed (media_rows (sys_db st)) D \<Longrightarrow>
      media_rows d' i = Some m \<or> media_rows d' i = None \<and> i \<in> D \<and> u = UserID m" for D u d'
    using row by (auto simp: removed_def owned_ids_def)
  from assms(1) show ?thesis
  proof cases
    case (insert_ok ts m' b us x d')
    from media_table.create_ok [OF inv, unfolded iface_simps, OF insert_ok(3)] row insert_ok(1)
    show ?thesis by (auto simp: inserted_def)
  next
    case (insert_failed ts m' b us x e d')
    from media_table.create_err [OF inv, unfolded iface_simps, OF insert_failed(3)] row insert_failed(1)
    show ?thesis by (auto simp: inserted_def)
  next
    case (delete x u j r d')
    from media_table.delete_all_or_nothing [OF inv, unfolded iface_simps, OF delete(2)] obtain D where
      D: "D \<subseteq> {j} \<inter> owned_ids (media_rows (sys_db st)) u" "media_rows d' = removed (media_rows (sys_db st)) D" by blast
    from D(1) have "i \<in> D \<longrightarrow> j = i" by blast
    with removed [of D u d'] D delete show ?thesis unfolding deleted_by_def by auto
  next
    case (delete_ids x u ids r d')
    from media_table.delete_ids_all_or_nothing [OF inv, unfolded iface_simps, OF delete_ids(2)] obtain D where
      D: "D \<subseteq> set ids \<inter> owned_ids (media_rows (sys_db st)) u" "media_rows d' = removed (media_rows (sys_db st)) D" by blast
    from D(1) have "i \<in> D \<longrightarrow> i \<in> set ids" by blast
    with removed [of D u d'] D delete_ids show ?thesis unfolding deleted_by_def by simp blast
  next
    case (delete_user x u r d')
    from media_table.delete_user_all_or_nothing [OF inv, unfolded iface_simps, OF delete_user(2)] obtain D where
      D: "D \<subseteq> owned_ids (media_rows (sys_db st)) u" "media_rows d' = removed (media_rows (sys_db st)) D" by blast
    from removed [of D u d'] D delete_user show ?thesis by (auto simp: deleted_by_def)
  qed (use row in simp_all)
qed

lemma sys_step_row:
  assumes "sys_step L S st st'" and "db_inv (sys_db st)" and "media_rows (sys_db st) i = Some m"
  shows "media_rows (sys_db st') i = Some m \<or> deleted_by (UserID m) i (sys_db st) (sys_db st')"
  using assms request_step_row worker_step_frame env_step_frame unfolding sys_step_def code_step_def by metis

lemma sys_run_row:
  assumes "(sys_step L S)\<^sup>*\<^sup>* st st'" and "db_inv (sys_db st)" and "media_rows (sys_db st) i = Some m"
  shows "db_inv (sys_db st') \<and>
         (media_rows (sys_db st') i = Some m \<or>
          (\<exists>y z. (sys_step L S)\<^sup>*\<^sup>* st y \<and> sys_step L S y z \<and> (sys_step L S)\<^sup>*\<^sup>* z st' \<and>
                 deleted_by (UserID m) i (sys_db y) (sys_db z)))"
  using assms(1)
proof (induction rule: rtranclp_induct)
  case (step y z)
  then have inv: "db_inv (sys_db y)" and inv': "db_inv (sys_db z)" using sys_step_db_inv by blast+
  from step.IH have "media_rows (sys_db y) i = Some m \<or>
      (\<exists>p q. (sys_step L S)\<^sup>*\<^sup>* st p \<and> sys_step L S p q \<and> (sys_step L S)\<^sup>*\<^sup>* q y \<and> deleted_by (UserID m) i (sys_db p) (sys_db q))"
    by blast
  then show ?case
  proof (elim disjE exE conjE)
    assume row: "media_rows (sys_db y) i = Some m"
    from sys_step_row [OF step(2) inv row] step(1,2) inv' show ?thesis by blast
  next
    fix p q
    assume "(sys_step L S)\<^sup>*\<^sup>* st p" "sys_step L S p q" "(sys_step L S)\<^sup>*\<^sup>* q y" "deleted_by (UserID m) i (sys_db p) (sys_db q)"
    with step(2) inv' show ?thesis by (meson rtranclp.rtrancl_into_rtrancl)
  qed
qed (use assms(2,3) in simp)

text \<open>
  Claim C9. A row disappears only by its owner's deletion, whatever else is going on: in every
  interleaved run of requests and workers, with failures, lost replies, crashes and uploads of
  any ids, a media row stays exactly as it is until a delete statement is run for its owner that
  covers its id (a delete of this id, of a list with it, or of all the owner's files). This is
  about the row; its content is the subject of the storage contract.
\<close>

theorem only_owner_deletes:
  assumes "db_inv (sys_db st)" and "media_rows (sys_db st) i = Some m" and "(sys_step L S)\<^sup>*\<^sup>* st st'"
  shows "media_rows (sys_db st') i = Some m \<or>
         (\<exists>y z. (sys_step L S)\<^sup>*\<^sup>* st y \<and> sys_step L S y z \<and> (sys_step L S)\<^sup>*\<^sup>* z st' \<and>
                deleted_by (UserID m) i (sys_db y) (sys_db z))"
  using sys_run_row [OF assms(3,1,2)] by blast

theorem only_owner_deletes_witness:
  "case Repository_DeleteAllByUser (wired_repo (demo_config (\<lambda>_. False))) RequestCtx
          (demo_world (demo_db [demo_media 1 7, demo_media 2 8] [] []) (demo_bucket [1, 2] [])) 8 of (r, w') \<Rightarrow>
     media_rows (meta_st w') 1 = Some (demo_media 1 7) \<or>
     (\<exists>y z. (sys_step mem_uuid (mem_store (\<lambda>_. False)))\<^sup>*\<^sup>*
              (at (demo_db [demo_media 1 7, demo_media 2 8] [] []) (demo_bucket [1, 2] []) []) y \<and>
            sys_step mem_uuid (mem_store (\<lambda>_. False)) y z \<and>
            (sys_step mem_uuid (mem_store (\<lambda>_. False)))\<^sup>*\<^sup>* z (at (meta_st w') (blob_st w') []) \<and>
            deleted_by 7 1 (sys_db y) (sys_db z))"
proof -
  let ?d = "demo_db [demo_media 1 7, demo_media 2 8] [] []" and ?s = "demo_bucket [1, 2] []"
  let ?st = "at ?d ?s []" and ?c = "demo_config (\<lambda>_. False)"
  obtain r w' where del: "Repository_DeleteAllByUser (wired_repo ?c) RequestCtx (demo_world ?d ?s) 8 = (r, w')" by fastforce
  have "(request_step mem_uuid (mem_store (\<lambda>_. False)))\<^sup>*\<^sup>* ?st (at (meta_st w') (blob_st w') [])"
    using delete_runs [of mem_uuid "mem_store (\<lambda>_. False)" RequestCtx "demo_world ?d ?s" 8 0 _ w' "[]" r "[]"] del by simp
  then have run: "(sys_step mem_uuid (mem_store (\<lambda>_. False)))\<^sup>*\<^sup>* ?st (at (meta_st w') (blob_st w') [])"
    by (rule request_run_sys)
  have "db_inv ?d" by simp
  moreover have "media_rows ?d 1 = Some (demo_media 1 7)" by (simp add: media_rows_def)
  ultimately show ?thesis
    using only_owner_deletes [OF _ _ run, of 1 "demo_media 1 7"] del by simp
qed

section \<open>A retry during an upload\<close>

text \<open>
  The client-chosen id is to make a retry safe, but not while the first attempt is under way:
  once its content is stored and until its row is, the same user's retry with the same id is
  answered as a conflict with another user's upload; then the row is inserted, and it is theirs.
\<close>

theorem retry_during_upload_refused:
  assumes "store_ok (L, S)" and "s3_dependable (client S)" and "db_inv (sys_db st)" and "ainv (abs_sys (L, S) st)"
    and "Inserting m b \<in> set (sys_threads st)" and faults: "db_faults (sys_db st) = []"
    and inp: "in_ClientMediaID inp = Some (ID m)" "in_UserID inp = UserID m"
    and "int (length (in_Content inp)) \<le> k"
    and "canonicalContentType (in_OriginalFilename inp) (in_Content inp) = Inr ct"
  shows "fst (Service_Upload (wired_service n (L, S) k) fresh now x
               \<lparr>meta_st = sys_db st, blob_st = sys_s3 st, logs = ls\<rparr> inp) = Inl ErrMediaIDConflict"
    and "MediaRepository_Create y (sys_db st) m = (Inr (), d') \<Longrightarrow> \<exists>row. visible (media_rows d') (UserID m) (ID m) row"
proof -
  from ainvD(3) [OF assms(4), of "Inserting m b"] assms(5) have th: "thread_ok (abs_sys (L, S) st) (Inserting m b)" by simp
  then have c: "store_content (L, S) (sys_s3 st) (ID m) = Some b" and no: "media_rows (sys_db st) (ID m) = None" by simp_all
  let ?new = "New now (ID m) (UserID m) (in_OriginalFilename inp) ct (int (length (in_Content inp)))"
  from dependable_put(2) [OF assms(2) c] obtain s1 where
    put: "Store_Put L S x (sys_s3 st) (ID ?new) (in_Content inp) (ContentType ?new) = (Inl ErrBlobAlreadyExists, s1)"
    by fastforce
  have get: "MediaRepository_GetByID x (sys_db st) (UserID m) (ID m) = (Inl ErrNotFound, sys_db st)"
    using GetByID_exact [OF assms(3) faults] no by simp
  show "fst (Service_Upload (wired_service n (L, S) k) fresh now x
      \<lparr>meta_st = sys_db st, blob_st = sys_s3 st, logs = ls\<rparr> inp) = Inl ErrMediaIDConflict"
    using put get assms(9,10) inp
    by (simp add: Service_Upload_def iface_simps Repository_Create_def Repository_GetByID_def)
  show "\<exists>row. visible (media_rows d') (UserID m) (ID m) row" if "MediaRepository_Create y (sys_db st) m = (Inr (), d')"
    using media_table.create_ok [OF assms(3), unfolded iface_simps, OF that]
    by (auto simp: inserted_def same_file_def visible_def)
qed

end
