(* ===== verification/Go_Url.thy ===== *)
theory Go_Url
  imports Go_Std
begin

text \<open>
  The part of Go's \<^verbatim>\<open>net/url\<close> that \<^verbatim>\<open>cmd/dbclear\<close> relies on to print a connection string without
  its credentials: \<^verbatim>\<open>url.Parse\<close>, and \<^verbatim>\<open>String\<close> of a URL whose \<open>User\<close> has been set to nil. The
  recognition of hosts (IP literals, zones, ports) differs between Go releases; it is the
  parameter \<open>parseHost\<close>, a function of the scheme and the host.
\<close>

section \<open>Percent encoding\<close>

datatype encoding = encodePath | encodeUserPassword | encodeHost | encodeFragment

definition alphanumeric :: "char \<Rightarrow> bool" where
  "alphanumeric c \<longleftrightarrow>
     97 \<le> code c \<and> code c \<le> 122 \<or> 65 \<le> code c \<and> code c \<le> 90 \<or> 48 \<le> code c \<and> code c \<le> 57"

definition shouldEscape :: "char \<Rightarrow> encoding \<Rightarrow> bool" where
  "shouldEscape c mode =
     (if alphanumeric c then False
      else if mode = encodeHost \<and> c \<in> set ''!$&'()*+,;=:[]<>'' \<union> {CHR 0x22} then False
      else if c \<in> set ''-_.~'' then False
      else if c \<in> set ''$&+,/:;=?@'' \<and> mode \<noteq> encodeHost then
        (case mode of
           encodePath \<Rightarrow> c = CHR ''?''
         | encodeUserPassword \<Rightarrow> c \<in> set ''@/?:''
         | _ \<Rightarrow> False)
      else if mode = encodeFragment \<and> c \<in> set ''!()*'' then False
      else True)"

definition ishex :: "char \<Rightarrow> bool" where
  "ishex c \<longleftrightarrow>
     48 \<le> code c \<and> code c \<le> 57 \<or> 97 \<le> code c \<and> code c \<le> 102 \<or> 65 \<le> code c \<and> code c \<le> 70"

definition unhex :: "char \<Rightarrow> nat" where
  "unhex c = (if code c \<le> 57 then code c - 48 else if 97 \<le> code c then code c - 87 else code c - 55)"

definition upperhex :: "nat \<Rightarrow> char" where
  "upperhex n = char_of (if n < 10 then 48 + n else 55 + n)"

text \<open>\<open>None\<close> is an escape or host error.\<close>

fun unescape :: "encoding \<Rightarrow> string \<Rightarrow> string option" where
  "unescape mode [] = Some []"
| "unescape mode (c # s) =
     (if c = CHR ''%'' then
        (case s of
           a # b # s' \<Rightarrow>
             if \<not> ishex a \<or> \<not> ishex b then None
             else if mode = encodeHost \<and> unhex a < 8 \<and> \<not> (a = CHR ''2'' \<and> b = CHR ''5'') then None
             else map_option (Cons (char_of (unhex a * 16 + unhex b))) (unescape mode s')
         | _ \<Rightarrow> None)
      else if mode = encodeHost \<and> code c < 128 \<and> shouldEscape c mode then None
      else map_option (Cons c) (unescape mode s))"

definition escape :: "encoding \<Rightarrow> string \<Rightarrow> string" where
  "escape mode s =
     concat (map (\<lambda>c. if shouldEscape c mode
                       then [CHR ''%'', upperhex (code c div 16), upperhex (code c mod 16)] else [c]) s)"

definition validEncoded :: "encoding \<Rightarrow> string \<Rightarrow> bool" where
  "validEncoded mode s \<longleftrightarrow>
     list_all (\<lambda>c. c \<in> set ''!$&'()*+,;=:@[]%'' \<or> \<not> shouldEscape c mode) s"

section \<open>URLs\<close>

record Userinfo =
  username :: string
  password :: "string option"

record URL =
  Scheme :: string
  Opaque :: string
  User :: "Userinfo option"
  Host :: string
  Path :: string
  RawPath :: string
  OmitHost :: bool
  ForceQuery :: bool
  RawQuery :: string
  Fragment :: string
  RawFragment :: string

definition empty_URL :: URL where
  "empty_URL = \<lparr> Scheme = [], Opaque = [], User = None, Host = [], Path = [], RawPath = [], OmitHost = False,
     ForceQuery = False, RawQuery = [], Fragment = [], RawFragment = [] \<rparr>"

text \<open>\<^verbatim>\<open>strings.Cut\<close> at a character, and a split at its last occurrence.\<close>

definition Cut :: "char \<Rightarrow> string \<Rightarrow> string \<times> string" where
  "Cut c s = (takeWhile (\<lambda>x. x \<noteq> c) s, drop 1 (dropWhile (\<lambda>x. x \<noteq> c) s))"

definition split_last :: "char \<Rightarrow> string \<Rightarrow> (string \<times> string) option" where
  "split_last c s =
     (case dropWhile (\<lambda>x. x \<noteq> c) (rev s) of
        [] \<Rightarrow> None
      | _ # before \<Rightarrow> Some (rev before, rev (takeWhile (\<lambda>x. x \<noteq> c) (rev s))))"

definition ctl_byte :: "char \<Rightarrow> bool" where
  "ctl_byte c \<longleftrightarrow> code c < 32 \<or> code c = 127"

definition letter :: "char \<Rightarrow> bool" where
  "letter c \<longleftrightarrow> 97 \<le> code c \<and> code c \<le> 122 \<or> 65 \<le> code c \<and> code c \<le> 90"

definition scheme_other :: "char \<Rightarrow> bool" where
  "scheme_other c \<longleftrightarrow> 48 \<le> code c \<and> code c \<le> 57 \<or> c \<in> set ''+-.''"

fun getScheme :: "string \<Rightarrow> string \<Rightarrow> string \<Rightarrow> (string \<times> string) option" where
  "getScheme rawURL scheme [] = Some ([], rawURL)"
| "getScheme rawURL scheme (c # cs) =
     (if letter c then getScheme rawURL (scheme @ [c]) cs
      else if scheme_other c then
        (if scheme = [] then Some ([], rawURL) else getScheme rawURL (scheme @ [c]) cs)
      else if c = CHR '':'' then (if scheme = [] then None else Some (scheme, cs))
      else Some ([], rawURL))"

definition validUserinfo :: "string \<Rightarrow> bool" where
  "validUserinfo s \<longleftrightarrow> list_all (\<lambda>c. alphanumeric c \<or> c \<in> set ''-._:~!$&'()*+,;=%@'') s"

definition parseUserinfo :: "string \<Rightarrow> Userinfo option" where
  "parseUserinfo s =
     (if \<not> validUserinfo s then None
      else if CHR '':'' \<notin> set s then
        map_option (\<lambda>u. \<lparr> username = u, password = None \<rparr>) (unescape encodeUserPassword s)
      else case Cut (CHR '':'') s of (u, p) \<Rightarrow>
        (case unescape encodeUserPassword u of
           None \<Rightarrow> None
         | Some u' \<Rightarrow>
             map_option (\<lambda>p'. \<lparr> username = u', password = Some p' \<rparr>) (unescape encodeUserPassword p)))"

definition parseAuthority ::
    "(string \<Rightarrow> string \<Rightarrow> string option) \<Rightarrow> string \<Rightarrow> string \<Rightarrow> (Userinfo option \<times> string) option" where
  "parseAuthority parseHost scheme authority =
     (case split_last (CHR ''@'') authority of
        None \<Rightarrow> map_option (Pair None) (parseHost scheme authority)
      | Some (userinfo, host) \<Rightarrow>
          (case parseHost scheme host of
             None \<Rightarrow> None
           | Some h \<Rightarrow> map_option (\<lambda>u. (Some u, h)) (parseUserinfo userinfo)))"

text \<open>The path or fragment, and its raw form when the default encoding would differ.\<close>

definition set_encoded :: "encoding \<Rightarrow> string \<Rightarrow> (string \<times> string) option" where
  "set_encoded mode p =
     map_option (\<lambda>path. (path, if p = escape mode path then [] else p)) (unescape mode p)"

definition setPath :: "string \<Rightarrow> URL \<Rightarrow> URL option" where
  "setPath p url =
     map_option (\<lambda>(path, raw). url\<lparr>Path := path, RawPath := raw\<rparr>) (set_encoded encodePath p)"

definition setFragment :: "string \<Rightarrow> URL \<Rightarrow> URL option" where
  "setFragment f url =
     map_option (\<lambda>(fr, raw). url\<lparr>Fragment := fr, RawFragment := raw\<rparr>) (set_encoded encodeFragment f)"

definition cut_query :: "string \<Rightarrow> URL \<Rightarrow> string \<times> URL" where
  "cut_query rest url =
     (if rest \<noteq> [] \<and> last rest = CHR ''?'' \<and> CHR ''?'' \<notin> set (butlast rest)
      then (butlast rest, url\<lparr>ForceQuery := True\<rparr>)
      else case Cut (CHR ''?'') rest of (before, q) \<Rightarrow> (before, url\<lparr>RawQuery := q\<rparr>))"

definition parse_hier ::
    "(string \<Rightarrow> string \<Rightarrow> string option) \<Rightarrow> string \<Rightarrow> URL \<Rightarrow> URL option" where
  "parse_hier parseHost rest url =
     (if (Scheme url \<noteq> [] \<or> \<not> HasPrefix rest ''///'') \<and> HasPrefix rest ''//'' then
        (let authority = takeWhile (\<lambda>c. c \<noteq> CHR ''/'') (drop 2 rest);
             path = dropWhile (\<lambda>c. c \<noteq> CHR ''/'') (drop 2 rest)
         in case parseAuthority parseHost (Scheme url) authority of
              None \<Rightarrow> None
            | Some (u, h) \<Rightarrow> setPath path (url\<lparr>User := u, Host := h\<rparr>))
      else setPath rest (if Scheme url \<noteq> [] \<and> HasPrefix rest ''/'' then url\<lparr>OmitHost := True\<rparr> else url))"

definition parse :: "(string \<Rightarrow> string \<Rightarrow> string option) \<Rightarrow> string \<Rightarrow> URL option" where
  "parse parseHost rawURL =
     (if list_ex ctl_byte rawURL then None
      else if rawURL = ''*'' then Some (empty_URL\<lparr>Path := ''*''\<rparr>)
      else case getScheme rawURL [] rawURL of
        None \<Rightarrow> None
      | Some (scheme, after) \<Rightarrow>
          (case cut_query after (empty_URL\<lparr>Scheme := ToLower scheme\<rparr>) of (rest, url) \<Rightarrow>
           if \<not> HasPrefix rest ''/'' then
             if Scheme url \<noteq> [] then Some (url\<lparr>Opaque := rest\<rparr>)
             else if CHR '':'' \<in> set (fst (Cut (CHR ''/'') rest)) then None
             else parse_hier parseHost rest url
           else parse_hier parseHost rest url))"

definition url_Parse :: "(string \<Rightarrow> string \<Rightarrow> string option) \<Rightarrow> string \<Rightarrow> URL option" where
  "url_Parse parseHost rawURL =
     (case Cut (CHR ''#'') rawURL of (u, frag) \<Rightarrow>
      case parse parseHost u of
        None \<Rightarrow> None
      | Some url \<Rightarrow> if frag = [] then Some url else setFragment frag url)"

definition escaped :: "encoding \<Rightarrow> string \<Rightarrow> string \<Rightarrow> string" where
  "escaped mode path raw =
     (if raw \<noteq> [] \<and> validEncoded mode raw \<and> unescape mode raw = Some path then raw
      else if mode = encodePath \<and> path = ''*'' then ''*''
      else escape mode path)"

text \<open>\<^verbatim>\<open>String\<close> of a URL without \<open>User\<close>.\<close>

definition URL_String :: "URL \<Rightarrow> string" where
  "URL_String u =
     (let scheme = (if Scheme u \<noteq> [] then Scheme u @ '':'' else []);
          host = (if (Scheme u \<noteq> [] \<or> Host u \<noteq> []) \<and> \<not> (OmitHost u \<and> Host u = [])
                  then (if Host u \<noteq> [] \<or> Path u \<noteq> [] then ''//'' else []) @ escape encodeHost (Host u)
                  else []);
          path = escaped encodePath (Path u) (RawPath u);
          slash = (if path \<noteq> [] \<and> hd path \<noteq> CHR ''/'' \<and> Host u \<noteq> [] then ''/'' else []);
          dot = (if scheme @ host @ slash = [] \<and> CHR '':'' \<in> set (fst (Cut (CHR ''/'') path)) then ''./'' else [])
      in scheme @ (if Opaque u \<noteq> [] then Opaque u else host @ slash @ dot @ path) @
         (if ForceQuery u \<or> RawQuery u \<noteq> [] then ''?'' @ RawQuery u else []) @
         (if Fragment u \<noteq> [] then ''#'' @ escaped encodeFragment (Fragment u) (RawFragment u) else []))"

section \<open>Lemmas\<close>

text \<open>A scheme as RFC 3986 has it.\<close>

definition is_scheme :: "string \<Rightarrow> bool" where
  "is_scheme s \<longleftrightarrow> s \<noteq> [] \<and> letter (hd s) \<and> list_all (\<lambda>c. letter c \<or> scheme_other c) s"

lemma getScheme_append:
  "list_all (\<lambda>c. letter c \<or> scheme_other c) s \<Longrightarrow> acc \<noteq> [] \<Longrightarrow>
   getScheme raw acc (s @ CHR '':'' # t) = Some (acc @ s, t)"
  by (induction s arbitrary: acc) (auto simp: letter_def scheme_other_def code_def)

lemma getScheme_scheme:
  assumes "is_scheme s"
  shows "getScheme raw [] (s @ CHR '':'' # t) = Some (s, t)"
  using assms getScheme_append [of "tl s" "[hd s]" raw t] by (cases s) (auto simp: is_scheme_def)

lemma is_scheme_chars: "is_scheme s \<Longrightarrow> c \<in> set s \<Longrightarrow> c \<notin> set ''#?/@*:''"
  by (auto simp: is_scheme_def list_all_iff letter_def scheme_other_def code_def)

lemma ToLower_Nil_iff [simp]: "ToLower s = [] \<longleftrightarrow> s = []"
  by (subst ToLower.simps) (simp split: list.splits)

lemma scan_append:
  assumes "c \<notin> set s"
  shows "takeWhile (\<lambda>x. x \<noteq> c) (s @ t) = s @ takeWhile (\<lambda>x. x \<noteq> c) t"
    and "dropWhile (\<lambda>x. x \<noteq> c) (s @ t) = dropWhile (\<lambda>x. x \<noteq> c) t"
  using assms by (induction s) auto

lemma split_last_append:
  "c \<notin> set t \<Longrightarrow> split_last c (s @ c # t) = Some (s, t)"
  by (simp add: split_last_def scan_append)

lemma split_last_None: "c \<notin> set s \<Longrightarrow> split_last c s = None"
  using scan_append(2) [of c "rev s" "[]"] by (simp add: split_last_def del: dropWhile_eq_Nil_conv)

lemma Cut_append: "c \<notin> set s \<Longrightarrow> Cut c (s @ t) = (s @ fst (Cut c t), snd (Cut c t))"
  by (simp add: Cut_def scan_append)

text \<open>
  The parts of an authority: an unreadable \<open>userinfo\<close> is an error, any other only sets \<open>User\<close>.
\<close>

lemma parseAuthority_userinfo:
  assumes "CHR ''@'' \<notin> set h"
  shows "parseAuthority ph s (ui @ CHR ''@'' # h) = None \<or>
         map_option snd (parseAuthority ph s (ui @ CHR ''@'' # h)) = map_option snd (parseAuthority ph s h)"
  using assms
  by (auto simp: parseAuthority_def split_last_append split_last_None split: option.splits)

lemma map_option_comp2: "map_option f (map_option g x) = map_option (\<lambda>y. f (g y)) x"
  by (cases x) auto

lemma setPath_User: "map_option (User_update (\<lambda>_. None)) (setPath p url) = setPath p (url\<lparr>User := None\<rparr>)"
  by (auto simp: setPath_def map_option_comp2 split: prod.splits intro!: arg_cong2 [of _ _ _ _ map_option])

lemma setFragment_User:
  "map_option (User_update (\<lambda>_. None)) (setFragment f url) = setFragment f (url\<lparr>User := None\<rparr>)"
  by (auto simp: setFragment_def map_option_comp2 split: prod.splits intro!: arg_cong2 [of _ _ _ _ map_option])

definition with_fragment :: "string \<Rightarrow> URL option \<Rightarrow> URL option" where
  "with_fragment f p = (case p of None \<Rightarrow> None | Some url \<Rightarrow> if f = [] then Some url else setFragment f url)"

lemma with_fragment_User:
  "map_option (User_update (\<lambda>_. None)) p = map_option (User_update (\<lambda>_. None)) q \<Longrightarrow>
   map_option (User_update (\<lambda>_. None)) (with_fragment f p) = map_option (User_update (\<lambda>_. None)) (with_fragment f q)"
  by (cases p; cases q) (simp_all add: with_fragment_def setFragment_User)

lemma parse_hier_userinfo:
  assumes "CHR ''/'' \<notin> set ui" and "CHR ''@'' \<notin> set (takeWhile (\<lambda>c. c \<noteq> CHR ''/'') r)" and "Scheme url \<noteq> []"
  shows "parse_hier ph (''//'' @ ui @ CHR ''@'' # r) url = None \<or>
         map_option (User_update (\<lambda>_. None)) (parse_hier ph (''//'' @ ui @ CHR ''@'' # r) url) =
         map_option (User_update (\<lambda>_. None)) (parse_hier ph (''//'' @ r) url)"
proof -
  let ?a = "takeWhile (\<lambda>c. c \<noteq> CHR ''/'') r"
  have t: "takeWhile (\<lambda>c. c \<noteq> CHR ''/'') (ui @ CHR ''@'' # r) = ui @ CHR ''@'' # ?a"
    and d: "dropWhile (\<lambda>c. c \<noteq> CHR ''/'') (ui @ CHR ''@'' # r) = dropWhile (\<lambda>c. c \<noteq> CHR ''/'') r"
    using assms(1) by (simp_all add: scan_append)
  show ?thesis
    using parseAuthority_userinfo [OF assms(2), of ph "Scheme url" ui] assms(3)
    by (auto simp: parse_hier_def HasPrefix_def Let_def t d setPath_User split: option.splits)
qed

lemma cut_query_append:
  assumes "CHR ''?'' \<notin> set p" and "p \<noteq> []"
  shows "cut_query (p @ r) url = (p @ fst (cut_query r url), snd (cut_query r url))"
proof (cases "r = []")
  case True
  have "last p \<noteq> CHR ''?''" using assms last_in_set by metis
  then show ?thesis using True assms Cut_append [of "CHR ''?''" p "[]"] by (simp add: cut_query_def Cut_def)
next
  case False
  then show ?thesis using assms by (simp add: cut_query_def butlast_append Cut_append split: prod.splits)
qed

lemma cut_query_fst: "set (takeWhile P (fst (cut_query r url))) \<subseteq> set (takeWhile P r)" for P
proof -
  have "\<exists>t. r = fst (cut_query r url) @ t"
    by (auto simp: cut_query_def Cut_def split: prod.splits
        intro: exI [of _ "[last r]"] append_butlast_last_id [symmetric] takeWhile_dropWhile_id [symmetric])
  then obtain t where "r = fst (cut_query r url) @ t" ..
  then have "takeWhile P r = takeWhile P (fst (cut_query r url) @ t)" by simp
  then show ?thesis by (auto simp: takeWhile_append dest: set_takeWhileD)
qed

lemma cut_query_Scheme [simp]: "Scheme (snd (cut_query r url)) = Scheme url"
  by (simp add: cut_query_def split: prod.splits)

lemma parse_userinfo:
  assumes "is_scheme s" and "set ui \<inter> set ''/?'' = {}" and "CHR ''@'' \<notin> set (takeWhile (\<lambda>c. c \<noteq> CHR ''/'') r)"
  shows "parse ph (s @ ''://'' @ ui @ ''@'' @ r) = None \<or>
         map_option (User_update (\<lambda>_. None)) (parse ph (s @ ''://'' @ ui @ ''@'' @ r)) =
         map_option (User_update (\<lambda>_. None)) (parse ph (s @ ''://'' @ r))"
proof -
  let ?u = "empty_URL\<lparr>Scheme := ToLower s\<rparr>"
  obtain rest url where c: "cut_query r ?u = (rest, url)" by fastforce
  have q1: "cut_query (''//'' @ r) ?u = (''//'' @ rest, url)"
    using cut_query_append [of "''//''" r ?u] c by simp
  have q2: "cut_query (''//'' @ ui @ ''@'' @ r) ?u = (''//'' @ ui @ ''@'' @ rest, url)"
    using cut_query_append [of "''//'' @ ui @ ''@''" r ?u] c assms(2) by simp
  have ns: "Scheme url \<noteq> []" using cut_query_Scheme [of r ?u] c assms(1) by (simp add: is_scheme_def)
  have at: "CHR ''@'' \<notin> set (takeWhile (\<lambda>c. c \<noteq> CHR ''/'') rest)"
    using cut_query_fst [of "\<lambda>c. c \<noteq> CHR ''/''" r ?u] c assms(3) by auto
  have star: "s @ CHR '':'' # t \<noteq> ''*''" for t using assms(1) by (cases s) (auto simp: is_scheme_def)
  have p: "parse ph (s @ '':'' @ t) =
      (if list_ex ctl_byte (s @ '':'' @ t) then None else parse_hier ph (fst (cut_query t ?u)) (snd (cut_query t ?u)))"
    if "HasPrefix (fst (cut_query t ?u)) ''/''" for t
    using that star by (cases "cut_query t ?u") (simp add: parse_def getScheme_scheme [OF assms(1)])
  have "parse ph (s @ ''://'' @ r) =
      (if list_ex ctl_byte (s @ ''://'' @ r) then None else parse_hier ph (''//'' @ rest) url)"
    using p [of "''//'' @ r"] q1 by (simp add: HasPrefix_def)
  moreover have "parse ph (s @ ''://'' @ ui @ ''@'' @ r) =
      (if list_ex ctl_byte (s @ ''://'' @ ui @ ''@'' @ r) then None else parse_hier ph (''//'' @ ui @ ''@'' @ rest) url)"
    using p [of "''//'' @ ui @ ''@'' @ r"] q2 by (simp add: HasPrefix_def)
  ultimately show ?thesis
    using parse_hier_userinfo [OF _ at ns, of ui ph] assms(2) by auto
qed

text \<open>A URL with credentials is rejected, or it is the URL without them but for \<open>User\<close>.\<close>

lemma url_Parse_userinfo:
  assumes "is_scheme s" and "set ui \<inter> set ''/?#'' = {}"
    and "CHR ''@'' \<notin> set (takeWhile (\<lambda>c. c \<notin> set ''/#'') r)"
  shows "url_Parse ph (s @ ''://'' @ ui @ ''@'' @ r) = None \<or>
         map_option (User_update (\<lambda>_. None)) (url_Parse ph (s @ ''://'' @ ui @ ''@'' @ r)) =
         map_option (User_update (\<lambda>_. None)) (url_Parse ph (s @ ''://'' @ r))"
proof -
  obtain r' frag where c: "Cut (CHR ''#'') r = (r', frag)" by fastforce
  have s: "CHR ''#'' \<notin> set s" using is_scheme_chars [OF assms(1), of "CHR ''#''"] by auto
  have c1: "Cut (CHR ''#'') (s @ ''://'' @ r) = (s @ ''://'' @ r', frag)"
    using Cut_append [of "CHR ''#''" "s @ ''://''" r] c s by simp
  have c2: "Cut (CHR ''#'') (s @ ''://'' @ ui @ ''@'' @ r) = (s @ ''://'' @ ui @ ''@'' @ r', frag)"
    using Cut_append [of "CHR ''#''" "s @ ''://'' @ ui @ ''@''" r] c s assms(2) by simp
  have "takeWhile (\<lambda>c. c \<noteq> CHR ''/'') (takeWhile (\<lambda>c. c \<noteq> CHR ''#'') r) = takeWhile (\<lambda>c. c \<notin> set ''/#'') r"
    by (simp add: takeWhile_takeWhile conj_commute)
  then have at: "CHR ''@'' \<notin> set (takeWhile (\<lambda>c. c \<noteq> CHR ''/'') r')"
    using assms(3) c by (auto simp: Cut_def)
  have e1: "url_Parse ph (s @ ''://'' @ r) = with_fragment frag (parse ph (s @ ''://'' @ r'))"
    unfolding url_Parse_def c1 by (simp add: with_fragment_def)
  have e2: "url_Parse ph (s @ ''://'' @ ui @ ''@'' @ r) = with_fragment frag (parse ph (s @ ''://'' @ ui @ ''@'' @ r'))"
    unfolding url_Parse_def c2 by (simp add: with_fragment_def)
  have "set ui \<inter> set ''/?'' = {}" using assms(2) by auto
  from parse_userinfo [OF assms(1) this at, of ph] show ?thesis
  proof
    assume "parse ph (s @ ''://'' @ ui @ ''@'' @ r') = None"
    then show ?thesis unfolding e2 by (simp add: with_fragment_def)
  qed (use e1 e2 with_fragment_User in metis)
qed

end
