(* ===== verification/Db_Clear.thy ===== *)
theory Db_Clear
  imports Service_Config Http_Media Go_Url
begin

text \<open>
  Connecting to PostgreSQL and clearing its tables (\<^verbatim>\<open>internal/platform/postgres\<close>) and the
  command that does so (\<^verbatim>\<open>cmd/dbclear\<close>), with what it prints and its exit status.
\<close>

section \<open>The connection pool\<close>

text \<open>
  \<open>connect\<close> is \<^verbatim>\<open>pgxpool.New\<close>, \<open>ping\<close> the pool's \<open>Ping\<close>. On a failed ping the source closes the
  pool it does not return.
\<close>

definition postgres_New ::
    "(string \<Rightarrow> string + 'pool) \<Rightarrow> ('pool \<Rightarrow> string + unit) \<Rightarrow> string \<Rightarrow> error + 'pool" where
  "postgres_New connect ping dsn =
     (case connect dsn of
        Inl e \<Rightarrow> Inl (Wrapped ''postgres: create pool'' (OtherError e))
      | Inr pool \<Rightarrow>
          (case ping pool of
             Inl e \<Rightarrow> Inl (Wrapped ''postgres: ping'' (OtherError e))
           | Inr _ \<Rightarrow> Inr pool))"

section \<open>Clearing the data\<close>

text \<open>
  The tables of a database, by schema and name, with their rows; the identity sequences, each
  with the table that owns it, its first value and its next; the foreign keys between the
  tables (the referencing table first); the search path, by which PostgreSQL resolves a name
  without a schema; and the faults of the statements to come: a statement can be lost before
  PostgreSQL runs it, or its reply after. \<open>list_tables\<close> is the query on
  \<^verbatim>\<open>pg_tables\<close>, \<open>truncate_tables\<close> the \<^verbatim>\<open>TRUNCATE ... RESTART IDENTITY CASCADE\<close>: the names in
  it have no schema, the cascade reaches every table that refers to a truncated one, and the
  sequences of all of them start over. The quoting of the names is
  pgx's.
\<close>

type_synonym table_name = "string \<times> string"

datatype cl_fault = NotRun string | ReplyLost string

record 'r cluster =
  cl_tables :: "(table_name \<times> 'r list) list"
  cl_seqs :: "(table_name \<times> int \<times> int) list"
  cl_refs :: "(table_name \<times> table_name) list"
  cl_path :: "string list"
  cl_faults :: "cl_fault option list"

definition cl_run :: "'r cluster \<Rightarrow> ('r cluster \<Rightarrow> string + 'a \<times> 'r cluster) \<Rightarrow> (string + 'a) \<times> 'r cluster" where
  "cl_run d stmt =
     (case cl_faults d of
        Some (NotRun e) # fs \<Rightarrow> (Inl e, d\<lparr>cl_faults := fs\<rparr>)
      | Some (ReplyLost e) # fs \<Rightarrow>
          (Inl e, case stmt (d\<lparr>cl_faults := fs\<rparr>) of Inl _ \<Rightarrow> d\<lparr>cl_faults := fs\<rparr> | Inr (_, d2) \<Rightarrow> d2)
      | _ \<Rightarrow>
          let d1 = d\<lparr>cl_faults := tl (cl_faults d)\<rparr> in
          (case stmt d1 of Inl e \<Rightarrow> (Inl e, d1) | Inr (a, d2) \<Rightarrow> (Inr a, d2)))"

definition string_le :: "string \<Rightarrow> string \<Rightarrow> bool" where
  "string_le s t \<longleftrightarrow> s = t \<or> (map of_char s, map of_char t) \<in> lexord {(a :: nat, b). a < b}"

fun insert_name :: "string \<Rightarrow> string list \<Rightarrow> string list" where
  "insert_name n [] = [n]"
| "insert_name n (m # ms) = (if string_le n m then n # m # ms else m # insert_name n ms)"

definition list_tables :: "'r cluster \<Rightarrow> string + string list \<times> 'r cluster" where
  "list_tables d =
     Inr (fold insert_name
        (map (snd \<circ> fst) (filter (\<lambda>t. fst (fst t) = ''public'' \<and> snd (fst t) \<noteq> ''schema_migrations'') (cl_tables d)))
        [], d)"

definition resolve :: "'r cluster \<Rightarrow> string \<Rightarrow> table_name option" where
  "resolve d n = map_option (\<lambda>sch. (sch, n)) (find (\<lambda>sch. (sch, n) \<in> fst ` set (cl_tables d)) (cl_path d))"

text \<open>The tables that refer to the given ones, directly or through others.\<close>

function cascade :: "(table_name \<times> table_name) list \<Rightarrow> table_name list \<Rightarrow> table_name list" where
  "cascade refs ts =
     (let new = map fst (filter (\<lambda>(a, b). b \<in> set ts \<and> a \<notin> set ts) refs) in
      if new = [] then ts else cascade refs (ts @ new))"
  by pat_completeness auto
termination
proof (relation "measure (\<lambda>(refs, ts). length (filter (\<lambda>(a, b). a \<notin> set ts) refs))")
  fix refs ts new
  assume n: "new = map fst (filter (\<lambda>(a, b). b \<in> set ts \<and> a \<notin> set ts) refs)" "new \<noteq> ([] :: table_name list)"
  then obtain a b where ab: "(a, b) \<in> set refs" "b \<in> set ts" "a \<notin> set ts" by (fastforce simp: filter_empty_conv)
  with n have "a \<in> set new" by force
  have "length (filter (\<lambda>(a, b). a \<notin> set (ts @ new)) refs) < length (filter (\<lambda>(a, b). a \<notin> set ts) refs)"
  proof -
    have "filter (\<lambda>(a, b). a \<notin> set (ts @ new)) refs =
        filter (\<lambda>(a, b). a \<notin> set new) (filter (\<lambda>(a, b). a \<notin> set ts) refs)"
      by (auto intro: filter_cong)
    moreover have "(a, b) \<in> set (filter (\<lambda>(a, b). a \<notin> set ts) refs)" using ab by simp
    ultimately show ?thesis
      using \<open>a \<in> set new\<close> length_filter_less [of "(a, b)" _ "\<lambda>(a, b). a \<notin> set new"]
      by (simp del: filter_filter)
  qed
  then show "((refs, ts @ new), refs, ts) \<in> measure (\<lambda>(refs, ts). length (filter (\<lambda>(a, b). a \<notin> set ts) refs))"
    by simp
qed simp

declare cascade.simps [simp del]

definition truncate_tables :: "string list \<Rightarrow> 'r cluster \<Rightarrow> string + unit \<times> 'r cluster" where
  "truncate_tables names d =
     (if list_ex (\<lambda>n. resolve d n = None) names then Inl ''relation does not exist''
      else let hit = cascade (cl_refs d) (map (\<lambda>n. the (resolve d n)) names)
           in Inr ((), d\<lparr>cl_tables := map (\<lambda>(k, rows). (k, if k \<in> set hit then [] else rows)) (cl_tables d),
                         cl_seqs := map (\<lambda>(k, first, nxt). (k, first, if k \<in> set hit then first else nxt)) (cl_seqs d)\<rparr>))"

definition ClearAllData :: "'r cluster \<Rightarrow> (error + string list) \<times> 'r cluster" where
  "ClearAllData d =
     (case cl_run d list_tables of
        (Inl e, d1) \<Rightarrow> (Inl (Wrapped ''list tables'' (OtherError e)), d1)
      | (Inr tables, d1) \<Rightarrow>
          if length tables = 0 then (Inr [], d1)
          else (case cl_run d1 (truncate_tables tables) of
                  (Inl e, d2) \<Rightarrow> (Inl (Wrapped ''truncate tables'' (OtherError e)), d2)
                | (Inr _, d2) \<Rightarrow> (Inr tables, d2)))"

section \<open>The command\<close>

text \<open>\<open>parseHost\<close> is the parameter of \<^verbatim>\<open>url.Parse\<close>.\<close>

definition redact :: "(string \<Rightarrow> string \<Rightarrow> string option) \<Rightarrow> string \<Rightarrow> string" where
  "redact parseHost dsn =
     (case url_Parse parseHost dsn of
        None \<Rightarrow> ''<database>''
      | Some u \<Rightarrow> URL_String (u\<lparr>User := None\<rparr>))"

text \<open>
  \<^verbatim>\<open>strings.TrimSpace\<close> removes Unicode white space at both ends; \<open>spaces\<close> are its characters
  in UTF-8.
\<close>

definition spaces :: "string list" where
  "spaces =
     [[CHR 0x09], [CHR 0x0A], [CHR 0x0B], [CHR 0x0C], [CHR 0x0D], [CHR 0x20],
      [CHR 0xC2, CHR 0x85], [CHR 0xC2, CHR 0xA0], [CHR 0xE1, CHR 0x9A, CHR 0x80],
      [CHR 0xE2, CHR 0x80, CHR 0x80], [CHR 0xE2, CHR 0x80, CHR 0x81], [CHR 0xE2, CHR 0x80, CHR 0x82],
      [CHR 0xE2, CHR 0x80, CHR 0x83], [CHR 0xE2, CHR 0x80, CHR 0x84], [CHR 0xE2, CHR 0x80, CHR 0x85],
      [CHR 0xE2, CHR 0x80, CHR 0x86], [CHR 0xE2, CHR 0x80, CHR 0x87], [CHR 0xE2, CHR 0x80, CHR 0x88],
      [CHR 0xE2, CHR 0x80, CHR 0x89], [CHR 0xE2, CHR 0x80, CHR 0x8A], [CHR 0xE2, CHR 0x80, CHR 0xA8],
      [CHR 0xE2, CHR 0x80, CHR 0xA9], [CHR 0xE2, CHR 0x80, CHR 0xAF], [CHR 0xE2, CHR 0x81, CHR 0x9F],
      [CHR 0xE3, CHR 0x80, CHR 0x80]]"

function strip :: "string list \<Rightarrow> string \<Rightarrow> string" where
  "strip ps s =
     (case find (\<lambda>p. p \<noteq> [] \<and> take (length p) s = p) ps of
        None \<Rightarrow> s
      | Some p \<Rightarrow> strip ps (drop (length p) s))"
  by pat_completeness auto
termination
proof (relation "measure (\<lambda>(_, s). length s)")
  fix ps s p
  assume "find (\<lambda>p. p \<noteq> [] \<and> take (length p) s = p) ps = Some (p :: string)"
  then have "p \<noteq> []" "take (length p) s = p" by (auto simp: find_Some_iff)
  then have "0 < length p" "s \<noteq> []" by auto
  then show "((ps, drop (length p) s), ps, s) \<in> measure (\<lambda>(_, s). length s)" by auto
qed simp

declare strip.simps [simp del]

definition TrimSpace :: "string \<Rightarrow> string" where
  "TrimSpace s = rev (strip (map rev spaces) (rev (strip spaces s)))"

text \<open>\<^verbatim>\<open>ReadString('\n')\<close>: up to and including the first line feed, or all there is.\<close>

fun ReadString :: "char \<Rightarrow> string \<Rightarrow> string" where
  "ReadString delim [] = []"
| "ReadString delim (c # cs) = (if c = delim then [c] else c # ReadString delim cs)"

text \<open>The prompt, and whether the answer on standard input is \<open>yes\<close>.\<close>

definition confirm ::
    "(string \<Rightarrow> string \<Rightarrow> string option) \<Rightarrow> string \<Rightarrow> string \<Rightarrow> string list \<times> bool" where
  "confirm parseHost stdin dsn =
     ([''This will permanently delete ALL data in '' @ redact parseHost dsn @ [CHR 0x0A],
       ''Type 'yes' to continue: ''],
      TrimSpace (ReadString (CHR 0x0A) stdin) = ''yes'')"

fun Join :: "string \<Rightarrow> string list \<Rightarrow> string" where
  "Join sep [] = []"
| "Join sep [s] = s"
| "Join sep (s # t # ts) = s @ sep @ Join sep (t # ts)"

text \<open>
  The environment is the one after \<^verbatim>\<open>.env\<close> has been read, \<open>yes\<close> the value of the flag. The
  results are the error returned, the strings printed on standard output, and the database.
\<close>

definition dbclear_run ::
    "(string \<Rightarrow> string \<Rightarrow> string option) \<Rightarrow> (string \<Rightarrow> string + 'pool) \<Rightarrow> ('pool \<Rightarrow> string + unit) \<Rightarrow>
     bool \<Rightarrow> string \<Rightarrow> env \<Rightarrow> 'r cluster \<Rightarrow> (error + unit) \<times> string list \<times> 'r cluster" where
  "dbclear_run parseHost connect ping yes stdin E d =
     (let dsn = (case E ''DATABASE_URL'' of Some v \<Rightarrow> v | None \<Rightarrow> []) in
      if dsn = [] then (Inl (OtherError ''DATABASE_URL is required''), [], d)
      else let (prompt, agreed) = (if yes then ([], True) else confirm parseHost stdin dsn) in
      if \<not> agreed then (Inr (), prompt @ [''aborted'' @ [CHR 0x0A]], d)
      else case postgres_New connect ping dsn of
             Inl err \<Rightarrow> (Inl (Wrapped ''connect to database'' err), prompt, d)
           | Inr pool \<Rightarrow>
               (case ClearAllData d of
                  (Inl err, d1) \<Rightarrow> (Inl (Wrapped ''clear data'' err), prompt, d1)
                | (Inr cleared, d1) \<Rightarrow>
                    if length cleared = 0
                    then (Inr (), prompt @ [''no application tables found; nothing to clear'' @ [CHR 0x0A]], d1)
                    else (Inr (), prompt @ [''cleared '' @ Itoa (length cleared) @ '' table(s): '' @
                            Join '', '' cleared @ [CHR 0x0A]], d1)))"

text \<open>\<open>main\<close>: the exit status, standard output, standard error and the database.\<close>

definition dbclear_main ::
    "(string \<Rightarrow> string \<Rightarrow> string option) \<Rightarrow> (string \<Rightarrow> string + 'pool) \<Rightarrow> ('pool \<Rightarrow> string + unit) \<Rightarrow>
     bool \<Rightarrow> string \<Rightarrow> env \<Rightarrow> 'r cluster \<Rightarrow> nat \<times> string list \<times> string \<times> 'r cluster" where
  "dbclear_main parseHost connect ping yes stdin E d =
     (case dbclear_run parseHost connect ping yes stdin E d of
        (Inl err, out, d1) \<Rightarrow> (1, out, ''dbclear: '' @ Error err @ [CHR 0x0A], d1)
      | (Inr _, out, d1) \<Rightarrow> (0, out, [], d1))"

section \<open>Lemmas\<close>

lemma set_insert_name [simp]: "set (insert_name n ms) = insert n (set ms)"
  by (induction ms) auto

lemma set_fold_insert_name: "set (fold insert_name ns ms) = set ns \<union> set ms"
  by (induction ns arbitrary: ms) auto

text \<open>The tables \<open>ClearAllData\<close> means to clear.\<close>

definition app_tables :: "'r cluster \<Rightarrow> string set" where
  "app_tables d = {n. n \<noteq> ''schema_migrations'' \<and> (''public'', n) \<in> fst ` set (cl_tables d)}"

lemma app_tablesI: "((''public'', n), rows) \<in> set (cl_tables d) \<Longrightarrow> n \<noteq> ''schema_migrations'' \<Longrightarrow> n \<in> app_tables d"
  by (force simp: app_tables_def)

lemma list_tables_set:
  assumes "list_tables d = Inr (ts, d')"
  shows "d' = d \<and> set ts = app_tables d"
  using assms by (force simp: list_tables_def app_tables_def set_fold_insert_name image_iff)

text \<open>The cascade is the set of tables from which foreign keys lead to a given one.\<close>

lemma cascade_set: "set (cascade refs ts) = {a. \<exists>t \<in> set ts. (a, t) \<in> (set refs)\<^sup>*}"
proof (induction refs ts rule: cascade.induct)
  case (1 refs ts)
  let ?new = "map fst (filter (\<lambda>(a, b). b \<in> set ts \<and> a \<notin> set ts) refs)"
  show ?case
  proof (cases "?new = []")
    case True
    then have closed: "\<And>a b. (a, b) \<in> set refs \<Longrightarrow> b \<in> set ts \<Longrightarrow> a \<in> set ts"
      by (fastforce simp: filter_empty_conv)
    have "a \<in> set ts" if "(a, t) \<in> (set refs)\<^sup>*" "t \<in> set ts" for a t
      using that by (induction rule: converse_rtrancl_induct) (auto intro: closed)
    with True show ?thesis by (subst cascade.simps) auto
  next
    case False
    have "\<exists>t \<in> set ts. (a, t) \<in> (set refs)\<^sup>*" if "t \<in> set ?new" "(a, t) \<in> (set refs)\<^sup>*" for a t
    proof -
      from that(1) obtain b where "(t, b) \<in> set refs" "b \<in> set ts" by auto
      with that(2) show ?thesis by (meson rtrancl.rtrancl_into_rtrancl)
    qed
    then have "{a. \<exists>t \<in> set (ts @ ?new). (a, t) \<in> (set refs)\<^sup>*} = {a. \<exists>t \<in> set ts. (a, t) \<in> (set refs)\<^sup>*}"
      by (auto simp del: set_map set_filter)
    moreover have "cascade refs ts = cascade refs (ts @ ?new)"
      using False by (subst cascade.simps) (simp add: Let_def)
    ultimately show ?thesis using 1 [OF refl False] by simp
  qed
qed

lemma cl_run_cases:
  assumes "cl_run d stmt = (r, d')"
  obtains (ok) fs a where "stmt (d\<lparr>cl_faults := fs\<rparr>) = Inr (a, d')" "r = Inr a"
  | (lost) fs a e where "stmt (d\<lparr>cl_faults := fs\<rparr>) = Inr (a, d')" "r = Inl e"
  | (err) fs e where "r = Inl e" "d' = d\<lparr>cl_faults := fs\<rparr>"
  using assms
  by (auto simp: cl_run_def Let_def split: list.splits option.splits cl_fault.splits sum.splits prod.splits)

text \<open>
  The effect of \<open>ClearAllData\<close>: none, or the application tables of the search path and what
  refers to them emptied.
\<close>

definition cleared :: "'r cluster \<Rightarrow> 'r cluster \<Rightarrow> bool" where
  "cleared d d' \<longleftrightarrow> (\<exists>hit. cl_tables d' = map (\<lambda>(k, rows). (k, if k \<in> hit then [] else rows)) (cl_tables d) \<and>
     cl_seqs d' = map (\<lambda>(k, first, nxt). (k, first, if k \<in> hit then first else nxt)) (cl_seqs d) \<and>
     hit = {a. \<exists>n \<in> app_tables d. \<exists>t. resolve d n = Some t \<and> (a, t) \<in> (set (cl_refs d))\<^sup>*})"

lemma cl_faults_frame [simp]:
  "app_tables (d\<lparr>cl_faults := fs\<rparr>) = app_tables d" "resolve (d\<lparr>cl_faults := fs\<rparr>) n = resolve d n"
  by (simp_all add: app_tables_def resolve_def)

lemma truncate_cleared:
  assumes "truncate_tables ts d = Inr (a, d')" and "set ts = app_tables d"
  shows "cleared d d'"
proof -
  from assms(1) have all: "\<forall>n \<in> set ts. resolve d n \<noteq> None"
    and d': "cl_tables d' = map (\<lambda>(k, rows). (k, if k \<in> set (cascade (cl_refs d) (map (\<lambda>n. the (resolve d n)) ts)) then [] else rows)) (cl_tables d)"
    by (auto simp: truncate_tables_def Let_def list_ex_iff split: if_splits)
  from assms(1) have sq: "cl_seqs d' = map (\<lambda>(k, first, nxt). (k, first, if k \<in> set (cascade (cl_refs d) (map (\<lambda>n. the (resolve d n)) ts)) then first else nxt)) (cl_seqs d)"
    by (auto simp: truncate_tables_def Let_def split: if_splits)
  let ?h = "{a. \<exists>n \<in> app_tables d. \<exists>t. resolve d n = Some t \<and> (a, t) \<in> (set (cl_refs d))\<^sup>*}"
  have "(\<exists>t \<in> (\<lambda>n. the (resolve d n)) ` set ts. (a, t) \<in> R) \<longleftrightarrow> (\<exists>n \<in> set ts. \<exists>t. resolve d n = Some t \<and> (a, t) \<in> R)"
    for a R
  proof -
    have "resolve d n = Some (the (resolve d n))" if "n \<in> set ts" for n using that all by simp
    then show ?thesis by (simp only: bex_simps(7)) (metis option.sel)
  qed
  then have "set (cascade (cl_refs d) (map (\<lambda>n. the (resolve d n)) ts)) = ?h"
    unfolding cascade_set set_map assms(2) [symmetric] by (rule Collect_cong)
  with d' sq show ?thesis unfolding cleared_def by (intro exI [of _ ?h]) simp
qed

lemma ClearAllData_cases:
  assumes "ClearAllData d = (r, d')"
  obtains (kept) "cl_tables d' = cl_tables d" "cl_seqs d' = cl_seqs d" "\<And>ts. r = Inr ts \<Longrightarrow> ts = [] \<and> app_tables d = {}"
  | (cleared) ts where "cleared d d'" "isl r \<or> r = Inr ts" "set ts = app_tables d" "ts \<noteq> []"
proof -
  obtain q d1 where q: "cl_run d list_tables = (q, d1)" by fastforce
  from q show thesis
  proof (cases rule: cl_run_cases)
    case (ok fs ts)
    from list_tables_set [OF ok(1)] have d1: "d1 = d\<lparr>cl_faults := fs\<rparr>" and ts: "set ts = app_tables d" by auto
    show thesis
    proof (cases "ts = []")
      case True
      with assms q ok d1 ts show thesis by (intro kept) (auto simp: ClearAllData_def)
    next
      case False
      obtain p d2 where p: "cl_run d1 (truncate_tables ts) = (p, d2)" by fastforce
      with assms q ok False have r: "d' = d2" "r = (case p of Inl e \<Rightarrow> Inl (Wrapped ''truncate tables'' (OtherError e)) | Inr _ \<Rightarrow> Inr ts)"
        by (auto simp: ClearAllData_def split: sum.splits)
      from p show thesis
      proof (cases rule: cl_run_cases)
        case (ok fs' a)
        with truncate_cleared [OF ok(1)] ts d1 have "cleared d d2" by (simp add: cleared_def)
        with r ok ts False show thesis by (intro cleared) auto
      next
        case (lost fs' a e)
        with truncate_cleared [OF lost(1)] ts d1 have "cleared d d2" by (simp add: cleared_def)
        with r lost ts False show thesis by (intro cleared) auto
      next
        case (err fs' e)
        with r d1 show thesis by (intro kept) auto
      qed
    qed
  next
    case (lost fs ts e)
    from list_tables_set [OF lost(1)] have "d1 = d\<lparr>cl_faults := fs\<rparr>" by simp
    with assms q lost have "cl_tables d' = cl_tables d" "cl_seqs d' = cl_seqs d" "isl r" by (auto simp: ClearAllData_def)
    then show thesis by (intro kept) auto
  next
    case (err fs e)
    with assms q have "cl_tables d' = cl_tables d" "cl_seqs d' = cl_seqs d" "isl r" by (auto simp: ClearAllData_def)
    then show thesis by (intro kept) auto
  qed
qed

lemma clear_effect:
  assumes "cleared d d'"
  shows "map fst (cl_tables d') = map fst (cl_tables d)"
    and "(\<And>n t. n \<in> app_tables d \<Longrightarrow> resolve d n = Some t \<Longrightarrow> (k, t) \<notin> (set (cl_refs d))\<^sup>*) \<Longrightarrow>
         (k, rows) \<in> set (cl_tables d') \<longleftrightarrow> (k, rows) \<in> set (cl_tables d)"
    and "(\<And>n t. n \<in> app_tables d \<Longrightarrow> resolve d n = Some t \<Longrightarrow> (k, t) \<notin> (set (cl_refs d))\<^sup>*) \<Longrightarrow>
         (k, first, nxt) \<in> set (cl_seqs d') \<longleftrightarrow> (k, first, nxt) \<in> set (cl_seqs d)"
    and "(\<And>n. n \<in> app_tables d \<Longrightarrow> resolve d n = Some (''public'', n)) \<Longrightarrow>
         ((''public'', m), first, nxt) \<in> set (cl_seqs d') \<Longrightarrow> m \<in> app_tables d \<Longrightarrow> nxt = first"
    and "(\<And>n. n \<in> app_tables d \<Longrightarrow> resolve d n = Some (''public'', n)) \<Longrightarrow>
         ((''public'', m), rows) \<in> set (cl_tables d') \<Longrightarrow> m \<noteq> ''schema_migrations'' \<Longrightarrow> rows = []"
proof -
  from assms obtain hit where t: "cl_tables d' = map (\<lambda>(k, rows). (k, if k \<in> hit then [] else rows)) (cl_tables d)"
    and sq: "cl_seqs d' = map (\<lambda>(k, first, nxt). (k, first, if k \<in> hit then first else nxt)) (cl_seqs d)"
    and hit: "hit = {a. \<exists>n \<in> app_tables d. \<exists>t. resolve d n = Some t \<and> (a, t) \<in> (set (cl_refs d))\<^sup>*}"
    unfolding cleared_def by blast
  show "map fst (cl_tables d') = map fst (cl_tables d)" unfolding t by auto
  show "(k, rows) \<in> set (cl_tables d') \<longleftrightarrow> (k, rows) \<in> set (cl_tables d)"
    if "\<And>n t. n \<in> app_tables d \<Longrightarrow> resolve d n = Some t \<Longrightarrow> (k, t) \<notin> (set (cl_refs d))\<^sup>*"
  proof -
    have "k \<notin> hit" using that unfolding hit by blast
    then show ?thesis unfolding t by (auto simp: image_iff split: if_splits) force+
  qed
  show "(k, first, nxt) \<in> set (cl_seqs d') \<longleftrightarrow> (k, first, nxt) \<in> set (cl_seqs d)"
    if "\<And>n t. n \<in> app_tables d \<Longrightarrow> resolve d n = Some t \<Longrightarrow> (k, t) \<notin> (set (cl_refs d))\<^sup>*"
  proof -
    have "k \<notin> hit" using that unfolding hit by blast
    then show ?thesis unfolding sq by (auto simp: image_iff split: if_splits) force+
  qed
  show "nxt = first" if r: "\<And>n. n \<in> app_tables d \<Longrightarrow> resolve d n = Some (''public'', n)"
    and m: "((''public'', m), first, nxt) \<in> set (cl_seqs d')" "m \<in> app_tables d"
  proof -
    from r m(2) have "(''public'', m) \<in> hit" unfolding hit by blast
    with m(1) show ?thesis unfolding sq by auto
  qed
  show "rows = []" if r: "\<And>n. n \<in> app_tables d \<Longrightarrow> resolve d n = Some (''public'', n)"
    and m: "((''public'', m), rows) \<in> set (cl_tables d')" "m \<noteq> ''schema_migrations''"
  proof -
    from m(1) obtain rows0 where "((''public'', m), rows0) \<in> set (cl_tables d)"
      and e: "rows = (if (''public'', m) \<in> hit then [] else rows0)" unfolding t by auto
    then have "m \<in> app_tables d" using m(2) by (rule_tac app_tablesI)
    with r have "(''public'', m) \<in> hit" unfolding hit by blast
    with e show ?thesis by simp
  qed
qed

end
