(* ===== verification/Command_Properties.thy ===== *)
theory Command_Properties
  imports Server_Main Db_Clear Http_Properties
begin

text \<open>The properties of the configuration and of the two programs.\<close>

section \<open>Configuration\<close>

text \<open>
  Claim C34. The server starts with a configuration exactly when the six required variables
  are set and not empty; no other variable can make it fail, a value that does not parse
  counts as unset, and the upload limit is always a 64-bit integer.
\<close>

theorem config_load_spec:
  "((\<exists>cfg. Load frac E = Inr cfg) \<longleftrightarrow>
     (\<forall>v \<in> {''DATABASE_URL'', ''REDIS_ADDR'', ''AUTH_JWKS_URL'', ''PUBLIC_BASE_URL'', ''STORAGE_BUCKET'', ''STORAGE_REGION''}.
        E v \<noteq> None \<and> E v \<noteq> Some [])) \<and>
   (\<forall>cfg. Load frac E = Inr cfg \<longrightarrow>
      - (2 ^ 63) \<le> MaxUploadSizeBytes cfg \<and> MaxUploadSizeBytes cfg < 2 ^ 63 \<and>
      (ParseInt (getEnv E ''MAX_UPLOAD_SIZE_BYTES'' []) = None \<longrightarrow> MaxUploadSizeBytes cfg = 15728640))"
proof -
  have limit: "ParseInt (getEnv E k []) = None \<Longrightarrow> getInt64 E k f = f" for k f
    by (auto simp: getInt64_def getEnv_def split: option.splits if_splits)
  show ?thesis
    using getInt64_range [of 15728640 E "''MAX_UPLOAD_SIZE_BYTES''"] limit [of "''MAX_UPLOAD_SIZE_BYTES''" 15728640]
    by (auto simp: Load_def load_values_def Let_def getEnv_empty_iff split: if_splits)
qed

definition demo_env :: env where
  "demo_env = map_of
     [(''DATABASE_URL'', ''postgres://db''), (''REDIS_ADDR'', ''redis:6379''), (''AUTH_JWKS_URL'', ''http://auth''),
      (''PUBLIC_BASE_URL'', ''https://api''), (''STORAGE_BUCKET'', ''beebase''), (''STORAGE_REGION'', ''eu-central-1''),
      (''MAX_UPLOAD_SIZE_BYTES'', ''lots'')]"

theorem config_load_spec_witness:
  "\<exists>cfg. Load (\<lambda>f unit scale. f * unit div scale) demo_env = Inr cfg \<and> MaxUploadSizeBytes cfg = 15728640"
proof -
  have "ParseInt (getEnv demo_env ''MAX_UPLOAD_SIZE_BYTES'' []) = None"
    by (simp add: getEnv_def demo_env_def ParseInt_def is_digit_def)
  moreover have "\<forall>v \<in> {''DATABASE_URL'', ''REDIS_ADDR'', ''AUTH_JWKS_URL'', ''PUBLIC_BASE_URL'', ''STORAGE_BUCKET'', ''STORAGE_REGION''}.
      demo_env v \<noteq> None \<and> demo_env v \<noteq> Some []"
    by (simp add: demo_env_def)
  ultimately show ?thesis
    using config_load_spec [of "\<lambda>f unit scale. f * unit div scale" demo_env] by blast
qed

section \<open>The command dbclear\<close>

text \<open>
  Claim C35. The clearing command is safe to mistype and clears what it says: without
  \<open>-yes\<close> and without the answer \<open>yes\<close> it touches nothing (and may exit with status 0); it
  keeps every table, and the rows and sequences of every table from which no chain of foreign
  keys leads to a table it clears; and when it exits with status 0 after consent, and the
  search path resolves the names of the application's tables to the public schema, every table
  of that schema but the migrations table is empty and its sequences start over. (With
  a search path that finds another schema first, it is that schema's tables that are
  cleared.)
\<close>

theorem dbclear_scope:
  assumes "dbclear_main parseHost connect ping yes stdin E d = (exit_code, out, err, d')"
  shows "(\<not> yes \<and> TrimSpace (ReadString (CHR 0x0A) stdin) \<noteq> ''yes'' \<longrightarrow> d' = d) \<and>
         map fst (cl_tables d') = map fst (cl_tables d) \<and>
         (\<forall>k rows. (\<forall>n t. n \<in> app_tables d \<longrightarrow> resolve d n = Some t \<longrightarrow> (k, t) \<notin> (set (cl_refs d))\<^sup>*) \<longrightarrow>
            (k, rows) \<in> set (cl_tables d') \<longleftrightarrow> (k, rows) \<in> set (cl_tables d)) \<and>
         (\<forall>k first nxt. (\<forall>n t. n \<in> app_tables d \<longrightarrow> resolve d n = Some t \<longrightarrow> (k, t) \<notin> (set (cl_refs d))\<^sup>*) \<longrightarrow>
            (k, first, nxt) \<in> set (cl_seqs d') \<longleftrightarrow> (k, first, nxt) \<in> set (cl_seqs d)) \<and>
         (exit_code = 0 \<and> (yes \<or> TrimSpace (ReadString (CHR 0x0A) stdin) = ''yes'') \<and>
          (\<forall>n \<in> app_tables d. resolve d n = Some (''public'', n)) \<longrightarrow>
            (\<forall>n rows. ((''public'', n), rows) \<in> set (cl_tables d') \<longrightarrow> n \<noteq> ''schema_migrations'' \<longrightarrow> rows = []) \<and>
            (\<forall>n first nxt. ((''public'', n), first, nxt) \<in> set (cl_seqs d') \<longrightarrow> n \<in> app_tables d \<longrightarrow> nxt = first))"
proof -
  let ?agreed = "yes \<or> TrimSpace (ReadString (CHR 0x0A) stdin) = ''yes''"
  let ?dsn = "case E ''DATABASE_URL'' of Some v \<Rightarrow> v | None \<Rightarrow> []"
  show ?thesis
  proof (cases "?dsn = [] \<or> \<not> ?agreed \<or> (\<exists>e. postgres_New connect ping ?dsn = Inl e)")
    case True
    with assms have "d' = d" "?agreed \<Longrightarrow> exit_code = 1"
      by (auto simp: dbclear_main_def dbclear_run_def confirm_def Let_def split: if_splits sum.splits prod.splits)
    then show ?thesis by auto
  next
    case False
    then obtain pool where "postgres_New connect ping ?dsn = Inr pool" by (cases "postgres_New connect ping ?dsn") auto
    moreover obtain q e where c: "ClearAllData d = (q, e)" by fastforce
    ultimately have d': "d' = e" and st: "exit_code = 0 \<longleftrightarrow> \<not> isl q"
      using assms False
      by (auto simp: dbclear_main_def dbclear_run_def confirm_def Let_def split: if_splits sum.splits prod.splits)
    from c show ?thesis
    proof (cases rule: ClearAllData_cases)
      case kept
      then show ?thesis unfolding d' st using False by (cases q) (auto dest: app_tablesI)
    next
      case (cleared ts)
      then show ?thesis unfolding d' using False clear_effect(1,4) clear_effect(2,3) [OF cleared(1)] clear_effect(5) [OF cleared(1)]
        by blast
    qed
  qed
qed

theorem dbclear_scope_witness:
  "case dbclear_main (\<lambda>_ _. None) Inr (\<lambda>_. Inr ()) False ''no'' demo_env
      \<lparr>cl_tables = [((''public'', ''media''), [1 :: nat])], cl_seqs = [], cl_refs = [], cl_path = [''public''], cl_faults = []\<rparr> of
     (exit_code, out, err, d') \<Rightarrow>
       d' = \<lparr>cl_tables = [((''public'', ''media''), [1])], cl_seqs = [], cl_refs = [], cl_path = [''public''], cl_faults = []\<rparr>"
proof -
  have "TrimSpace (ReadString (CHR 0x0A) ''no'') \<noteq> ''yes''" by code_simp
  then show ?thesis
    using dbclear_scope [of "\<lambda>_ _. None" Inr "\<lambda>_. Inr ()" False "''no''" demo_env
      "\<lparr>cl_tables = [((''public'', ''media''), [1 :: nat])], cl_seqs = [], cl_refs = [], cl_path = [''public''], cl_faults = []\<rparr>"]
    by (auto split: prod.splits)
qed

text \<open>
  Claim C36. The prompt does not show the credentials of a connection URL: whatever user and
  password stand before the host, the command prints either the placeholder or exactly what it
  prints for the URL without them.
\<close>

theorem redact_hides_credentials:
  assumes "is_scheme s" and "set ui \<inter> set ''/?#'' = {}"
    and "CHR ''@'' \<notin> set (takeWhile (\<lambda>c. c \<notin> set ''/#'') r)"
  shows "redact parseHost (s @ ''://'' @ ui @ ''@'' @ r) \<in> {''<database>'', redact parseHost (s @ ''://'' @ r)}"
proof -
  define x where "x = url_Parse parseHost (s @ ''://'' @ ui @ ''@'' @ r)"
  define y where "y = url_Parse parseHost (s @ ''://'' @ r)"
  have "x = None \<or> map_option (User_update (\<lambda>_. None)) x = map_option (User_update (\<lambda>_. None)) y"
    unfolding x_def y_def by (rule url_Parse_userinfo [OF assms])
  then show ?thesis
    unfolding redact_def x_def [symmetric] y_def [symmetric] by (cases x; cases y) auto
qed

theorem redact_hides_credentials_witness:
  "redact (\<lambda>_ h. Some h) ''postgres://bee:hive@db:5432/media'' \<in> {''<database>'', ''postgres://db:5432/media''}"
proof -
  have r: "redact (\<lambda>_ h. Some h) ''postgres://db:5432/media'' = ''postgres://db:5432/media''" by code_simp
  have "is_scheme ''postgres''" "CHR ''@'' \<notin> set (takeWhile (\<lambda>c. c \<notin> set ''/#'') ''db:5432/media'')" by code_simp+
  from redact_hides_credentials [OF this(1) _ this(2), of "''bee:hive''" "\<lambda>_ h. Some h"]
  show ?thesis by (simp add: r)
qed

text \<open>
  The other places where PostgreSQL takes a password are not covered: a connection string of
  keywords, and the query of a URL, are printed with it.
\<close>

theorem redact_shows_other_passwords:
  "redact (\<lambda>_ h. Some h) ''host=db password=hive'' = ''host=db%20password=hive'' \<and>
   redact (\<lambda>_ h. Some h) ''postgres://db/media?password=hive'' = ''postgres://db/media?password=hive''"
  by code_simp

section \<open>The server\<close>

text \<open>
  Claim C37. The life cycle of the server process, for every outcome of the connections, the
  server and the shutdown: every connection that was opened is closed, in reverse order; the
  server's goroutine is started exactly when the whole start-up succeeded, for the address it was built for,
  and then the worker was started before; the exit status is 0 exactly when the server ended by itself
  without an error or was shut down gracefully.
\<close>

theorem server_lifecycle:
  assumes "server_main frac E X build = (exit_code, ev)"
  shows "closed ev = rev (opened ev) \<and>
         (\<forall>a. ServerStarted a \<in> set ev \<longleftrightarrow> (\<exists>cfg v st. starts frac E X cfg v st \<and> a = Addr (app_server (build cfg v st)))) \<and>
         (\<forall>a pre post. ev = pre @ ServerStarted a # post \<longrightarrow> (\<exists>i. WorkerStarted i \<in> set pre)) \<and>
         (exit_code = 0 \<longleftrightarrow> (\<exists>cfg v st. starts frac E X cfg v st \<and>
            (served X (build cfg v st) = Some (Inr ()) \<or>
             served X (build cfg v st) = None \<and> shutdown X (HTTPShutdownTimeout cfg) = Inr ())))"
proof -
  obtain r ev0 where run: "server_run frac E X build = (r, ev0)" by fastforce
  with assms have main: "exit_code = 0 \<longleftrightarrow> r = Inr ()" "ev = ev0 @ (case r of Inl e \<Rightarrow> [LogError ''server exited with error'' e] | Inr _ \<Rightarrow> [])"
    by (auto simp: server_main_def split: sum.splits)
  from run show ?thesis
  proof (cases rule: server_run_cases)
    case failed
    then show ?thesis using main by (auto split: sum.splits simp: append_eq_Cons_conv Cons_eq_append_conv)
  next
    case (ran cfg v st more)
    have unique: "\<And>cfg' v' st'. starts frac E X cfg' v' st' \<longleftrightarrow> cfg' = cfg \<and> v' = v \<and> st' = st"
      using ran(1) by (auto simp: starts_def)
    let ?A = "[Opened Pool, LogInfo ''connected to database'', Opened RedisClient, LogInfo ''connected to redis'',
       LogInfo ''connected to object storage'', WorkerStarted (app_interval (build cfg v st))]"
    let ?addr = "Addr (app_server (build cfg v st))"
    from main(2) ran(2) obtain B where ev: "ev = ?A @ LogInfo ''starting http server'' # ServerStarted ?addr # more @
        [Closed RedisClient, Closed Pool, SignalsReleased] @ B" and B: "B = [] \<or> (\<exists>e. B = [LogError ''server exited with error'' e])"
      by (cases r) simp_all
    have "\<exists>i. WorkerStarted i \<in> set pre" if "ev = pre @ ServerStarted a # post" for a pre post
      using after_prefix [OF that [unfolded ev]] by auto
    moreover have "closed ev = rev (opened ev)" using ran(3) B by (auto simp: ev)
    moreover have "ServerStarted a \<in> set ev \<longleftrightarrow> a = ?addr" for a using ran(3) B by (auto simp: ev)
    ultimately show ?thesis using main(1) ran(1,4) by (simp add: unique)
  qed
qed

definition demo_outcomes :: "(unit, unit, mem_bucket) outcomes" where
  "demo_outcomes =
     \<lparr> open_db = (\<lambda>_ _. Inr ()), open_redis = (\<lambda>_ _. Inr ()), new_verifier = (\<lambda>_ _. Inr (\<lambda>_. Inr 7)),
       open_store = (\<lambda>_ _. Inr (mem_store (\<lambda>_. False))), served = (\<lambda>_. None), shutdown = (\<lambda>_. Inr ()) \<rparr>"

lemma demo_starts: "\<exists>cfg v st. starts (\<lambda>f unit scale. f * unit div scale) demo_env demo_outcomes cfg v st"
proof -
  have "\<exists>cfg. Load (\<lambda>f unit scale. f * unit div scale) demo_env = Inr cfg"
    by (simp add: Load_def load_values_def Let_def getEnv_def demo_env_def)
  then show ?thesis by (auto simp: starts_def demo_outcomes_def)
qed

theorem server_lifecycle_witness:
  "case server_main (\<lambda>f unit scale. f * unit div scale) demo_env demo_outcomes
          (\<lambda>cfg v. wire 100 demo_lib demo_chi (WriteError 404 ''not_found'' []) v (\<lambda>_ _. None) cfg) of
     (exit_code, ev) \<Rightarrow> exit_code = 0 \<and> closed ev = rev (opened ev)"
proof -
  let ?build = "\<lambda>cfg v. wire 100 demo_lib demo_chi (WriteError 404 ''not_found'' []) v (\<lambda>_ _. None) cfg"
  obtain c ev where m: "server_main (\<lambda>f unit scale. f * unit div scale) demo_env demo_outcomes ?build = (c, ev)"
    by fastforce
  have "served demo_outcomes a = None" "shutdown demo_outcomes t = Inr ()" for a t
    by (simp_all add: demo_outcomes_def)
  then show ?thesis using server_lifecycle [OF m] demo_starts m by auto
qed

end
