(* ===== verification/Schema.thy ===== *)
theory Schema
  imports Media_Prelude
begin

text \<open>
  The database schema (\<^verbatim>\<open>migrations/\<close>): a small language for the statements of the migration
  files, what PostgreSQL does with each on tables that hold rows, and the seven migrations with
  their reversals. A file is executed as one transaction, so it takes effect as a whole or not
  at all. Text is compared and case-mapped as ASCII, which the values in question are.
\<close>

section \<open>Tables\<close>

datatype col_type = UUID | TEXT | BIGINT | INTEGER | TIMESTAMPTZ | BYTEA | BOOLEAN

datatype sval =
    SNull
  | SUuid uuid
  | SText string
  | SInt int
  | STime timestamp
  | SBytes bytes
  | SBool bool

fun has_type :: "sval \<Rightarrow> col_type \<Rightarrow> bool" where
  "has_type SNull _ = True"
| "has_type (SUuid _) T \<longleftrightarrow> T = UUID"
| "has_type (SText _) T \<longleftrightarrow> T = TEXT"
| "has_type (SInt i) T \<longleftrightarrow>
     T = BIGINT \<and> - (2 ^ 63) \<le> i \<and> i < 2 ^ 63 \<or> T = INTEGER \<and> - (2 ^ 31) \<le> i \<and> i < 2 ^ 31"
| "has_type (STime _) T \<longleftrightarrow> T = TIMESTAMPTZ"
| "has_type (SBytes _) T \<longleftrightarrow> T = BYTEA"
| "has_type (SBool _) T \<longleftrightarrow> T = BOOLEAN"

datatype dflt = NoDefault | DefaultText string | DefaultInt int | DefaultNow

record column =
  cname :: string
  ctype :: col_type
  cnotnull :: bool
  cdefault :: dflt

text \<open>The CHECK constraints of the migrations. A constraint on NULL is not violated.\<close>

datatype check =
    In string "string list"
  | NullOrIn string "string list"
  | NonNegative string
  | PairNull string string

type_synonym row = "string \<Rightarrow> sval"

fun mentions :: "check \<Rightarrow> string list" where
  "mentions (In c _) = [c]"
| "mentions (NullOrIn c _) = [c]"
| "mentions (NonNegative c) = [c]"
| "mentions (PairNull a b) = [a, b]"

fun check_ok :: "check \<Rightarrow> row \<Rightarrow> bool" where
  "check_ok (In c vs) r \<longleftrightarrow> r c = SNull \<or> r c \<in> set (map SText vs)"
| "check_ok (NullOrIn c vs) r \<longleftrightarrow> r c = SNull \<or> r c \<in> set (map SText vs)"
| "check_ok (NonNegative c) r \<longleftrightarrow> (case r c of SInt i \<Rightarrow> 0 \<le> i | SNull \<Rightarrow> True | _ \<Rightarrow> False)"
| "check_ok (PairNull a b) r \<longleftrightarrow> (r a = SNull) = (r b = SNull)"

text \<open>The primary key is one column in every table; \<open>trefs\<close> are the tables it refers to.\<close>

record table =
  tcols :: "column list"
  tkey :: string
  tchecks :: "(string \<times> check) list"
  trefs :: "string list"
  trows :: "row list"

record index =
  ix_name :: string
  ix_table :: string
  ix_cols :: "string list"

record schema =
  tables :: "(string \<times> table) list"
  indexes :: "index list"

definition col_ok :: "row \<Rightarrow> column \<Rightarrow> bool" where
  "col_ok r c \<longleftrightarrow> has_type (r (cname c)) (ctype c) \<and> (cnotnull c \<longrightarrow> r (cname c) \<noteq> SNull)"

definition row_ok :: "table \<Rightarrow> row \<Rightarrow> bool" where
  "row_ok t r \<longleftrightarrow> list_all (col_ok r) (tcols t) \<and> list_all (\<lambda>(_, c). check_ok c r) (tchecks t)"

definition table_ok :: "table \<Rightarrow> bool" where
  "table_ok t \<longleftrightarrow> list_all (row_ok t) (trows t) \<and> distinct (map (\<lambda>r. r (tkey t)) (trows t))"

definition schema_ok :: "schema \<Rightarrow> bool" where
  "schema_ok s \<longleftrightarrow> list_all (\<lambda>(_, t). table_ok t) (tables s)"

section \<open>Statements\<close>

datatype instr =
    CreateTable string table
  | DropTable string
  | CreateIndex index
  | DropIndex string
  | AddColumn string column
  | DropColumn string string
  | SetNotNull string string
  | DropNotNull string string
  | SetDefault string string dflt
  | AddCheck string string check
  | DropCheck string string
  | DropCheckIfExists string string
  | DropCheckOn string string
  | UpdateText string string "string \<Rightarrow> string"

definition col_names :: "table \<Rightarrow> string list" where
  "col_names t = map cname (tcols t)"

text \<open>A change of one table; it fails when the table does not exist.\<close>

definition alter :: "string \<Rightarrow> (table \<Rightarrow> string + table) \<Rightarrow> schema \<Rightarrow> string + schema" where
  "alter n f s =
     (case map_of (tables s) n of
        None \<Rightarrow> Inl ''relation does not exist''
      | Some t \<Rightarrow>
          (case f t of
             Inl e \<Rightarrow> Inl e
           | Inr t' \<Rightarrow> Inr (s\<lparr>tables := map (\<lambda>(m, u). (m, if m = n then t' else u)) (tables s)\<rparr>)))"

text \<open>PostgreSQL checks the rows that are there against a constraint it adds, and rows it updates.\<close>

definition validate :: "table \<Rightarrow> string + table" where
  "validate t = (if table_ok t then Inr t else Inl ''constraint is violated by some row'')"

definition on_column :: "string \<Rightarrow> (column \<Rightarrow> column) \<Rightarrow> table \<Rightarrow> string + table" where
  "on_column c f t =
     (if c \<in> set (col_names t) then Inr (t\<lparr>tcols := map (\<lambda>k. if cname k = c then f k else k) (tcols t)\<rparr>)
      else Inl ''column does not exist'')"

fun upd_text :: "(string \<Rightarrow> string) \<Rightarrow> sval \<Rightarrow> sval" where
  "upd_text f (SText s) = SText (f s)"
| "upd_text f v = v"

fun remove_first :: "('a \<Rightarrow> bool) \<Rightarrow> 'a list \<Rightarrow> 'a list" where
  "remove_first P [] = []"
| "remove_first P (x # xs) = (if P x then xs else x # remove_first P xs)"

definition add_column :: "column \<Rightarrow> table \<Rightarrow> string + table" where
  "add_column c t =
     (if cname c \<in> set (col_names t) then Inl ''column already exists''
      else validate (t\<lparr>tcols := tcols t @ [c], trows := map (\<lambda>r. r(cname c := SNull)) (trows t)\<rparr>))"

definition drop_column :: "string \<Rightarrow> table \<Rightarrow> string + table" where
  "drop_column c t =
     (if c \<notin> set (col_names t) then Inl ''column does not exist''
      else if c = tkey t then Inl ''column is the key''
      else Inr (t\<lparr>tcols := filter (\<lambda>k. cname k \<noteq> c) (tcols t),
                  tchecks := filter (\<lambda>(_, k). c \<notin> set (mentions k)) (tchecks t),
                  trows := map (\<lambda>r. r(c := SNull)) (trows t)\<rparr>))"

definition set_not_null :: "string \<Rightarrow> table \<Rightarrow> string + table" where
  "set_not_null c t =
     (case on_column c (cnotnull_update (\<lambda>_. True)) t of Inl e \<Rightarrow> Inl e | Inr t' \<Rightarrow> validate t')"

definition add_check :: "string \<Rightarrow> check \<Rightarrow> table \<Rightarrow> string + table" where
  "add_check k ck t =
     (if k \<in> fst ` set (tchecks t) then Inl ''constraint already exists''
      else if \<not> set (mentions ck) \<subseteq> set (col_names t) then Inl ''column does not exist''
      else validate (t\<lparr>tchecks := tchecks t @ [(k, ck)]\<rparr>))"

definition drop_check :: "string \<Rightarrow> table \<Rightarrow> table" where
  "drop_check k t = t\<lparr>tchecks := filter (\<lambda>(m, _). m \<noteq> k) (tchecks t)\<rparr>"

definition update_text :: "string \<Rightarrow> (string \<Rightarrow> string) \<Rightarrow> table \<Rightarrow> string + table" where
  "update_text c f t =
     (if c \<in> set (col_names t) then validate (t\<lparr>trows := map (\<lambda>r. r(c := upd_text f (r c))) (trows t)\<rparr>)
      else Inl ''column does not exist'')"

fun exec1 :: "instr \<Rightarrow> schema \<Rightarrow> string + schema" where
  "exec1 (CreateTable n t) s =
     (if n \<in> fst ` set (tables s) then Inl ''relation already exists''
      else if \<not> set (trefs t) \<subseteq> fst ` set (tables s) then Inl ''relation does not exist''
      else Inr (s\<lparr>tables := tables s @ [(n, t\<lparr>trows := []\<rparr>)]\<rparr>))"
| "exec1 (DropTable n) s =
     (if list_ex (\<lambda>(m, t). m \<noteq> n \<and> n \<in> set (trefs t)) (tables s) then Inl ''other objects depend on it''
      else Inr (s\<lparr>tables := filter (\<lambda>(m, _). m \<noteq> n) (tables s),
                  indexes := filter (\<lambda>i. ix_table i \<noteq> n) (indexes s)\<rparr>))"
| "exec1 (CreateIndex i) s =
     (if ix_name i \<in> ix_name ` set (indexes s) then Inl ''relation already exists''
      else case map_of (tables s) (ix_table i) of
        None \<Rightarrow> Inl ''relation does not exist''
      | Some t \<Rightarrow>
          if set (ix_cols i) \<subseteq> set (col_names t) then Inr (s\<lparr>indexes := indexes s @ [i]\<rparr>)
          else Inl ''column does not exist'')"
| "exec1 (DropIndex n) s =
     (if n \<in> ix_name ` set (indexes s) then Inr (s\<lparr>indexes := filter (\<lambda>i. ix_name i \<noteq> n) (indexes s)\<rparr>)
      else Inl ''index does not exist'')"
| "exec1 (AddColumn n c) s = alter n (add_column c) s"
| "exec1 (DropColumn n c) s =
     (case alter n (drop_column c) s of
        Inl e \<Rightarrow> Inl e
      | Inr s' \<Rightarrow> Inr (s'\<lparr>indexes := filter (\<lambda>i. ix_table i \<noteq> n \<or> c \<notin> set (ix_cols i)) (indexes s')\<rparr>))"
| "exec1 (SetNotNull n c) s = alter n (set_not_null c) s"
| "exec1 (DropNotNull n c) s = alter n (on_column c (cnotnull_update (\<lambda>_. False))) s"
| "exec1 (SetDefault n c v) s = alter n (on_column c (cdefault_update (\<lambda>_. v))) s"
| "exec1 (AddCheck n k ck) s = alter n (add_check k ck) s"
| "exec1 (DropCheck n k) s =
     alter n (\<lambda>t. if k \<in> fst ` set (tchecks t) then Inr (drop_check k t) else Inl ''constraint does not exist'') s"
| "exec1 (DropCheckIfExists n k) s = alter n (\<lambda>t. Inr (drop_check k t)) s"
| "exec1 (DropCheckOn n c) s =
     alter n (\<lambda>t. Inr (t\<lparr>tchecks := remove_first (\<lambda>(_, k). c \<in> set (mentions k)) (tchecks t)\<rparr>)) s"
| "exec1 (UpdateText n c f) s = alter n (update_text c f) s"

fun exec :: "instr list \<Rightarrow> schema \<Rightarrow> string + schema" where
  "exec [] s = Inr s"
| "exec (i # is) s = (case exec1 i s of Inl e \<Rightarrow> Inl e | Inr s' \<Rightarrow> exec is s')"

text \<open>A migration file: all of it, or nothing.\<close>

definition migrate :: "instr list \<Rightarrow> schema \<Rightarrow> (string + unit) \<times> schema" where
  "migrate is s = (case exec is s of Inl e \<Rightarrow> (Inl e, s) | Inr s' \<Rightarrow> (Inr (), s'))"

section \<open>The migrations\<close>

definition UPPER :: "string \<Rightarrow> string" where
  "UPPER s = map (\<lambda>c. if 97 \<le> (of_char c :: nat) \<and> (of_char c :: nat) \<le> 122 then char_of (of_char c - 32 :: nat) else c) s"

definition LOWER :: "string \<Rightarrow> string" where
  "LOWER s = map (\<lambda>c. if 65 \<le> (of_char c :: nat) \<and> (of_char c :: nat) \<le> 90 then char_of (of_char c + 32 :: nat) else c) s"

definition col :: "string \<Rightarrow> col_type \<Rightarrow> bool \<Rightarrow> dflt \<Rightarrow> column" where
  "col n T nn d = \<lparr> cname = n, ctype = T, cnotnull = nn, cdefault = d \<rparr>"

definition media_blobs_table :: table where
  "media_blobs_table =
     \<lparr> tcols = [col ''media_id'' UUID True NoDefault, col ''data'' BYTEA True NoDefault,
         col ''compressed'' BOOLEAN True NoDefault, col ''created_at'' TIMESTAMPTZ True DefaultNow],
       tkey = ''media_id'', tchecks = [], trefs = [''media''], trows = [] \<rparr>"

definition idx_media_owner :: index where
  "idx_media_owner = \<lparr> ix_name = ''idx_media_owner'', ix_table = ''media'',
     ix_cols = [''owner_type'', ''owner_id'', ''created_at'', ''id'', ''deleted_at''] \<rparr>"

definition up1 :: "instr list" where
  "up1 =
     [CreateTable ''media''
        \<lparr> tcols = [col ''id'' UUID True NoDefault, col ''user_id'' UUID True NoDefault,
            col ''owner_type'' TEXT True NoDefault, col ''owner_id'' UUID True NoDefault,
            col ''original_filename'' TEXT True NoDefault, col ''content_type'' TEXT True NoDefault,
            col ''size_bytes'' BIGINT True NoDefault, col ''status'' TEXT True (DefaultText ''available''),
            col ''created_at'' TIMESTAMPTZ True DefaultNow, col ''updated_at'' TIMESTAMPTZ True DefaultNow,
            col ''deleted_at'' TIMESTAMPTZ False NoDefault],
          tkey = ''id'',
          tchecks = [(''media_owner_type_check'', In ''owner_type'' [''apiary'', ''hive'']),
            (''media_size_bytes_check'', NonNegative ''size_bytes''),
            (''media_status_check'', In ''status'' [''available''])],
          trefs = [], trows = [] \<rparr>,
      CreateIndex \<lparr> ix_name = ''idx_media_user_id_created_at'', ix_table = ''media'',
        ix_cols = [''user_id'', ''created_at'', ''id'', ''deleted_at''] \<rparr>,
      CreateIndex idx_media_owner,
      CreateTable ''media_blobs'' media_blobs_table]"

definition down1 :: "instr list" where
  "down1 = [DropTable ''media_blobs'', DropTable ''media'']"

definition up2 :: "instr list" where
  "up2 =
     [DropCheckOn ''media'' ''owner_type'',
      UpdateText ''media'' ''owner_type'' UPPER,
      AddCheck ''media'' ''media_owner_type_check'' (In ''owner_type'' [''APIARY'', ''HIVE''])]"

definition down2 :: "instr list" where
  "down2 =
     [DropCheckIfExists ''media'' ''media_owner_type_check'',
      UpdateText ''media'' ''owner_type'' LOWER,
      AddCheck ''media'' ''media_owner_type_check'' (In ''owner_type'' [''apiary'', ''hive''])]"

definition up3 :: "instr list" where
  "up3 =
     [DropCheckOn ''media'' ''status'',
      UpdateText ''media'' ''status'' UPPER,
      SetDefault ''media'' ''status'' (DefaultText ''AVAILABLE''),
      AddCheck ''media'' ''media_status_check'' (In ''status'' [''AVAILABLE''])]"

definition down3 :: "instr list" where
  "down3 =
     [DropCheckIfExists ''media'' ''media_status_check'',
      UpdateText ''media'' ''status'' LOWER,
      SetDefault ''media'' ''status'' (DefaultText ''available''),
      AddCheck ''media'' ''media_status_check'' (In ''status'' [''available''])]"

definition up4 :: "instr list" where
  "up4 =
     [DropNotNull ''media'' ''owner_type'', DropNotNull ''media'' ''owner_id'',
      DropCheck ''media'' ''media_owner_type_check'',
      AddCheck ''media'' ''media_owner_type_check'' (NullOrIn ''owner_type'' [''APIARY'', ''HIVE'']),
      AddCheck ''media'' ''media_owner_pair_check'' (PairNull ''owner_type'' ''owner_id'')]"

definition down4 :: "instr list" where
  "down4 =
     [DropCheck ''media'' ''media_owner_pair_check'',
      DropCheck ''media'' ''media_owner_type_check'',
      AddCheck ''media'' ''media_owner_type_check'' (In ''owner_type'' [''APIARY'', ''HIVE'']),
      SetNotNull ''media'' ''owner_type'', SetNotNull ''media'' ''owner_id'']"

definition up5 :: "instr list" where
  "up5 =
     [DropIndex ''idx_media_owner'',
      DropCheck ''media'' ''media_owner_type_check'', DropCheck ''media'' ''media_owner_pair_check'',
      DropColumn ''media'' ''owner_type'', DropColumn ''media'' ''owner_id'']"

definition down5 :: "instr list" where
  "down5 =
     [AddColumn ''media'' (col ''owner_type'' TEXT False NoDefault),
      AddColumn ''media'' (col ''owner_id'' UUID False NoDefault),
      AddCheck ''media'' ''media_owner_type_check'' (NullOrIn ''owner_type'' [''APIARY'', ''HIVE'']),
      AddCheck ''media'' ''media_owner_pair_check'' (PairNull ''owner_type'' ''owner_id''),
      CreateIndex idx_media_owner]"

definition up6 :: "instr list" where
  "up6 = [DropTable ''media_blobs'']"

definition down6 :: "instr list" where
  "down6 = [CreateTable ''media_blobs'' media_blobs_table]"

definition up7 :: "instr list" where
  "up7 =
     [CreateTable ''media_blob_deletion_tasks''
        \<lparr> tcols = [col ''media_id'' UUID True NoDefault, col ''user_id'' UUID True NoDefault,
            col ''status'' TEXT True (DefaultText ''pending''), col ''attempt_count'' INTEGER True (DefaultInt 0),
            col ''next_attempt_at'' TIMESTAMPTZ True DefaultNow, col ''lease_until'' TIMESTAMPTZ False NoDefault,
            col ''last_error'' TEXT False NoDefault, col ''created_at'' TIMESTAMPTZ True DefaultNow,
            col ''updated_at'' TIMESTAMPTZ True DefaultNow],
          tkey = ''media_id'',
          tchecks = [(''media_blob_deletion_tasks_status_check'', In ''status'' [''pending'', ''processing'', ''completed''])],
          trefs = [], trows = [] \<rparr>,
      CreateIndex \<lparr> ix_name = ''media_blob_deletion_tasks_ready_idx'', ix_table = ''media_blob_deletion_tasks'',
        ix_cols = [''next_attempt_at'', ''status''] \<rparr>]"

definition down7 :: "instr list" where
  "down7 = [DropTable ''media_blob_deletion_tasks'']"

definition ups :: "instr list list" where
  "ups = [up1, up2, up3, up4, up5, up6, up7]"

text \<open>Running the pending migrations in order, stopping at the first that fails.\<close>

fun migrate_all :: "instr list list \<Rightarrow> schema \<Rightarrow> (string + unit) \<times> schema" where
  "migrate_all [] s = (Inr (), s)"
| "migrate_all (m # ms) s =
     (case migrate m s of (Inl e, s') \<Rightarrow> (Inl e, s') | (Inr _, s') \<Rightarrow> migrate_all ms s')"

definition empty_schema :: schema where
  "empty_schema = \<lparr> tables = [], indexes = [] \<rparr>"

section \<open>Lemmas\<close>

text \<open>Every statement keeps the rows within their types and constraints.\<close>

lemma alter_ok:
  assumes "alter n f s = Inr s'" and "schema_ok s"
    and "\<And>t t'. f t = Inr t' \<Longrightarrow> table_ok t \<Longrightarrow> table_ok t'"
  shows "schema_ok s'"
proof -
  from assms(1) obtain t t' where t: "map_of (tables s) n = Some t" "f t = Inr t'"
    and s': "s' = s\<lparr>tables := map (\<lambda>(m, u). (m, if m = n then t' else u)) (tables s)\<rparr>"
    by (auto simp: alter_def split: option.splits sum.splits)
  from t(1) assms(2) have "table_ok t" by (auto simp: schema_ok_def list_all_iff dest: map_of_SomeD)
  with t(2) assms(3) have "table_ok t'" by blast
  with assms(2) show ?thesis by (auto simp: s' schema_ok_def list_all_iff)
qed

lemma validate_ok: "validate t = Inr t' \<Longrightarrow> table_ok t'"
  by (simp add: validate_def split: if_splits)

lemma table_ok_weaken:
  assumes "table_ok t" and "\<And>r. row_ok t r \<Longrightarrow> row_ok t' (g r)"
    and "tkey t' = tkey t" and "\<And>r. g r (tkey t) = r (tkey t)" and "trows t' = map g (trows t)"
  shows "table_ok t'"
  using assms by (auto simp: table_ok_def list_all_iff comp_def)

lemma remove_first_subset: "set (remove_first P xs) \<subseteq> set xs"
  by (induction xs) auto

lemma check_ok_other: "c \<notin> set (mentions k) \<Longrightarrow> check_ok k (r(c := v)) = check_ok k r"
  by (cases k) auto

lemma on_column_ok:
  assumes "on_column c f t = Inr t'" and "table_ok t"
    and "\<And>k r. col_ok r k \<Longrightarrow> col_ok r (f k)"
  shows "table_ok t'"
  by (rule table_ok_weaken [OF assms(2), of _ id])
    (use assms(1,3) in \<open>auto simp: on_column_def row_ok_def list_all_iff split: if_splits\<close>)

lemma drop_checks_ok:
  assumes "table_ok t" and "set cs \<subseteq> set (tchecks t)"
  shows "table_ok (t\<lparr>tchecks := cs\<rparr>)"
  by (rule table_ok_weaken [OF assms(1), of _ id]) (use assms(2) in \<open>auto simp: row_ok_def list_all_iff\<close>)

lemma drop_column_ok:
  assumes "drop_column c t = Inr t'" and "table_ok t"
  shows "table_ok t'"
proof (rule table_ok_weaken [OF assms(2), of _ "\<lambda>r. r(c := SNull)"])
  fix r assume "row_ok t r"
  then show "row_ok t' (r(c := SNull))"
    using assms(1) by (auto simp: drop_column_def row_ok_def col_ok_def list_all_iff check_ok_other split: if_splits)
qed (use assms(1) in \<open>auto simp: drop_column_def split: if_splits\<close>)

lemma validated_ok:
  "add_column k t = Inr t' \<Longrightarrow> table_ok t'" "set_not_null c t = Inr t' \<Longrightarrow> table_ok t'"
  "add_check n ck t = Inr t' \<Longrightarrow> table_ok t'" "update_text c f t = Inr t' \<Longrightarrow> table_ok t'"
  by (auto simp: add_column_def set_not_null_def add_check_def update_text_def
      dest: validate_ok split: if_splits sum.splits)

lemma exec1_ok:
  assumes "exec1 i s = Inr s'" and "schema_ok s"
  shows "schema_ok s'"
proof (cases i)
  case (CreateTable n t)
  with assms show ?thesis by (auto simp: schema_ok_def table_ok_def split: if_splits)
next
  case (DropTable n)
  with assms show ?thesis by (auto simp: schema_ok_def list_all_iff split: if_splits)
next
  case (CreateIndex ix)
  with assms show ?thesis by (auto simp: schema_ok_def split: if_splits option.splits)
next
  case (DropIndex n)
  with assms show ?thesis by (auto simp: schema_ok_def split: if_splits)
next
  case (AddColumn n c)
  with assms show ?thesis by (auto elim: alter_ok intro: validated_ok)
next
  case (DropColumn n c)
  with assms(1) obtain s0 where a: "alter n (drop_column c) s = Inr s0" and s': "tables s' = tables s0"
    by (auto split: sum.splits)
  from alter_ok [OF a assms(2) drop_column_ok] show ?thesis by (simp add: schema_ok_def s')
next
  case (SetNotNull n c)
  with assms show ?thesis by (auto elim: alter_ok intro: validated_ok)
next
  case (DropNotNull n c)
  with assms have "alter n (on_column c (cnotnull_update (\<lambda>_. False))) s = Inr s'" by simp
  then show ?thesis by (rule alter_ok [OF _ assms(2)]) (erule on_column_ok, simp_all add: col_ok_def)
next
  case (SetDefault n c v)
  with assms have "alter n (on_column c (cdefault_update (\<lambda>_. v))) s = Inr s'" by simp
  then show ?thesis by (rule alter_ok [OF _ assms(2)]) (erule on_column_ok, simp_all add: col_ok_def)
next
  case (AddCheck n k ck)
  with assms show ?thesis by (auto elim: alter_ok intro: validated_ok)
next
  case (DropCheck n k)
  with assms show ?thesis
    by (auto elim!: alter_ok intro!: drop_checks_ok simp: drop_check_def split: if_splits)
next
  case (DropCheckIfExists n k)
  with assms show ?thesis by (auto elim!: alter_ok intro!: drop_checks_ok simp: drop_check_def)
next
  case (DropCheckOn n c)
  with assms show ?thesis by (auto elim!: alter_ok intro!: drop_checks_ok dest: subsetD [OF remove_first_subset])
next
  case (UpdateText n c f)
  with assms show ?thesis by (auto elim: alter_ok intro: validated_ok)
qed

lemma exec_append: "exec (is @ js) s = (case exec is s of Inl e \<Rightarrow> Inl e | Inr s' \<Rightarrow> exec js s')"
  by (induction "is" arbitrary: s) (auto split: sum.splits)

lemma exec_ok: "exec is s = Inr s' \<Longrightarrow> schema_ok s \<Longrightarrow> schema_ok s'"
  by (induction "is" arbitrary: s) (auto dest: exec1_ok split: sum.splits)

lemma migrate_ok: "migrate is s = (r, s') \<Longrightarrow> schema_ok s \<Longrightarrow> schema_ok s'"
  by (auto simp: migrate_def dest: exec_ok split: sum.splits)

lemma migrate_all_ok: "migrate_all ms s = (r, s') \<Longrightarrow> schema_ok s \<Longrightarrow> schema_ok s'"
  by (induction ms arbitrary: s) (auto dest: migrate_ok split: prod.splits sum.splits)

end
