(* ===== verification/Schema_Properties.thy ===== *)
theory Schema_Properties
  imports Schema Storage_Properties
begin

text \<open>
  What the migrations do to a database with data, and that the statements of the repositories
  work on tables of the structure the migrations produce, keep their rows within its types and
  constraints, and are not refused by it.
\<close>

section \<open>The schema, version by version\<close>

definition media_tab :: "column list \<Rightarrow> string \<Rightarrow> (string \<times> check) list \<Rightarrow> row list \<Rightarrow> table" where
  "media_tab oc v cs rs =
     \<lparr> tcols = [col ''id'' UUID True NoDefault, col ''user_id'' UUID True NoDefault] @ oc @
         [col ''original_filename'' TEXT True NoDefault, col ''content_type'' TEXT True NoDefault,
          col ''size_bytes'' BIGINT True NoDefault, col ''status'' TEXT True (DefaultText v),
          col ''created_at'' TIMESTAMPTZ True DefaultNow, col ''updated_at'' TIMESTAMPTZ True DefaultNow,
          col ''deleted_at'' TIMESTAMPTZ False NoDefault],
       tkey = ''id'', tchecks = cs, trefs = [], trows = rs \<rparr>"

definition owner_cols :: "bool \<Rightarrow> column list" where
  "owner_cols nn = [col ''owner_type'' TEXT nn NoDefault, col ''owner_id'' UUID nn NoDefault]"

definition user_index :: index where
  "user_index = \<lparr> ix_name = ''idx_media_user_id_created_at'', ix_table = ''media'',
     ix_cols = [''user_id'', ''created_at'', ''id'', ''deleted_at''] \<rparr>"

abbreviation "bytes_check \<equiv> (''media_size_bytes_check'', NonNegative ''size_bytes'')"
abbreviation "status_check v \<equiv> (''media_status_check'', In ''status'' [v])"
abbreviation "owner_check vs \<equiv> (''media_owner_type_check'', In ''owner_type'' vs)"
abbreviation "null_owner_check vs \<equiv> (''media_owner_type_check'', NullOrIn ''owner_type'' vs)"
abbreviation "pair_check \<equiv> (''media_owner_pair_check'', PairNull ''owner_type'' ''owner_id'')"

abbreviation "media1 \<equiv> media_tab (owner_cols True) ''available''
  [owner_check [''apiary'', ''hive''], bytes_check, status_check ''available'']"
abbreviation "media2 \<equiv> media_tab (owner_cols True) ''available''
  [bytes_check, status_check ''available'', owner_check [''APIARY'', ''HIVE'']]"
abbreviation "media3 \<equiv> media_tab (owner_cols True) ''AVAILABLE''
  [bytes_check, owner_check [''APIARY'', ''HIVE''], status_check ''AVAILABLE'']"
abbreviation "media4 \<equiv> media_tab (owner_cols False) ''AVAILABLE''
  [bytes_check, status_check ''AVAILABLE'', null_owner_check [''APIARY'', ''HIVE''], pair_check]"
abbreviation "media7 \<equiv> media_tab [] ''AVAILABLE'' [bytes_check, status_check ''AVAILABLE'']"

definition tasks_tab :: "row list \<Rightarrow> table" where
  "tasks_tab rs =
     \<lparr> tcols = [col ''media_id'' UUID True NoDefault, col ''user_id'' UUID True NoDefault,
         col ''status'' TEXT True (DefaultText ''pending''), col ''attempt_count'' INTEGER True (DefaultInt 0),
         col ''next_attempt_at'' TIMESTAMPTZ True DefaultNow, col ''lease_until'' TIMESTAMPTZ False NoDefault,
         col ''last_error'' TEXT False NoDefault, col ''created_at'' TIMESTAMPTZ True DefaultNow,
         col ''updated_at'' TIMESTAMPTZ True DefaultNow],
       tkey = ''media_id'',
       tchecks = [(''media_blob_deletion_tasks_status_check'', In ''status'' [''pending'', ''processing'', ''completed''])],
       trefs = [], trows = rs \<rparr>"

text \<open>A database of an old version with media, and one of the current version.\<close>

definition with_blobs :: "(row list \<Rightarrow> table) \<Rightarrow> index list \<Rightarrow> row list \<Rightarrow> row list \<Rightarrow> schema" where
  "with_blobs mt ixs rs bs =
     \<lparr> tables = [(''media'', mt rs), (''media_blobs'', media_blobs_table\<lparr>trows := bs\<rparr>)], indexes = user_index # ixs \<rparr>"

definition schema7 :: "row list \<Rightarrow> row list \<Rightarrow> schema" where
  "schema7 rs ts =
     \<lparr> tables = [(''media'', media7 rs), (''media_blob_deletion_tasks'', tasks_tab ts)],
       indexes = [user_index, \<lparr> ix_name = ''media_blob_deletion_tasks_ready_idx'',
         ix_table = ''media_blob_deletion_tasks'', ix_cols = [''next_attempt_at'', ''status''] \<rparr>] \<rparr>"

section \<open>One migration at a time\<close>

lemma media_tab_sel [simp]:
  "tkey (media_tab oc v cs rs) = ''id''" "tchecks (media_tab oc v cs rs) = cs"
  "trefs (media_tab oc v cs rs) = []" "trows (media_tab oc v cs rs) = rs"
  "(media_tab oc v cs rs)\<lparr>tchecks := cs'\<rparr> = media_tab oc v cs' rs"
  "(media_tab oc v cs rs)\<lparr>trows := rs'\<rparr> = media_tab oc v cs rs'"
  by (simp_all add: media_tab_def)

lemma media_tab_names [simp]:
  "col_names (media_tab oc v cs rs) = [''id'', ''user_id''] @ map cname oc @
     [''original_filename'', ''content_type'', ''size_bytes'', ''status'', ''created_at'', ''updated_at'', ''deleted_at'']"
  "map cname (owner_cols nn) = [''owner_type'', ''owner_id'']"
  by (simp_all add: media_tab_def col_names_def col_def owner_cols_def)

lemma media_tab_columns:
  "on_column ''status'' (cdefault_update (\<lambda>_. DefaultText v')) (media_tab (owner_cols nn) v cs rs) =
     Inr (media_tab (owner_cols nn) v' cs rs)"
  "on_column ''owner_type'' (cnotnull_update (\<lambda>_. False)) (media_tab (owner_cols True) v cs rs) =
     Inr (media_tab [col ''owner_type'' TEXT False NoDefault, col ''owner_id'' UUID True NoDefault] v cs rs)"
  "on_column ''owner_id'' (cnotnull_update (\<lambda>_. False))
       (media_tab [col ''owner_type'' TEXT False NoDefault, col ''owner_id'' UUID True NoDefault] v cs rs) =
     Inr (media_tab (owner_cols False) v cs rs)"
  by (simp_all add: on_column_def media_tab_def col_names_def col_def owner_cols_def)

lemma drop_owner_columns:
  "drop_column ''owner_type'' (media_tab (owner_cols nn) v [bytes_check, status_check w] rs) =
     Inr (media_tab [col ''owner_id'' UUID nn NoDefault] v [bytes_check, status_check w] (map (\<lambda>r. r(''owner_type'' := SNull)) rs))"
  "drop_column ''owner_id'' (media_tab [col ''owner_id'' UUID nn NoDefault] v [bytes_check, status_check w] rs) =
     Inr (media_tab [] v [bytes_check, status_check w] (map (\<lambda>r. r(''owner_id'' := SNull)) rs))"
  by (simp_all add: drop_column_def media_tab_def col_names_def col_def owner_cols_def)

lemmas row_simps = row_ok_def col_ok_def media_tab_def owner_cols_def col_def

lemmas exec_simps = alter_def add_check_def drop_check_def update_text_def validate_def media_tab_columns
  drop_owner_columns with_blobs_def

lemma drop_last_checks:
  "table_ok (media_tab oc v (cs @ cs') rs) \<Longrightarrow> table_ok (media_tab oc v cs rs)"
  using drop_checks_ok [of "media_tab oc v (cs @ cs') rs" cs] by simp

lemma table_ok_rows:
  assumes "table_ok (media_tab oc v cs rs)"
    and "\<And>r. row_ok (media_tab oc v cs rs) r \<Longrightarrow> row_ok (media_tab oc' v' cs' (map g rs)) (g r)"
    and "\<And>r. g r ''id'' = r ''id''"
  shows "table_ok (media_tab oc' v' cs' (map g rs))"
  by (rule table_ok_weaken [OF assms(1), of _ g]) (use assms(2,3) in simp_all)

definition owner_upper :: "row \<Rightarrow> row" where
  "owner_upper r = r(''owner_type'' := upd_text UPPER (r ''owner_type''))"

definition status_upper :: "row \<Rightarrow> row" where
  "status_upper r = r(''status'' := upd_text UPPER (r ''status''))"

definition no_owner :: "row \<Rightarrow> row" where
  "no_owner r = r(''owner_type'' := SNull, ''owner_id'' := SNull)"

lemma case_values [simp]:
  "UPPER ''apiary'' = ''APIARY''" "UPPER ''hive'' = ''HIVE''" "UPPER ''available'' = ''AVAILABLE''"
  "LOWER ''APIARY'' = ''apiary''" "LOWER ''HIVE'' = ''hive''" "LOWER ''AVAILABLE'' = ''available''"
  by code_simp+

lemma media2_ok:
  assumes "table_ok (media1 rs)"
  shows "table_ok (media2 (map owner_upper rs))"
  by (rule table_ok_rows [OF assms]) (auto simp: row_simps owner_upper_def)

lemma media3_ok:
  assumes "table_ok (media2 rs)"
  shows "table_ok (media3 (map status_upper rs))"
  by (rule table_ok_rows [OF assms]) (auto simp: row_simps status_upper_def)

lemma media4_ok:
  assumes "table_ok (media3 rs)"
  shows "table_ok (media4 rs)"
proof -
  have "table_ok (media4 (map id rs))"
    by (rule table_ok_rows [OF assms]) (auto simp: row_simps)
  then show ?thesis by simp
qed

lemma exec_up2:
  assumes "table_ok (media1 rs)"
  shows "exec up2 (with_blobs media1 [idx_media_owner] rs bs) =
         Inr (with_blobs media2 [idx_media_owner] (map owner_upper rs) bs)"
  using media2_ok [OF assms] drop_last_checks [of "owner_cols True" "''available''" "[bytes_check, status_check ''available'']"
      "[owner_check [''APIARY'', ''HIVE'']]" "map owner_upper rs"]
  by (simp add: up2_def exec_simps owner_upper_def [abs_def])

lemma exec_up3:
  assumes "table_ok (media2 rs)"
  shows "exec up3 (with_blobs media2 [idx_media_owner] rs bs) =
         Inr (with_blobs media3 [idx_media_owner] (map status_upper rs) bs)"
proof -
  note ok = media3_ok [OF assms]
  have "table_ok (media_tab (owner_cols True) ''available'' [bytes_check, owner_check [''APIARY'', ''HIVE'']] (map status_upper rs))"
    by (rule table_ok_rows [OF assms]) (auto simp: row_simps status_upper_def)
  with ok show ?thesis by (simp add: up3_def exec_simps status_upper_def [abs_def])
qed

lemma exec_up4:
  assumes "table_ok (media3 rs)"
  shows "exec up4 (with_blobs media3 [idx_media_owner] rs bs) = Inr (with_blobs media4 [idx_media_owner] rs bs)"
  using media4_ok [OF assms] drop_last_checks [of "owner_cols False" "''AVAILABLE''"
      "[bytes_check, status_check ''AVAILABLE'', null_owner_check [''APIARY'', ''HIVE'']]" "[pair_check]" rs]
  by (simp add: up4_def exec_simps)

lemma exec_up5:
  "exec up5 (with_blobs media4 [idx_media_owner] rs bs) = Inr (with_blobs media7 [] (map no_owner rs) bs)"
  by (simp add: up5_def exec_simps no_owner_def [abs_def] idx_media_owner_def user_index_def comp_def fun_upd_twist)

lemma exec_up67:
  "exec up6 (with_blobs media7 [] rs bs) = Inr \<lparr> tables = [(''media'', media7 rs)], indexes = [user_index] \<rparr>"
  "exec up7 \<lparr> tables = [(''media'', media7 rs)], indexes = [user_index] \<rparr> = Inr (schema7 rs [])"
  by (simp_all add: up6_def up7_def with_blobs_def media_blobs_table_def user_index_def schema7_def tasks_tab_def
      col_names_def col_def)

lemma exec_up1: "exec up1 empty_schema = Inr (with_blobs media1 [idx_media_owner] [] [])"
  by (simp add: up1_def empty_schema_def with_blobs_def media_tab_def owner_cols_def media_blobs_table_def
      user_index_def idx_media_owner_def col_names_def col_def)

section \<open>Migrating a database with data\<close>

definition migrated :: "row \<Rightarrow> row" where
  "migrated r = r(''owner_type'' := SNull, ''owner_id'' := SNull, ''status'' := SText ''AVAILABLE'')"

lemma migrated_eq:
  assumes "table_ok (media1 rs)" and "r \<in> set rs"
  shows "no_owner (status_upper (owner_upper r)) = migrated r"
proof -
  from assms have "row_ok (media1 rs) r" by (simp add: table_ok_def list_all_iff)
  then have "r ''status'' = SText ''available''" by (auto simp: row_simps)
  then show ?thesis by (auto simp: no_owner_def status_upper_def owner_upper_def migrated_def fun_eq_iff)
qed

lemma schema7_ok: "schema_ok (schema7 rs ts) \<longleftrightarrow> table_ok (media7 rs) \<and> table_ok (tasks_tab ts)"
  by (simp add: schema_ok_def schema7_def)

text \<open>
  Claim C26. The migrations bring a new database and one with data to the same schema without
  losing media: from an empty database all of them succeed; and on a database of the first
  version with any valid media rows and blobs, the later ones succeed and leave every media row
  as it was, but for its owner, which is dropped, and its status, which is spelled in capitals.
\<close>

theorem migrations_keep_media:
  assumes "table_ok (media1 rs)"
  shows "migrate_all ups empty_schema = (Inr (), schema7 [] []) \<and>
         migrate up1 empty_schema = (Inr (), with_blobs media1 [idx_media_owner] [] []) \<and>
         migrate_all (tl ups) (with_blobs media1 [idx_media_owner] rs bs) = (Inr (), schema7 (map migrated rs) []) \<and>
         schema_ok (schema7 (map migrated rs) [])"
proof -
  have later: "migrate_all (tl ups) (with_blobs media1 [idx_media_owner] qs cs) = (Inr (), schema7 (map migrated qs) [])"
    if ok: "table_ok (media1 qs)" for qs cs
  proof -
    have "map no_owner (map status_upper (map owner_upper qs)) = map migrated qs"
      using migrated_eq [OF ok] by simp
    then show ?thesis
      by (simp add: ups_def migrate_def exec_up2 [OF ok] exec_up3 [OF media2_ok [OF ok]]
          exec_up4 [OF media3_ok [OF media2_ok [OF ok]]] exec_up5 exec_up67 del: map_map)
  qed
  have e: "table_ok (media1 [])" by (simp add: table_ok_def)
  have "table_ok (media7 (map migrated rs))"
    by (rule table_ok_rows [OF assms]) (auto simp: row_simps migrated_def)
  then have "schema_ok (schema7 (map migrated rs) [])" by (simp add: schema7_ok table_ok_def tasks_tab_def)
  moreover have "migrate up1 empty_schema = (Inr (), with_blobs media1 [idx_media_owner] [] [])"
    by (simp add: migrate_def exec_up1)
  moreover from this have "migrate_all ups empty_schema = migrate_all (tl ups) (with_blobs media1 [idx_media_owner] [] [])"
    by (simp add: ups_def)
  ultimately show ?thesis using later [OF assms] later [OF e] by simp
qed

definition demo_row :: row where
  "demo_row = (\<lambda>_. SNull)(''id'' := SUuid 1, ''user_id'' := SUuid 7, ''owner_type'' := SText ''hive'',
     ''owner_id'' := SUuid 3, ''original_filename'' := SText ''a.txt'', ''content_type'' := SText ''text/plain'',
     ''size_bytes'' := SInt 2, ''status'' := SText ''available'', ''created_at'' := STime 0, ''updated_at'' := STime 0)"

theorem migrations_keep_media_witness:
  "migrate_all (tl ups) (with_blobs media1 [idx_media_owner] [demo_row] []) = (Inr (), schema7 [migrated demo_row] [])"
proof -
  have "table_ok (media1 [demo_row])" by (simp add: table_ok_def row_simps demo_row_def)
  from migrations_keep_media [OF this, of "[]"] show ?thesis by simp
qed

section \<open>Reversing a migration\<close>

text \<open>
  The reversals of the second and third migration give back the rows the migrations started
  from: the constraint moves to the end of the list, nothing else changes.
\<close>

lemma status_reversible:
  assumes "table_ok (media2 rs)"
  shows "exec (up3 @ down3) (with_blobs media2 [idx_media_owner] rs bs) =
         Inr (with_blobs (media_tab (owner_cols True) ''available''
           [bytes_check, owner_check [''APIARY'', ''HIVE''], status_check ''available'']) [idx_media_owner] rs bs)"
proof -
  have undo: "(status_upper r)(''status'' := upd_text LOWER (status_upper r ''status'')) = r" if "r \<in> set rs" for r
  proof -
    from assms that have "row_ok (media2 rs) r" by (simp add: table_ok_def list_all_iff)
    then have "r ''status'' = SText ''available''" by (auto simp: row_simps)
    then show ?thesis by (simp add: status_upper_def fun_upd_idem)
  qed
  then have rows: "map (\<lambda>r. r(''status'' := upd_text LOWER (r ''status''))) (map status_upper rs) = rs"
    by (simp add: map_idI)
  have ok: "table_ok (media_tab (owner_cols True) v [bytes_check, owner_check [''APIARY'', ''HIVE''], status_check ''available''] (map id rs))" for v
    by (rule table_ok_rows [OF assms]) (auto simp: row_simps)
  have ok': "table_ok (media_tab (owner_cols True) v [bytes_check, owner_check [''APIARY'', ''HIVE'']] rs)" for v
    using drop_last_checks [of "owner_cols True" v "[bytes_check, owner_check [''APIARY'', ''HIVE'']]" "[status_check ''available'']" rs] ok [of v]
    by simp
  have "exec down3 (with_blobs media3 [idx_media_owner] (map status_upper rs) bs) =
      Inr (with_blobs (media_tab (owner_cols True) ''available''
        [bytes_check, owner_check [''APIARY'', ''HIVE''], status_check ''available'']) [idx_media_owner] rs bs)"
    using ok ok' by (simp add: down3_def exec_simps rows del: map_map)
  then show ?thesis by (simp add: exec_append exec_up3 [OF assms])
qed

text \<open>Media without an owner blocks the reversal of the fourth migration, as its comment says.\<close>

lemma owner_required_again:
  assumes "table_ok (media4 rs)"
  shows "isl (fst (migrate down4 (with_blobs media4 [idx_media_owner] rs bs))) \<longleftrightarrow>
         (\<exists>r \<in> set rs. r ''owner_type'' = SNull)"
proof -
  let ?cs = "[bytes_check, status_check ''AVAILABLE'', owner_check [''APIARY'', ''HIVE'']]"
  have ok: "table_ok (media_tab (owner_cols False) ''AVAILABLE'' ?cs (map id rs))"
    by (rule table_ok_rows [OF assms]) (auto simp: row_simps)
  have null: "r ''owner_id'' = SNull \<longleftrightarrow> r ''owner_type'' = SNull" if "r \<in> set rs" for r
    using assms that by (auto simp: table_ok_def list_all_iff row_ok_def media_tab_def)
  have step: "table_ok (media_tab [col ''owner_type'' TEXT True NoDefault, col ''owner_id'' UUID nn NoDefault] ''AVAILABLE'' ?cs rs) \<longleftrightarrow>
      (\<forall>r \<in> set rs. r ''owner_type'' \<noteq> SNull)" for nn
    using ok null by (auto simp: table_ok_def list_all_iff row_simps)
  have cols: "on_column ''owner_type'' (cnotnull_update (\<lambda>_. True)) (media_tab (owner_cols False) v cs rs) =
      Inr (media_tab [col ''owner_type'' TEXT True NoDefault, col ''owner_id'' UUID False NoDefault] v cs rs)"
    "on_column ''owner_id'' (cnotnull_update (\<lambda>_. True))
       (media_tab [col ''owner_type'' TEXT True NoDefault, col ''owner_id'' UUID False NoDefault] v cs rs) =
     Inr (media_tab [col ''owner_type'' TEXT True NoDefault, col ''owner_id'' UUID True NoDefault] v cs rs)" for v cs
    by (simp_all add: on_column_def media_tab_def col_names_def col_def owner_cols_def)
  show ?thesis
    using ok step by (auto simp: migrate_def down4_def exec_simps set_not_null_def cols)
qed

section \<open>The statements respect the schema\<close>

text \<open>The tables of the model as tables of the schema.\<close>

definition row_of :: "(string \<times> sval) list \<Rightarrow> row" where
  "row_of vs = (\<lambda>c. case map_of vs c of Some v \<Rightarrow> v | None \<Rightarrow> SNull)"

fun nullable :: "('a \<Rightarrow> sval) \<Rightarrow> 'a option \<Rightarrow> sval" where
  "nullable f None = SNull"
| "nullable f (Some a) = f a"

definition media_row :: "Media \<Rightarrow> row" where
  "media_row m = row_of
     [(''id'', SUuid (ID m)), (''user_id'', SUuid (UserID m)), (''original_filename'', SText (OriginalFilename m)),
      (''content_type'', SText (ContentType m)), (''size_bytes'', SInt (SizeBytes m)), (''status'', SText (Status m)),
      (''created_at'', STime (CreatedAt m)), (''updated_at'', STime (UpdatedAt m)), (''deleted_at'', nullable STime (DeletedAt m))]"

fun status_text :: "task_status \<Rightarrow> string" where
  "status_text Pending = ''pending''"
| "status_text Processing = ''processing''"
| "status_text Completed = ''completed''"

definition task_image :: "task_row \<Rightarrow> row" where
  "task_image t = row_of
     [(''media_id'', SUuid (media_id t)), (''user_id'', SUuid (task_user_id t)), (''status'', SText (status_text (status t))),
      (''attempt_count'', SInt (int (attempt_count t))), (''next_attempt_at'', STime (next_attempt_at t)),
      (''lease_until'', nullable STime (lease_until t)), (''last_error'', nullable SText (last_error t)),
      (''created_at'', STime (task_created_at t)), (''updated_at'', STime (task_updated_at t))]"

definition image :: "db \<Rightarrow> schema" where
  "image d = schema7 (map media_row (media_tbl d)) (map task_image (task_tbl d))"

lemma has_type_nullable [simp]:
  "has_type (nullable STime t) TIMESTAMPTZ" "has_type (nullable SText e) TEXT"
  by (cases t; simp) (cases e; simp)

definition media_typed :: "Media \<Rightarrow> bool" where
  "media_typed m \<longleftrightarrow> 0 \<le> SizeBytes m \<and> SizeBytes m < 2 ^ 63 \<and> Status m = StatusAvailable"

lemma media_row_ok: "row_ok (media7 rs) (media_row m) \<longleftrightarrow> media_typed m"
  by (auto simp: row_simps media_row_def row_of_def media_typed_def StatusAvailable_def)

lemma task_image_ok: "row_ok (tasks_tab ts) (task_image t) \<longleftrightarrow> attempt_count t < 2 ^ 31"
  by (cases "status t") (auto simp: row_ok_def col_ok_def tasks_tab_def col_def task_image_def row_of_def)

lemma image_ok_iff:
  "schema_ok (image d) \<longleftrightarrow> keyed ID (media_tbl d) \<and> keyed media_id (task_tbl d) \<and>
     (\<forall>m \<in> set (media_tbl d). media_typed m) \<and> (\<forall>t \<in> set (task_tbl d). attempt_count t < 2 ^ 31)"
proof -
  have "map (\<lambda>r. r ''id'') (map media_row ms) = map SUuid (map ID ms)" for ms
    by (simp add: media_row_def row_of_def)
  moreover have "map (\<lambda>r. r ''media_id'') (map task_image ts) = map SUuid (map media_id ts)" for ts
    by (simp add: task_image_def row_of_def)
  moreover have "tkey (tasks_tab rs) = ''media_id''" "trows (tasks_tab rs) = rs" for rs by (simp_all add: tasks_tab_def)
  moreover have "inj_on SUuid A" for A by (simp add: inj_on_def)
  ultimately show ?thesis
    by (auto simp: image_def schema7_ok table_ok_def list_all_iff media_row_ok task_image_ok keyed_def
        distinct_map simp del: map_map)
qed

text \<open>The calls of the two repositories; the size of a media entity is an \<open>int64\<close>.\<close>

inductive repo_call :: "db \<Rightarrow> db \<Rightarrow> bool" where
  rc_create: "SizeBytes m < 2 ^ 63 \<Longrightarrow> MediaRepository_Create x d m = (r, d') \<Longrightarrow> repo_call d d'"
| rc_get: "MediaRepository_GetByID x d u i = (rg, d') \<Longrightarrow> repo_call d d'"
| rc_list: "MediaRepository_ListByIDs x d u is = (rl, d') \<Longrightarrow> repo_call d d'"
| rc_delete: "MediaRepository_Delete x d u i = (r, d') \<Longrightarrow> repo_call d d'"
| rc_delete_ids: "MediaRepository_DeleteByIDs x d u is = (rd, d') \<Longrightarrow> repo_call d d'"
| rc_delete_user: "MediaRepository_DeleteAllByUser x d u = (rd, d') \<Longrightarrow> repo_call d d'"
| rc_claim: "BlobDeletionRepository_Claim x d = (rt, d') \<Longrightarrow> repo_call d d'"
| rc_complete: "BlobDeletionRepository_Complete x d i = (r, d') \<Longrightarrow> repo_call d d'"
| rc_retry: "BlobDeletionRepository_Retry x d i e = (r, d') \<Longrightarrow> repo_call d d'"
| rc_env: "repo_call d (d\<lparr>db_now := now, db_locked := locked, db_faults := faults\<rparr>)"

definition db_typed :: "db \<Rightarrow> bool" where
  "db_typed d \<longleftrightarrow> db_inv d \<and> (\<forall>i m. media_rows d i = Some m \<longrightarrow> media_typed m)"

lemma db_typed_image:
  assumes "db_typed d"
  shows "schema_ok (image d)"
proof -
  from assms have inv: "db_inv d" by (simp add: db_typed_def)
  with assms have "\<forall>m \<in> set (media_tbl d). media_typed m" by (auto simp: db_typed_def media_rows_Some)
  with inv show ?thesis by (auto simp: image_ok_iff db_inv_def)
qed

lemma create_typed:
  assumes "MediaRepository_Create x d m = (r, d')" and "SizeBytes m < 2 ^ 63" and "db_typed d"
  shows "db_typed d'"
proof -
  from assms(3) have inv: "db_inv d" by (simp add: db_typed_def)
  with MediaRepository_Create_cases(1) [OF inv assms(1)] have inv': "db_inv d'" by simp
  from assms(1) obtain q where "run_stmt d (insert_media m) = (q, d')"
    by (auto simp: MediaRepository_Create_def split: prod.splits sum.splits if_splits)
  then have "\<forall>n \<in> set (media_tbl d'). n \<in> set (media_tbl d) \<or> media_typed n"
    by (cases rule: run_stmt_cases)
      (use assms(2) in \<open>auto simp: insert_media_def media_typed_def stored_row_def split: if_splits\<close>)
  with inv inv' assms(3) show ?thesis by (auto simp: db_typed_def media_rows_Some)
qed

lemma repo_call_typed:
  assumes "repo_call d d'" and "db_typed d"
  shows "db_typed d'"
proof -
  from assms(2) have inv: "db_inv d" by (simp add: db_typed_def)
  have shrink: "db_typed d'" if "db_inv d'" "media_rows d' = removed (media_rows d) D" for D
    using that assms(2) by (auto simp: db_typed_def removed_Some)
  have same: "db_typed d'" if "db_inv d'" "media_rows d' = media_rows d"
    using that assms(2) by (simp add: db_typed_def)
  from assms(1) show ?thesis
  proof cases
    case (rc_create m x r)
    then show ?thesis using create_typed assms(2) by blast
  next
    case (rc_get x u i rg)
    with media_table.get_frame [OF inv, unfolded iface_simps] show ?thesis by (blast intro: same)
  next
    case (rc_list x u "is" rl)
    with media_table.list_frame [OF inv, unfolded iface_simps] show ?thesis by (blast intro: same)
  next
    case (rc_delete x u i r)
    with media_table.delete_all_or_nothing [OF inv, unfolded iface_simps] show ?thesis by (blast intro: shrink)
  next
    case (rc_delete_ids x u "is" rd)
    with media_table.delete_ids_all_or_nothing [OF inv, unfolded iface_simps] show ?thesis by (blast intro: shrink)
  next
    case (rc_delete_user x u rd)
    with media_table.delete_user_all_or_nothing [OF inv, unfolded iface_simps] show ?thesis by (blast intro: shrink)
  next
    case (rc_claim x rt)
    with Claim_cases [OF inv] show ?thesis by (blast intro: same)
  next
    case (rc_complete x i r)
    with Complete_cases [OF inv] show ?thesis by (blast intro: same)
  next
    case (rc_retry x i e r)
    with Retry_cases [OF inv] show ?thesis by (blast intro: same)
  next
    case (rc_env now locked faults)
    with inv show ?thesis by (intro same) (auto simp: db_inv_def media_rows_def)
  qed
qed

section \<open>What the application writes, the migrated schema accepts\<close>

text \<open>An \<open>INSERT\<close> of one row into a table of the schema.\<close>

definition sql_insert :: "string \<Rightarrow> row \<Rightarrow> schema \<Rightarrow> string + schema" where
  "sql_insert n r =
     alter n (\<lambda>t. if \<not> row_ok t r then Inl ''violates a constraint''
                  else if r (tkey t) \<in> (\<lambda>q. q (tkey t)) ` set (trows t) then Inl ''duplicate key''
                  else Inr (t\<lparr>trows := trows t @ [r]\<rparr>))"

text \<open>The schema without its rows: tables, columns, types, defaults, constraints, indexes.\<close>

definition bare :: "schema \<Rightarrow> schema" where
  "bare s = s\<lparr>tables := map (\<lambda>(n, t). (n, t\<lparr>trows := []\<rparr>)) (tables s)\<rparr>"

lemma image_bare: "migrate_all ups empty_schema = (Inr (), bare (image d))"
proof -
  have e: "table_ok (media1 [])" by (simp add: table_ok_def)
  have "migrate_all ups empty_schema = (Inr (), schema7 [] [])"
    by (simp add: ups_def migrate_def exec_up1 exec_up2 [OF e, simplified] exec_up3 [OF media2_ok [OF e], simplified]
        exec_up4 [OF media3_ok [OF media2_ok [OF e]], simplified] exec_up5 exec_up67)
  then show ?thesis by (simp add: bare_def image_def schema7_def tasks_tab_def media_tab_def)
qed

lemma insert_into_schema:
  assumes "SizeBytes m < 2 ^ 63" and "text_ok d (OriginalFilename m)" and "text_ok d (ContentType m)"
  shows "case insert_media m d of
           Inr (_, d') \<Rightarrow> sql_insert ''media'' (media_row (stored_row d m)) (image d) = Inr (image d')
         | Inl e \<Rightarrow> sql_insert ''media'' (media_row (stored_row d m)) (image d) =
             Inl (if e = PgError pgUniqueViolation ''duplicate key value violates unique constraint''
                  then ''duplicate key'' else ''violates a constraint'')"
proof -
  have keys: "media_row m ''id'' = SUuid (ID m)" for m by (simp add: media_row_def row_of_def)
  have taken: "SUuid i \<in> (\<lambda>q. q ''id'') ` set (map media_row ms) \<longleftrightarrow> lookup_by ID ms i \<noteq> None" for i ms
    by (auto simp: keys lookup_by_None_iff image_iff)
  have id: "ID (stored_row d m) = ID m" by (simp add: stored_row_def)
  have typed: "media_typed (stored_row d m) \<longleftrightarrow> 0 \<le> SizeBytes m \<and> Status m = StatusAvailable"
    using assms(1) by (auto simp: media_typed_def stored_row_def)
  have ins: "sql_insert ''media'' (media_row (stored_row d m)) (image d) =
      (if \<not> media_typed (stored_row d m) then Inl ''violates a constraint''
       else if lookup_by ID (media_tbl d) (ID m) \<noteq> None then Inl ''duplicate key''
       else Inr (schema7 (map media_row (media_tbl d @ [stored_row d m])) (map task_image (task_tbl d))))"
    using taken [of "ID m" "media_tbl d"]
    by (simp add: sql_insert_def alter_def image_def schema7_def media_row_ok keys id tasks_tab_def)
  show ?thesis
    unfolding ins using assms(2,3) by (auto simp: insert_media_def typed image_def pgUniqueViolation_def)
qed

text \<open>
  Claim C25. The repositories and the migrations agree on the schema. In every state that calls
  of the two repositories reach, with whatever faults, from a database the migrations left
  (media rows that fit the schema, the task table as 000007 creates it): the tables have exactly
  the structure that running the seven migrations produces, and every row in them fits it. And
  what \<open>Upload\<close> builds with \<open>New\<close> is never refused by a column or a CHECK of that schema: the
  repository's statement inserts it exactly as the schema's own \<open>INSERT\<close> does, and is refused
  only for an id that is taken.
\<close>

theorem statements_respect_schema:
  assumes "repo_call\<^sup>*\<^sup>* d d'" and "schema_ok (image d)" and "task_tbl d = []"
    and "m = New now i u f ct n" and "0 \<le> n" and "n < 2 ^ 63" and "text_ok d' f" and "text_ok d' ct"
  shows "migrate_all ups empty_schema = (Inr (), bare (image d')) \<and> schema_ok (image d') \<and>
         (if media_rows d' i = None
          then \<exists>d''. insert_media m d' = Inr ((), d'') \<and>
                 sql_insert ''media'' (media_row (stored_row d' m)) (image d') = Inr (image d'')
          else insert_media m d' = Inl (PgError pgUniqueViolation ''duplicate key value violates unique constraint'') \<and>
               sql_insert ''media'' (media_row (stored_row d' m)) (image d') = Inl ''duplicate key'')"
proof -
  have inv: "db_inv d" using assms(2,3) by (auto simp: image_ok_iff db_inv_def)
  with assms(2) have "db_typed d" by (auto simp: db_typed_def image_ok_iff media_rows_Some)
  with assms(1) have "db_typed d'" by (induction rule: rtranclp_induct) (auto dest: repo_call_typed)
  then have ok: "schema_ok (image d')" by (rule db_typed_image)
  have m: "SizeBytes m = n" "OriginalFilename m = f" "ContentType m = ct" "ID m = i" "Status m = StatusAvailable"
    using assms(4) by (simp_all add: New_def)
  have stmt: "insert_media m d' = (if media_rows d' i = None
      then Inr ((), d'\<lparr>media_tbl := media_tbl d' @ [stored_row d' m]\<rparr>)
      else Inl (PgError pgUniqueViolation ''duplicate key value violates unique constraint''))"
    using assms(5,7,8) m by (simp add: insert_media_def media_rows_def)
  from insert_into_schema [of m d'] stmt m assms(6-8) image_bare [of d'] ok
  show ?thesis by (simp split: if_splits)
qed

theorem statements_respect_schema_witness:
  "schema_ok (image (snd (MediaRepository_Create RequestCtx (demo_db [] [] []) (demo_media 1 7)))) \<and>
   (\<exists>d''. insert_media (New 0 2 8 ''b.txt'' ''text/plain'' 3)
      (snd (MediaRepository_Create RequestCtx (demo_db [] [] []) (demo_media 1 7))) = Inr ((), d''))"
proof -
  let ?d = "demo_db [] [] []" and ?d' = "snd (MediaRepository_Create RequestCtx (demo_db [] [] []) (demo_media 1 7))"
  have "repo_call ?d ?d'"
    by (rule rc_create [OF _ prod.collapse [symmetric]]) (simp add: demo_media_def New_def)
  then have run: "repo_call\<^sup>*\<^sup>* ?d ?d'" by blast
  have "media_rows ?d' 2 = None" "text_ok ?d' ''b.txt''" "text_ok ?d' ''text/plain''"
    by (simp_all add: demo_run demo_media_def media_rows_def stored_row_def New_def)
  moreover have "schema_ok (image ?d)" "task_tbl ?d = []" by (simp_all add: image_ok_iff demo_db_def)
  ultimately show ?thesis
    using statements_respect_schema [OF run _ _ refl, where n = 3 and f = "''b.txt''" and ct = "''text/plain''"
        and now = 0 and i = 2 and u = 8] by auto
qed

end
