(* ===== verification/Batch_Equivalence.thy ===== *)
theory Batch_Equivalence
  imports Storage_Properties
begin

text \<open>
  The bulk delete of the metadata repository (\<open>DeleteByIDs\<close>, one statement for all ids) against
  its obvious reference: calling \<open>Delete\<close> for one id after the other.
\<close>

section \<open>The reference\<close>

text \<open>One \<open>Delete\<close> per id; the ids for which it succeeded, and the database at the end.\<close>

fun delete_each :: "ctx \<Rightarrow> db \<Rightarrow> uuid \<Rightarrow> uuid list \<Rightarrow> uuid list \<times> db" where
  "delete_each x d u [] = ([], d)"
| "delete_each x d u (i # is) =
     (case MediaRepository_Delete x d u i of
        (Inr _, d1) \<Rightarrow> (case delete_each x d1 u is of (ok, d2) \<Rightarrow> (i # ok, d2))
      | (Inl _, d1) \<Rightarrow> delete_each x d1 u is)"

section \<open>The effect of a delete statement\<close>

definition task_of :: "db \<Rightarrow> uuid \<rightharpoonup> task_row" where
  "task_of d i = lookup_by media_id (task_tbl d) i"

text \<open>The tasks after those of the ids in \<open>D\<close> have been inserted or reopened.\<close>

definition enqueued :: "db \<Rightarrow> uuid \<Rightarrow> uuid set \<Rightarrow> uuid \<rightharpoonup> task_row" where
  "enqueued d u D i =
     (if i \<in> D then Some (case task_of d i of None \<Rightarrow> new_task d u i | Some t \<Rightarrow> requeue d t) else task_of d i)"

lemma lookup_update_task:
  assumes "\<And>t. media_id (f t) = media_id t"
  shows "lookup_by media_id (update_task i f ts) j =
         (if j = i then map_option f (lookup_by media_id ts j) else lookup_by media_id ts j)"
  by (induction ts) (auto simp: update_task_def assms)

lemma task_of_enqueue: "task_of (enqueue u i d) = enqueued d u {i}"
proof
  fix j
  show "task_of (enqueue u i d) j = enqueued d u {i} j"
    by (cases "lookup_by media_id (task_tbl d) i")
      (auto simp: task_of_def enqueued_def enqueue_def lookup_update_task lookup_by_append split: option.splits)
qed

lemma same_clock:
  "db_now d' = db_now d \<Longrightarrow> new_task d' u i = new_task d u i" "db_now d' = db_now d \<Longrightarrow> requeue d' t = requeue d t"
  by (simp_all add: new_task_def requeue_def)

text \<open>Two rounds on different ids are one round on all of them.\<close>

lemma enqueued_twice:
  assumes "db_now d1 = db_now d" and "task_of d1 = enqueued d u D" and "D \<inter> D' = {}"
  shows "enqueued d1 u D' = enqueued d u (D \<union> D')"
proof
  fix i
  show "enqueued d1 u D' i = enqueued d u (D \<union> D') i"
    using assms(3) fun_cong [OF assms(2), of i] same_clock [OF assms(1)]
    by (auto simp: enqueued_def split: option.splits)
qed

lemma task_of_fold_enqueue:
  "distinct is \<Longrightarrow> task_of (fold (enqueue u) is d) = enqueued d u (set is)"
proof (induction "is" arbitrary: d)
  case Nil
  show ?case by (simp add: enqueued_def fun_eq_iff)
next
  case (Cons i "is")
  then have "task_of (fold (enqueue u) is (enqueue u i d)) = enqueued (enqueue u i d) u (set is)" by simp
  also have "\<dots> = enqueued d u ({i} \<union> set is)"
    by (rule enqueued_twice) (use Cons.prems task_of_enqueue in simp_all)
  finally show ?case by simp
qed

text \<open>What a delete by owner and id does, on a database without faults to come.\<close>

definition deletes :: "db \<Rightarrow> uuid \<Rightarrow> uuid set \<Rightarrow> db \<Rightarrow> bool" where
  "deletes d u I d' \<longleftrightarrow>
     media_tbl d' = filter (\<lambda>m. \<not> (ID m \<in> I \<and> UserID m = u)) (media_tbl d) \<and>
     task_of d' = enqueued d u (I \<inter> owned_ids (media_rows d) u) \<and>
     db_now d' = db_now d \<and> db_faults d' = [] \<and> db_inv d'"

lemma owned_filter:
  assumes "db_inv d" and "db_inv d'" and "media_tbl d' = filter (\<lambda>m. \<not> (ID m \<in> I \<and> UserID m = u)) (media_tbl d)"
  shows "owned_ids (media_rows d') u = owned_ids (media_rows d) u - I"
  using assms by (auto simp: owned_ids_def media_rows_Some)

lemma deletes_Un:
  assumes "deletes d u I d1" and "deletes d1 u J d2" and "db_inv d"
  shows "deletes d u (I \<union> J) d2"
proof -
  have own: "owned_ids (media_rows d1) u = owned_ids (media_rows d) u - I"
    by (rule owned_filter) (use assms in \<open>auto simp: deletes_def\<close>)
  have "enqueued d1 u (J \<inter> owned_ids (media_rows d1) u) =
      enqueued d u (I \<inter> owned_ids (media_rows d) u \<union> J \<inter> owned_ids (media_rows d1) u)"
    by (rule enqueued_twice) (use assms(1) own in \<open>auto simp: deletes_def\<close>)
  also have "I \<inter> owned_ids (media_rows d) u \<union> J \<inter> owned_ids (media_rows d1) u = (I \<union> J) \<inter> owned_ids (media_rows d) u"
    using own by blast
  finally show ?thesis using assms(1,2) by (auto simp: deletes_def intro: filter_cong)
qed

lemma run_delete_effect:
  assumes "db_inv d" and "db_faults d = []"
    and "run_stmt d (delete_and_enqueue u (\<lambda>m. ID m \<in> I \<and> UserID m = u)) = (r, d')"
  shows "\<exists>del. r = Inr del \<and> set del = I \<inter> owned_ids (media_rows d) u \<and> distinct del \<and> deletes d u I d'"
proof -
  let ?P = "\<lambda>m. ID m \<in> I \<and> UserID m = u"
  let ?d1 = "d\<lparr>media_tbl := filter (\<lambda>m. \<not> ?P m) (media_tbl d)\<rparr>"
  let ?del = "map ID (filter ?P (media_tbl d))"
  have s: "delete_and_enqueue u ?P d = Inr (?del, fold (enqueue u) ?del ?d1)"
    by (simp add: delete_and_enqueue_def Let_def)
  from assms(2,3) s have r: "r = Inr ?del" and d': "d' = fold (enqueue u) ?del ?d1"
    by (auto simp: run_stmt_no_fault settle_def)
  note ok = delete_and_enqueue_ok [OF assms(1) s]
  have set_del: "set ?del = I \<inter> owned_ids (media_rows d) u"
    using assms(1) by (auto simp: owned_ids_def media_rows_Some)
  have "task_of d' = enqueued ?d1 u (set ?del)"
    unfolding d' using ok by (intro task_of_fold_enqueue) simp
  also have "\<dots> = enqueued d u (set ?del)"
    by (auto simp: enqueued_def task_of_def new_task_def requeue_def fun_eq_iff split: option.splits)
  finally have "deletes d u I d'"
    unfolding deletes_def set_del using ok assms(2) d' by simp
  with r set_del ok show ?thesis by blast
qed

lemma Delete_effect:
  assumes "db_inv d" and "db_faults d = []" and "MediaRepository_Delete x d u i = (r, d')"
  shows "deletes d u {i} d' \<and> (r = Inr () \<longleftrightarrow> i \<in> owned_ids (media_rows d) u)"
proof -
  obtain q where q: "run_stmt d (delete_and_enqueue u (\<lambda>m. ID m \<in> {i} \<and> UserID m = u)) = (q, d')"
    and r: "r = (case q of Inl err \<Rightarrow> Inl (Wrapped ''postgres: delete media'' err)
               | Inr tag \<Rightarrow> if length tag = 0 then Inl ErrNotFound else Inr ())"
    using assms(3) by (auto simp: MediaRepository_Delete_def split: prod.splits sum.splits if_splits)
  from run_delete_effect [OF assms(1,2) q] obtain del where del: "q = Inr del"
    "set del = {i} \<inter> owned_ids (media_rows d) u" "deletes d u {i} d'" by blast
  then have "del = [] \<longleftrightarrow> i \<notin> owned_ids (media_rows d) u" by (cases "i \<in> owned_ids (media_rows d) u") auto
  with del r show ?thesis by (auto split: if_splits)
qed

lemma delete_each_effect:
  assumes "db_inv d" and "db_faults d = []" and "delete_each x d u is = (ok, d')"
  shows "deletes d u (set is) d' \<and> distinct ok \<and> set ok = set is \<inter> owned_ids (media_rows d) u"
  using assms
proof (induction "is" arbitrary: d ok)
  case Nil
  then show ?case by (simp add: deletes_def enqueued_def fun_eq_iff)
next
  case (Cons i "is")
  obtain r d1 where r: "MediaRepository_Delete x d u i = (r, d1)" by fastforce
  obtain ok' where rest: "delete_each x d1 u is = (ok', d')"
    and ok: "ok = (case r of Inr _ \<Rightarrow> i # ok' | Inl _ \<Rightarrow> ok')"
    using Cons.prems(3) r by (auto split: prod.splits sum.splits)
  from Delete_effect [OF Cons.prems(1,2) r] have one: "deletes d u {i} d1"
    and hit: "r = Inr () \<longleftrightarrow> i \<in> owned_ids (media_rows d) u" by simp_all
  then have d1: "db_inv d1" "db_faults d1 = []" by (simp_all add: deletes_def)
  from Cons.IH [OF d1 rest] have IH: "deletes d1 u (set is) d'" "distinct ok'"
    "set ok' = set is \<inter> owned_ids (media_rows d1) u" by simp_all
  have own: "owned_ids (media_rows d1) u = owned_ids (media_rows d) u - {i}"
    by (rule owned_filter [OF Cons.prems(1) d1(1)]) (use one in \<open>simp add: deletes_def\<close>)
  have "deletes d u (set (i # is)) d'" using deletes_Un [OF one IH(1) Cons.prems(1)] by simp
  then show ?case using IH own hit ok by (cases r) auto
qed

section \<open>The equivalence\<close>

text \<open>
  Claim C24. The bulk delete is equivalent to deleting one id after the other, repeated and
  unknown ids included: when no statement is lost and the clock stands still, both leave the same media rows and for every
  id the same deletion task, and the ids the bulk delete reports are those whose single delete
  succeeds, each once.
\<close>

theorem bulk_delete_equivalent:
  assumes "db_inv d" and "db_faults d = []"
    and "MediaRepository_DeleteByIDs x d u is = (Inr del, d1)" and "delete_each x d u is = (ok, d2)"
  shows "media_tbl d1 = media_tbl d2 \<and>
         (\<forall>i. lookup_by media_id (task_tbl d1) i = lookup_by media_id (task_tbl d2) i) \<and>
         set del = set ok \<and> length del = length ok"
proof -
  have "deletes d u (set is) d1 \<and> distinct del \<and> set del = set is \<inter> owned_ids (media_rows d) u"
  proof (cases "is = []")
    case True
    with assms(1-3) show ?thesis
      by (simp add: MediaRepository_DeleteByIDs_def deletes_def enqueued_def fun_eq_iff)
  next
    case False
    with assms(3) have "run_stmt d (delete_and_enqueue u (\<lambda>m. ID m \<in> set is \<and> UserID m = u)) = (Inr del, d1)"
      by (auto simp: MediaRepository_DeleteByIDs_def split: prod.splits sum.splits)
    from run_delete_effect [OF assms(1,2) this] show ?thesis by auto
  qed
  moreover note delete_each_effect [OF assms(1,2,4)]
  ultimately show ?thesis
    by (auto simp: deletes_def task_of_def fun_eq_iff distinct_card [symmetric])
qed

theorem bulk_delete_equivalent_witness:
  "length (case fst (MediaRepository_DeleteByIDs RequestCtx (demo_db [demo_media 1 7, demo_media 2 8] [] []) 7 [1, 2, 1]) of
             Inr del \<Rightarrow> del | Inl _ \<Rightarrow> [3, 4]) =
   length (fst (delete_each RequestCtx (demo_db [demo_media 1 7, demo_media 2 8] [] []) 7 [1, 2, 1]))"
proof -
  let ?d = "demo_db [demo_media 1 7, demo_media 2 8] [] []"
  have inv: "db_inv ?d" "db_faults ?d = []" by (simp_all add: demo_db_def demo_media_def New_def db_inv_def)
  obtain r d1 where r: "MediaRepository_DeleteByIDs RequestCtx ?d 7 [1, 2, 1] = (r, d1)" by fastforce
  then obtain del where del: "r = Inr del"
    by (auto simp: MediaRepository_DeleteByIDs_def run_stmt_no_fault [OF inv(2)] settle_def delete_and_enqueue_def Let_def)
  from bulk_delete_equivalent [OF inv r [unfolded del] prod.collapse [symmetric]] show ?thesis by (simp add: r del)
qed

end
