(* ===== verification/Spec2Isabelle.thy ===== *)
theory Spec2Isabelle
  imports Concurrent_Requests Command_Properties Schema_Properties Batch_Equivalence
begin

text \<open>
  The media service of BeeBase (\<^verbatim>\<open>src/\<close>, Go): it stores uploaded files for authenticated users,
  metadata in PostgreSQL and content in an S3 bucket, and hands them back by id.

  \<^bold>\<open>Parts and how they interact.\<close> A request passes the router and its authentication
  (\<^verbatim>\<open>internal/transport/http\<close>), a handler (\<^verbatim>\<open>.../http/media\<close>), a use case
  (\<^verbatim>\<open>internal/application/media/service.go\<close>), the composite repository
  (\<^verbatim>\<open>internal/repository/media\<close>), and from there the metadata repository
  (\<^verbatim>\<open>internal/repository/postgres\<close>) and the blob store (\<^verbatim>\<open>internal/platform/blobstore\<close>). A delete
  leaves a task in PostgreSQL in the same statement; a background worker
  (\<^verbatim>\<open>blob_worker.go\<close>) claims the tasks under a lease and deletes the objects. Two programs put
  this together: \<^verbatim>\<open>cmd/server\<close> and \<^verbatim>\<open>cmd/dbclear\<close>.

  \<^bold>\<open>Theories and the source they model.\<close>
  \<^item> \<open>Media_Prelude\<close>: types shared by all (ids are 128-bit words, \<open>int64\<close> with its wrap-around,
    tables as keyed lists), the collection \<open>iface_simps\<close>.
  \<^item> \<open>Media_Domain\<close>: \<^verbatim>\<open>internal/domain/media\<close>: the entity and \<open>New\<close>, the sentinel errors with
    \<^verbatim>\<open>errors.Is\<close> and \<^verbatim>\<open>errors.As\<close>, and the Go interfaces as records of functions.
  \<^item> \<open>Blob_Store\<close>: \<^verbatim>\<open>blobstore/store.go\<close> over the SDK client, a parameter; the interface is the
    locale \<open>blob_store\<close>, interpreted as \<open>s3_store\<close>. \<open>Memory_S3\<close> is a client that meets the documented
    behaviour, for the witnesses.
  \<^item> \<open>Metadata_Store\<close>: the locale \<open>metadata_store\<close> of the metadata port. \<open>Pg_Database\<close>: the tables,
    how a statement runs or is lost, the enqueueing. \<open>Media_Table\<close>: \<^verbatim>\<open>media_repository.go\<close>, one
    function per SQL statement and per method; interpretation \<open>media_table\<close>.
  \<^item> \<open>Deletion_Queue\<close>: \<^verbatim>\<open>blob_deletion_repository.go\<close>; locale \<open>deletion_queue\<close>, interpretation
    \<open>pg_queue\<close>.
  \<^item> \<open>Media_Repository\<close>: \<^verbatim>\<open>internal/repository/media/repository.go\<close>; locale \<open>composite\<close> over the two
    ports, interpretation \<open>s3_pg\<close>; it provides the locale \<open>media_repo\<close> of the use cases
    (interpretation \<open>wired_media\<close>).
  \<^item> \<open>Blob_Worker\<close>: \<^verbatim>\<open>blob_worker.go\<close>; locale \<open>worker\<close>, interpretation \<open>s3_worker\<close>.
  \<^item> \<open>Go_Std\<close>, \<open>Go_Url\<close>: what the service's decisions depend on in Go's standard library: extension,
    lower case and content sniffing; parsing and printing of URLs.
  \<^item> \<open>Media_Service\<close>: \<^verbatim>\<open>service.go\<close>, \<^verbatim>\<open>dto.go\<close>, \<^verbatim>\<open>errors.go\<close>. \<open>Http_Media\<close>: \<^verbatim>\<open>handler.go\<close>,
    \<^verbatim>\<open>requests.go\<close>, \<^verbatim>\<open>responses.go\<close>. \<open>Http_Router\<close>: \<^verbatim>\<open>router.go\<close>, \<^verbatim>\<open>health.go\<close>.
  \<^item> \<open>Service_Config\<close>: \<^verbatim>\<open>internal/config\<close> with the number and duration parsers it uses.
    \<open>Server_Main\<close>: \<^verbatim>\<open>cmd/server\<close>, its wiring and life cycle. \<open>Db_Clear\<close>:
    \<^verbatim>\<open>internal/platform/postgres\<close> and \<^verbatim>\<open>cmd/dbclear\<close>.
  \<^item> \<open>Concurrency\<close>: requests and workers interleaved call by call. \<open>Concurrent_Requests\<close>: a download
    in its two halves, who deletes a file, and a retry during an upload. \<open>Schema\<close>: \<^verbatim>\<open>migrations/\<close>.
  \<^item> \<open>Openapi\<close>: \<^verbatim>\<open>api/openapi.yaml\<close> as data; the locale \<open>repo_errors\<close> says which errors come out of
    the Repository port (interpretation \<open>wired_errors\<close>).
  \<^item> \<open>Running_Server\<close>: the wired server of \<open>Server_Main\<close> as a sequence of events on one state:
    requests through the router, rounds of the worker, the passing of time. The locale
    \<open>media_repo_tasks\<close> extends \<open>media_repo\<close> by the open deletion tasks (interpretation
    \<open>wired_tasks\<close>).
  \<^item> \<open>Map_Store\<close>: the reference for the whole service, a Repository port over a map from ids to files,
    and the locale \<open>repo_simulation\<close>: two Repository ports that answer alike make use cases, handlers
    and router answer alike. \<open>Map_Refinement\<close> interprets it on the wired port and the map
    (\<open>map_sim\<close>); \<open>Service_Spec\<close> gives the use cases a specification of their own on the map.

  \<^bold>\<open>What is shown.\<close>
  \<^item> Storage (\<open>Storage_Properties\<close>, \<open>Batch_Equivalence\<close>): \<open>Put\<close> never overwrites; every row keeps its
    content, of the recorded size, through every upload and delete, successful or not, unless an
    upload is reported as failed although its row was committed; a failed insert is compensated; a delete leaves a task with the removal of the row or does nothing;
    the claim takes the oldest due task and its lease excludes others; the worker closes a task
    only after the content is gone, backs off, and drains the queue when nothing fails; the bulk
    delete equals single deletes. Two theorems show how content is lost, in any state: an id
    uploaded again before its task has run, and a lost reply to an insert, which can even put
    another user's bytes under the row.
  \<^item> Use cases (\<open>Service_Properties\<close>): uploads store exactly the bytes, replays change nothing, users
    do not see or touch one another's files, downloads return what was uploaded, lists keep the
    requested order, and exactly the listed extensions with matching bytes are accepted.
  \<^item> HTTP (\<open>Http_Properties\<close>): the same through the handlers, and authentication,
    header safety and routing.
  \<^item> Contract (\<open>Openapi\<close>): whatever arrives for a documented operation, the answer has a status, a
    kind of body and error codes the document lists, or is one of three named exceptions, and a
    media object in it has the documented properties with values of the documented types, but for
    its status, whose spelling the document does not have; and when exactly an upload is
    answered as too large.
  \<^item> From one request to the next (\<open>Client_Properties\<close>): after a 201 the owner downloads the posted
    bytes whatever the server does for others in between; after a 204 the row is gone and the
    content is gone or scheduled, until somebody uploads that id anew, and the worker finishes
    the removal when nothing fails. Here requests and rounds
    follow one another; that they may interrupt one another is the subject of \<open>Concurrency\<close>.
  \<^item> Refinement (\<open>Map_Refinement\<close>, \<open>Service_Spec\<close>): while the database and S3 answer, every response of
    every run of the server is the one the handlers give over the plain map, and every use case is
    one step of the specification; tables, objects, tasks and the worker do not show. Excluded
    is an upload of an id whose deletion task is still open, the case of the first of the two
    theorems on lost content above.
  \<^item> Concurrency (here): the storage contract holds at every moment of every interleaving, with
    lost replies and crashes, up to the first of two named events: content stored for an id whose
    deletion is under way, or an insert that took effect and is reported as failed. The proof
    simulates the code by an abstract machine over rows, contents and tasks whose steps keep an
    invariant. The operations are runs of the interleaved system, without its crash step. A
    download that others interrupt returns the content it read the row of, or that of one
    upload under the same id since, or an error, and a row disappears only by
    a delete statement of its owner (\<open>Concurrent_Requests\<close>); a retry that overtakes its upload is
    refused.
  \<^item> Schema (\<open>Schema_Properties\<close>): the migrations carry media through, the spelling of the status can
    be reversed, the loss of owners cannot once there is media without one; the tables the
    repositories work on have the structure the migrations produce, every row fits it, and it
    refuses nothing \<open>New\<close> builds.
  \<^item> Programs (\<open>Command_Properties\<close>): when \<open>Load\<close> succeeds, what \<open>dbclear\<close> touches and prints, how the
    server starts, closes what it opened and exits.

  \<^bold>\<open>Parameters and hypotheses.\<close> Code outside the repository is an argument, with what the service
  relies on as a named hypothesis: \<open>s3_documented\<close> (conditional put, get, idempotent delete of the S3
  API; a reply may be lost at any call) and \<open>uuid_documented\<close> (an id is parsed back from what it prints as), both in
  \<open>store_ok\<close>; \<open>s3_answers\<close> (no loss, for liveness and for the compensation); \<open>s3_dependable\<close> (no loss outside of
  the immediate deletes, and 412 exactly for a taken key, for the refinement); \<open>chi_documented\<close> (the
  router picks a matching route); \<open>rune_documented\<close> (printable forms of \<^verbatim>\<open>strconv\<close>);
  \<open>uuid_path_documented\<close> (an id prints without slashes); \<open>httpx_documented\<close>, \<open>codes_documented\<close>,
  \<open>auth_documented\<close> (what the shared library writes for a response, its error codes, and the 401
  of its authentication). PostgreSQL's
  clock, locks, timestamp precision, text encoding and lost statements are fields of the database
  state, so they range over everything.

  \<^bold>\<open>Bounds and fuel.\<close> All functions are total. \<open>duration_loop\<close> (the loop of \<^verbatim>\<open>time.ParseDuration\<close>)
  has fuel the length of its input, which is enough by \<open>duration_loop_fuel\<close>, as each turn consumes a
  character. The worker's endless loop runs over the list of outcomes of its \<^verbatim>\<open>select\<close>; the drain
  property gives the number of rounds. Integers are unbounded except where the code can overflow:
  \<open>int64\<close> sums and parsing, the \<open>INTEGER\<close> attempt counter, the column widths of the schema.

  \<^bold>\<open>Not modelled, and why.\<close> chi, the authentication middlewares, httpx, pgx, the AWS SDK and the HTTP
  server (other repositories: parameters or outcomes); the RequestID, Recoverer and Timeout
  middlewares; durations in log lines; the removal of temporary multipart files; host parsing in
  \<^verbatim>\<open>net/url\<close>, which changes between Go releases; flag parsing and reading of \<^verbatim>\<open>.env\<close>; the
  prose of the OpenAPI document and the bodies of its errors beyond their codes; build and CI files.
\<close>

section \<open>Requests and workers at the same time\<close>

text \<open>
  Claim C2. The storage contract under concurrency. Start with the contract and no request
  under way, and let any number of uploads, deletes and workers run, interleaved call by call,
  fail, lose replies, and crash between any two calls. At every moment every row has its
  content, of the recorded size, and there is no open deletion task for it, nor a request or a
  worker still about to delete its content; unless, earlier in the run, one of exactly two
  things happened (\<open>unsafe_event\<close>): content was stored anew for an id while its deletion was
  under way (\<open>revives\<close>), or the insert of an upload took effect and was reported as failed
  (\<open>lost_insert\<close>). The code excludes neither, and each alone does break the contract, as
  \<open>Storage_Properties\<close> and \<open>Service_Properties\<close> show.
\<close>

theorem storage_contract_interleaved:
  assumes "store_ok (L, S)" and "db_inv (sys_db st)" and "sys_threads st = []"
    and "stored (media_rows (sys_db st)) (store_content (L, S) (sys_s3 st))"
    and "dom (media_rows (sys_db st)) \<inter> live_ids (sys_db st) = {}"
    and "(sys_step L S)\<^sup>*\<^sup>* st st'"
  shows "stored (media_rows (sys_db st')) (store_content (L, S) (sys_s3 st')) \<and>
         dom (media_rows (sys_db st')) \<inter> busy_ids st' = {} \<or>
         (\<exists>y z. (careful_step L S)\<^sup>*\<^sup>* st y \<and> unsafe_event L S y z \<and> (sys_step L S)\<^sup>*\<^sup>* z st')"
  using careful_or_event [OF assms(6)]
proof (rule disjE)
  assume run: "(careful_step L S)\<^sup>*\<^sup>* st st'"
  have "ainv (abs_sys (L, S) st)" using assms(3-5) by (simp add: ainv_def contract_def busy_ids_def)
  from sys_reachable [OF run assms(1,2) this] show ?thesis by (simp add: ainv_def contract_def)
qed blast

theorem storage_contract_interleaved_witness:
  "case Repository_Create (wired_repo (demo_config (\<lambda>_. False))) RequestCtx (demo_world (demo_db [] [] []) empty_bucket)
          (demo_media 1 7) demo_content of (r, w') \<Rightarrow>
     stored (media_rows (meta_st w')) (store_content (demo_config (\<lambda>_. False)) (blob_st w')) \<or>
     (\<exists>y z. (careful_step mem_uuid (mem_store (\<lambda>_. False)))\<^sup>*\<^sup>* (at (demo_db [] [] []) empty_bucket []) y \<and>
            unsafe_event mem_uuid (mem_store (\<lambda>_. False)) y z \<and>
            (sys_step mem_uuid (mem_store (\<lambda>_. False)))\<^sup>*\<^sup>* z (at (meta_st w') (blob_st w') []))"
proof -
  let ?w = "demo_world (demo_db [] [] []) empty_bucket"
  let ?L = mem_uuid and ?S = "mem_store (\<lambda>_. False)"
  obtain r w' where c: "Repository_Create (wired_repo (demo_config (\<lambda>_. False))) RequestCtx ?w (demo_media 1 7) demo_content = (r, w')"
    by fastforce
  have "sys_step ?L ?S (at (meta_st ?w) (blob_st ?w) []) (at (meta_st ?w) (blob_st ?w) [Uploading (demo_media 1 7) demo_content])"
    using env_step.start [of "demo_media 1 7" demo_content "at (meta_st ?w) (blob_st ?w) []"] by (simp add: sys_step_def)
  moreover have "(request_step ?L ?S)\<^sup>*\<^sup>* (at (meta_st ?w) (blob_st ?w) ([] @ Uploading (demo_media 1 7) demo_content # []))
      (at (meta_st w') (blob_st w') ([] @ []))"
    using c by (intro create_runs) simp
  then have "(sys_step ?L ?S)\<^sup>*\<^sup>* (at (meta_st ?w) (blob_st ?w) [Uploading (demo_media 1 7) demo_content])
      (at (meta_st w') (blob_st w') [])"
    using request_run_sys by fastforce
  ultimately have run: "(sys_step ?L ?S)\<^sup>*\<^sup>* (at (meta_st ?w) (blob_st ?w) []) (at (meta_st w') (blob_st w') [])"
    by (simp add: converse_rtranclp_into_rtranclp)
  show ?thesis
    using storage_contract_interleaved [OF _ _ _ _ _ run] c
    by (simp add: media_rows_def live_ids_def stored_def) blast
qed

text \<open>
  Claim C22. The interleaved system is the code: \<open>Create\<close>, the three deletes and a worker
  round, run by themselves with any context and any outcome of their calls, are runs of the
  system's steps for requests, or for the worker, from the state they start in to the state
  they leave. A crash is not among these steps, so a call that the code makes and that the
  steps do not, or the other way round, would show.
\<close>

theorem operations_are_runs:
  assumes "step = request_step L S \<and> Repository_Create (wired_repo (L, S)) x w m b = (ra, w') \<and>
             before = ts @ Uploading m b # us \<and> after = ts @ us \<or>
           step = request_step L S \<and>
             (Repository_Delete (wired_repo (L, S)) x w u i = (ra, w') \<or>
              Repository_DeleteByIDs (wired_repo (L, S)) x w u is = (rn, w') \<or>
              Repository_DeleteAllByUser (wired_repo (L, S)) x w u = (rn, w')) \<and>
             before = ts \<and> after = ts \<or>
           step = worker_step L S \<and>
             Worker_RunOnce (wired_worker (L, S)) x (meta_st w, blob_st w) = (ra, meta_st w', blob_st w') \<and>
             before = ts \<and> after = ts"
  shows "step\<^sup>*\<^sup>* (at (meta_st w) (blob_st w) before) (at (meta_st w') (blob_st w') after)"
  using assms
proof (elim disjE conjE)
  assume "step = request_step L S" "Repository_Create (wired_repo (L, S)) x w m b = (ra, w')"
    "before = ts @ Uploading m b # us" "after = ts @ us"
  then show ?thesis using create_runs by blast
next
  assume "step = worker_step L S"
    and r: "Worker_RunOnce (wired_worker (L, S)) x (meta_st w, blob_st w) = (ra, meta_st w', blob_st w')"
    and "before = ts" "after = ts"
  with round_runs [OF r, of ts] show ?thesis by simp
qed (use delete_runs in blast)+

theorem operations_are_runs_witness:
  "(request_step mem_uuid (mem_store (\<lambda>_. False)))\<^sup>*\<^sup>*
     (at (demo_db [demo_media 1 7] [] []) (demo_bucket [1] []) [WorkerClaimed 2])
     (at (meta_st (snd (Repository_Delete (wired_repo (demo_config (\<lambda>_. False))) RequestCtx
            (demo_world (demo_db [demo_media 1 7] [] []) (demo_bucket [1] [])) 7 1)))
         (blob_st (snd (Repository_Delete (wired_repo (demo_config (\<lambda>_. False))) RequestCtx
            (demo_world (demo_db [demo_media 1 7] [] []) (demo_bucket [1] [])) 7 1))) [WorkerClaimed 2])"
proof -
  let ?w = "demo_world (demo_db [demo_media 1 7] [] []) (demo_bucket [1] [])"
  obtain r w' where c: "Repository_Delete (wired_repo (demo_config (\<lambda>_. False))) RequestCtx ?w 7 1 = (r, w')" by fastforce
  with operations_are_runs [of "request_step mem_uuid (mem_store (\<lambda>_. False))" mem_uuid "mem_store (\<lambda>_. False)" RequestCtx
      ?w "demo_media 1 7" "[]" r w' "[WorkerClaimed 2]" "[WorkerClaimed 2]" "[]" "[WorkerClaimed 2]" 7 1 "[]"]
  show ?thesis by simp
qed

end
